(* ===== verification/Prelude.thy ===== *)
theory Prelude
  imports Complex_Main
begin

text \<open>
  Shared vocabulary of the item-service development: the names of the Python types the
  model uses, the fact collections that the component theories fill, and the generic
  lemmas on lists, options and sums that several components need (lookups by key in a
  list of rows, updates and deletions by key, slices taken by offset and limit).
\<close>

named_theorems model_defs "definitions of the model unfolded by the component proofs"
named_theorems row_simps "rewrite rules for lookups, updates and deletions by key"

type_synonym py_int = int

text \<open>
  A Python \<^verbatim>\<open>float\<close>: a finite value, or one of the IEEE specials. \<^verbatim>\<open>json.loads\<close> gives
  them for \<^verbatim>\<open>1e400\<close> (overflow to \<^verbatim>\<open>inf\<close>) and the tokens \<^verbatim>\<open>Infinity\<close>,
  \<^verbatim>\<open>-Infinity\<close>, \<^verbatim>\<open>NaN\<close>; Pydantic accepts them for a \<^verbatim>\<open>float\<close> field, and
  PostgreSQL stores them in a \<^verbatim>\<open>double precision\<close> column. Finite values are reals: the
  rounding of decimal literals to binary is not modelled.
\<close>

datatype py_float = Fin real | PosInf | NegInf | NaN

fun is_finite :: "py_float \<Rightarrow> bool" where
  "is_finite (Fin _) = True"
| "is_finite _ = False"

text \<open>Python's \<^verbatim>\<open>==\<close> on floats: NaN equals nothing, itself included.\<close>

definition py_float_eq :: "py_float \<Rightarrow> py_float \<Rightarrow> bool" where
  "py_float_eq a b \<longleftrightarrow> a = b \<and> a \<noteq> NaN"

subsection \<open>Lookup of the first element with a given key\<close>

lemma find_key_None_iff [row_simps]:
  "find (\<lambda>r. f r = k) xs = None \<longleftrightarrow> k \<notin> f ` set xs"
  by (induction xs) auto

lemma find_key_Some:
  "find (\<lambda>r. f r = k) xs = Some r \<Longrightarrow> r \<in> set xs \<and> f r = k"
  by (auto simp: find_Some_iff)

lemma find_key_distinct [row_simps]:
  "distinct (map f xs) \<Longrightarrow> r \<in> set xs \<Longrightarrow> find (\<lambda>y. f y = f r) xs = Some r"
  by (induction xs) (auto simp: image_iff)

lemma find_key_append [row_simps]:
  "find (\<lambda>r. f r = k) (xs @ ys) =
     (case find (\<lambda>r. f r = k) xs of None \<Rightarrow> find (\<lambda>r. f r = k) ys | Some r \<Rightarrow> Some r)"
  by (induction xs) auto

subsection \<open>Replacing and removing the elements with a given key\<close>

lemma map_key_unchanged [row_simps]:
  "k \<notin> f ` set xs \<Longrightarrow> map (\<lambda>r. if f r = k then g r else r) xs = xs"
  by (induction xs) auto

lemma filter_key_unchanged [row_simps]:
  "k \<notin> f ` set xs \<Longrightarrow> filter (\<lambda>r. f r \<noteq> k) xs = xs"
  by (induction xs) auto

lemma length_filter_key_distinct [row_simps]:
  "distinct (map f xs) \<Longrightarrow> k \<in> f ` set xs \<Longrightarrow> length (filter (\<lambda>r. f r = k) xs) = 1"
proof (induction xs)
  case Nil
  then show ?case by simp
next
  case (Cons x xs)
  show ?case
  proof (cases "f x = k")
    case True
    with Cons.prems have "k \<notin> f ` set xs" by auto
    then have "filter (\<lambda>r. f r = k) xs = []" by (auto simp: filter_empty_conv)
    with True show ?thesis by simp
  next
    case False
    with Cons show ?thesis by auto
  qed
qed

lemma length_filter_key_absent [row_simps]:
  "k \<notin> f ` set xs \<Longrightarrow> length (filter (\<lambda>r. f r = k) xs) = 0"
  by (induction xs) auto

lemma find_key_map_other [row_simps]:
  "(\<And>r. f r = k \<Longrightarrow> f (g r) = k) \<Longrightarrow> k \<noteq> k' \<Longrightarrow>
   find (\<lambda>r. f r = k') (map (\<lambda>r. if f r = k then g r else r) xs) = find (\<lambda>r. f r = k') xs"
  by (induction xs) auto

lemma find_key_map_hit [row_simps]:
  "(\<And>r. f r = k \<Longrightarrow> f (g r) = k) \<Longrightarrow>
   find (\<lambda>r. f r = k) (map (\<lambda>r. if f r = k then g r else r) xs) = map_option g (find (\<lambda>r. f r = k) xs)"
  by (induction xs) auto

lemma filter_key_map_hit [row_simps]:
  "(\<And>r. f r = k \<Longrightarrow> f (g r) = k) \<Longrightarrow>
   length (filter (\<lambda>r. f r = k) (map (\<lambda>r. if f r = k then g r else r) xs)) = length (filter (\<lambda>r. f r = k) xs)"
  by (induction xs) auto

lemma map_key_idem [row_simps]:
  "(\<And>r. f r = k \<Longrightarrow> f (g r) = k) \<Longrightarrow> (\<And>r. f r = k \<Longrightarrow> g (g r) = g r) \<Longrightarrow>
   map (\<lambda>r. if f r = k then g r else r) (map (\<lambda>r. if f r = k then g r else r) xs) =
   map (\<lambda>r. if f r = k then g r else r) xs"
  by (induction xs) auto

lemma find_key_filter [row_simps]:
  "find (\<lambda>r. f r = k') (filter (\<lambda>r. f r \<noteq> k) xs) =
     (if k' = k then None else find (\<lambda>r. f r = k') xs)"
  by (induction xs) auto

lemma map_key_keys [row_simps]:
  "(\<And>r. f r = k \<Longrightarrow> f (g r) = k) \<Longrightarrow> map f (map (\<lambda>r. if f r = k then g r else r) xs) = map f xs"
  by (induction xs) auto

lemma map_key_single [row_simps]:
  assumes "distinct (map f xs)" and "find (\<lambda>r. f r = k) xs = Some r"
  shows "map (\<lambda>x. if f x = k then g x else x) xs = map (\<lambda>x. if f x = k then g r else x) xs"
proof (rule map_cong [OF refl])
  fix x assume x: "x \<in> set xs"
  have r: "r \<in> set xs" "f r = k" using find_key_Some [OF assms(2)] by auto
  have "inj_on f (set xs)" using assms(1) by (simp add: distinct_map)
  with x r have "f x = k \<Longrightarrow> x = r" by (auto dest: inj_onD)
  then show "(if f x = k then g x else x) = (if f x = k then g r else x)" by auto
qed

lemma map_key_self [row_simps]:
  assumes "distinct (map f xs)" and "find (\<lambda>r. f r = k) xs = Some r"
  shows "map (\<lambda>x. if f x = k then r else x) xs = xs"
proof (rule map_idI)
  fix x assume x: "x \<in> set xs"
  have r: "r \<in> set xs" "f r = k" using find_key_Some [OF assms(2)] by auto
  have "inj_on f (set xs)" using assms(1) by (simp add: distinct_map)
  with x r show "(if f x = k then r else x) = x" by (auto dest: inj_onD)
qed

subsection \<open>Lists related element by element\<close>

lemma list_all2_in_set2:
  "list_all2 P xs ys \<Longrightarrow> y \<in> set ys \<Longrightarrow> \<exists>x \<in> set xs. P x y"
  by (induction rule: list_all2_induct) auto

subsection \<open>Slices by offset and limit\<close>

lemma length_slice [row_simps]:
  "length (take l (drop s xs)) = min l (length xs - s)"
  by simp

lemma slice_subset: "set (take l (drop s xs)) \<subseteq> set xs"
  by (meson set_drop_subset set_take_subset subset_trans)

lemma distinct_slice:
  "distinct xs \<Longrightarrow> distinct (take l (drop s xs))"
  by simp

end
