(* ===== verification/Schema.thy ===== *)
theory Schema
  imports Prelude
begin

text \<open>
  The data shapes of \<^verbatim>\<open>src/main.py\<close>: the Python values that cross the HTTP boundary
  (\<open>pyval\<close>, what \<^verbatim>\<open>json.loads\<close> produces and what the response encoder consumes), the
  Pydantic models \<^verbatim>\<open>ItemBase\<close>/\<^verbatim>\<open>ItemCreate\<close>/\<^verbatim>\<open>Item\<close> as an extensible record, the
  SQLAlchemy class \<^verbatim>\<open>ItemDB\<close> as a record of nullable attributes, and the conversions
  between them: \<^verbatim>\<open>item.dict()\<close>, the \<^verbatim>\<open>setattr\<close> loop of \<^verbatim>\<open>update_item\<close>, the keyword
  constructor \<^verbatim>\<open>ItemDB(**item.dict())\<close>, the request-body validation of \<^verbatim>\<open>ItemCreate\<close>
  and the \<^verbatim>\<open>from_attributes\<close> validation of a row as the response model \<^verbatim>\<open>Item\<close>,
  and which values \<^verbatim>\<open>json.dumps(allow_nan=False)\<close> can render (\<open>json_ok\<close>).
\<close>

subsection \<open>Python values\<close>

datatype pyval =
    PNone
  | PBool bool
  | PInt py_int
  | PFloat py_float
  | PStr string
  | PList "pyval list"
  | PDict "(string \<times> pyval) list"

text \<open>
  Whether \<^verbatim>\<open>json.dumps(value, allow_nan=False)\<close> succeeds, as Starlette's
  \<^verbatim>\<open>JSONResponse\<close> renders every body: a non-finite float anywhere raises \<^verbatim>\<open>ValueError\<close>.
\<close>

fun json_ok :: "pyval \<Rightarrow> bool" where
  "json_ok (PFloat f) = is_finite f"
| "json_ok (PList vs) = list_all json_ok vs"
| "json_ok (PDict kv) = list_all (\<lambda>(k, v). json_ok v) kv"
| "json_ok _ = True"

definition py_opt_str :: "string option \<Rightarrow> pyval" where
  "py_opt_str v = (case v of None \<Rightarrow> PNone | Some s \<Rightarrow> PStr s)"

subsection \<open>The Pydantic models (lines 26--37)\<close>

text \<open>\<^verbatim>\<open>class ItemBase(BaseModel)\<close>; \<^verbatim>\<open>ItemCreate\<close> adds nothing to it.\<close>

record item_base =
  nome :: string
  descricao :: "string option"
  preco :: py_float

type_synonym item_create = item_base

text \<open>\<^verbatim>\<open>class Item(ItemBase)\<close> extends it by the id; the field is \<^verbatim>\<open>id\<close> in the source.\<close>

record item = item_base +
  item_id :: py_int

subsection \<open>The mapped class \<^verbatim>\<open>ItemDB\<close> (lines 18--23)\<close>

text \<open>
  An \<^verbatim>\<open>ItemDB\<close> object, and a row of table \<^verbatim>\<open>items\<close>: the primary key \<^verbatim>\<open>id\<close> is
  \<open>None\<close> until the INSERT assigns it, and the three other columns are declared without
  \<^verbatim>\<open>nullable=False\<close>, so each of them may hold NULL.
\<close>

record itemdb =
  db_id :: "py_int option"
  db_nome :: "string option"
  db_descricao :: "string option"
  db_preco :: "py_float option"

definition new_itemdb :: itemdb where
  "new_itemdb = \<lparr>db_id = None, db_nome = None, db_descricao = None, db_preco = None\<rparr>"

subsection \<open>\<^verbatim>\<open>item.dict()\<close> and attribute assignment\<close>

text \<open>\<^verbatim>\<open>item.dict()\<close>: the fields of the model, in declaration order.\<close>

definition item_dict :: "item_create \<Rightarrow> (string \<times> pyval) list" where
  "item_dict it =
     [(''nome'', PStr (nome it)), (''descricao'', py_opt_str (descricao it)),
      (''preco'', PFloat (preco it))]"

definition py_str_attr :: "pyval \<Rightarrow> string option" where
  "py_str_attr v = (case v of PStr s \<Rightarrow> Some s | _ \<Rightarrow> None)"

definition py_float_attr :: "pyval \<Rightarrow> py_float option" where
  "py_float_attr v = (case v of PFloat r \<Rightarrow> Some r | PInt i \<Rightarrow> Some (Fin (of_int i)) | _ \<Rightarrow> None)"

text \<open>
  \<^verbatim>\<open>setattr(db_item, key, value)\<close> on a mapped object: a column name sets that column's
  attribute; any other name sets a plain Python attribute that is never persisted, so
  the mapped state is unchanged.
\<close>

fun setattr_itemdb :: "itemdb \<Rightarrow> string \<times> pyval \<Rightarrow> itemdb" where
  "setattr_itemdb obj (key, v) =
     (if key = ''id'' then obj\<lparr>db_id := (case v of PInt k \<Rightarrow> Some k | _ \<Rightarrow> None)\<rparr>
      else if key = ''nome'' then obj\<lparr>db_nome := py_str_attr v\<rparr>
      else if key = ''descricao'' then obj\<lparr>db_descricao := py_str_attr v\<rparr>
      else if key = ''preco'' then obj\<lparr>db_preco := py_float_attr v\<rparr>
      else obj)"

text \<open>
  The declarative constructor \<^verbatim>\<open>ItemDB(**kwargs)\<close> assigns each keyword in turn to a
  fresh transient object. (It raises \<^verbatim>\<open>TypeError\<close> for a keyword that is no attribute of
  the class; the only keywords it receives are the keys of \<^verbatim>\<open>ItemCreate.dict()\<close>, all
  column names, so that branch is not reachable and not modelled.)
\<close>

definition itemdb_kwargs :: "(string \<times> pyval) list \<Rightarrow> itemdb" where
  "itemdb_kwargs kw = foldl setattr_itemdb new_itemdb kw"

subsection \<open>Validation of a request body as \<^verbatim>\<open>ItemCreate\<close>\<close>

text \<open>
  Pydantic (v2, lax mode, Python input after \<^verbatim>\<open>json.loads\<close>) checks the fields in
  declaration order and reports every failing field. A \<^verbatim>\<open>str\<close> field takes a string
  only; a \<^verbatim>\<open>float\<close> field takes a float or an int, in lax mode also a bool and a numeric
  string. A float is taken as it is, \<^verbatim>\<open>inf\<close> and \<^verbatim>\<open>nan\<close> included (Pydantic's
  default \<^verbatim>\<open>allow_inf_nan=True\<close>). The parser of numeric strings belongs to the library
  and is a parameter \<open>str_float\<close> of the model. \<^verbatim>\<open>Optional[str] = None\<close> takes a
  missing key or \<^verbatim>\<open>null\<close> as \<open>None\<close>. Keys that are not fields are ignored. FastAPI
  reads an empty body and a JSON \<^verbatim>\<open>null\<close> body alike, as a missing body.
\<close>

datatype verr_kind = Missing | StringType | FloatType | FloatParsing | IntType | IntParsing | ModelType

type_synonym verr = "string list \<times> verr_kind"

definition validate_str :: "pyval \<Rightarrow> verr_kind + string" where
  "validate_str v = (case v of PStr s \<Rightarrow> Inr s | _ \<Rightarrow> Inl StringType)"

definition validate_float :: "(string \<Rightarrow> py_float option) \<Rightarrow> pyval \<Rightarrow> verr_kind + py_float" where
  "validate_float str_float v =
     (case v of
        PFloat r \<Rightarrow> Inr r
      | PInt i \<Rightarrow> Inr (Fin (of_int i))
      | PBool b \<Rightarrow> Inr (Fin (if b then 1 else 0))
      | PStr s \<Rightarrow> (case str_float s of Some r \<Rightarrow> Inr r | None \<Rightarrow> Inl FloatParsing)
      | _ \<Rightarrow> Inl FloatType)"

definition validate_opt_str :: "pyval option \<Rightarrow> verr_kind + string option" where
  "validate_opt_str v =
     (case v of
        None \<Rightarrow> Inr None
      | Some PNone \<Rightarrow> Inr None
      | Some w \<Rightarrow> (case validate_str w of Inl e \<Rightarrow> Inl e | Inr s \<Rightarrow> Inr (Some s)))"

definition required :: "(pyval \<Rightarrow> verr_kind + 'a) \<Rightarrow> pyval option \<Rightarrow> verr_kind + 'a" where
  "required f v = (case v of None \<Rightarrow> Inl Missing | Some w \<Rightarrow> f w)"

definition field_errs :: "string list \<Rightarrow> string \<Rightarrow> verr_kind + 'a \<Rightarrow> verr list" where
  "field_errs loc fld r = (case r of Inl e \<Rightarrow> [(loc @ [fld], e)] | Inr _ \<Rightarrow> [])"

definition validate_item_create ::
    "(string \<Rightarrow> py_float option) \<Rightarrow> pyval option \<Rightarrow> verr list + item_create" where
  "validate_item_create str_float body =
     (case body of
        None \<Rightarrow> Inl [([''body''], Missing)]
      | Some PNone \<Rightarrow> Inl [([''body''], Missing)]
      | Some (PDict kv) \<Rightarrow>
          (let rn = required validate_str (map_of kv ''nome'');
               rd = validate_opt_str (map_of kv ''descricao'');
               rp = required (validate_float str_float) (map_of kv ''preco'')
           in case (rn, rd, rp) of
                (Inr n, Inr d, Inr p) \<Rightarrow> Inr \<lparr>nome = n, descricao = d, preco = p\<rparr>
              | _ \<Rightarrow> Inl (field_errs [''body''] ''nome'' rn @ field_errs [''body''] ''descricao'' rd
                         @ field_errs [''body''] ''preco'' rp))
      | Some _ \<Rightarrow> Inl [([''body''], ModelType)])"

subsection \<open>The response model \<^verbatim>\<open>Item\<close> read from attributes\<close>

text \<open>
  \<^verbatim>\<open>from_attributes = True\<close>: FastAPI validates the returned \<^verbatim>\<open>ItemDB\<close> object as an
  \<^verbatim>\<open>Item\<close> by reading its attributes; a NULL in \<^verbatim>\<open>id\<close>, \<^verbatim>\<open>nome\<close> or \<^verbatim>\<open>preco\<close> fails.
\<close>

definition item_of_orm :: "itemdb \<Rightarrow> verr list + item" where
  "item_of_orm obj =
     (let rn = (case db_nome obj of None \<Rightarrow> Inl StringType | Some s \<Rightarrow> Inr s);
          rp = (case db_preco obj of None \<Rightarrow> Inl FloatType | Some r \<Rightarrow> Inr r);
          ri = (case db_id obj of None \<Rightarrow> Inl IntType | Some k \<Rightarrow> Inr k)
      in case (rn, rp, ri) of
           (Inr n, Inr p, Inr k) \<Rightarrow>
             Inr \<lparr>nome = n, descricao = db_descricao obj, preco = p, item_id = k\<rparr>
         | _ \<Rightarrow> Inl (field_errs [''response''] ''nome'' rn @ field_errs [''response''] ''preco'' rp
                    @ field_errs [''response''] ''id'' ri))"

text \<open>The JSON object of an \<^verbatim>\<open>Item\<close>: its fields in declaration order, the inherited first.\<close>

definition item_json :: "item \<Rightarrow> pyval" where
  "item_json it =
     PDict [(''nome'', PStr (nome it)), (''descricao'', py_opt_str (descricao it)),
            (''preco'', PFloat (preco it)), (''id'', PInt (item_id it))]"

declare new_itemdb_def [model_defs] item_dict_def [model_defs] py_opt_str_def [model_defs]
  py_str_attr_def [model_defs] py_float_attr_def [model_defs] itemdb_kwargs_def [model_defs]

subsection \<open>Lemmas\<close>

lemma setattr_item_dict:
  "foldl setattr_itemdb obj (item_dict it) =
     obj\<lparr>db_nome := Some (nome it), db_descricao := descricao it, db_preco := Some (preco it)\<rparr>"
  by (simp add: model_defs split: option.split)

lemma kwargs_item_dict:
  "itemdb_kwargs (item_dict it) =
     \<lparr>db_id = None, db_nome = Some (nome it), db_descricao = descricao it, db_preco = Some (preco it)\<rparr>"
  by (simp add: itemdb_kwargs_def setattr_item_dict new_itemdb_def)

lemma validate_opt_str_py [simp]:
  "validate_opt_str (Some (py_opt_str d)) = Inr d"
  by (cases d) (simp_all add: validate_opt_str_def py_opt_str_def validate_str_def)

lemma validate_item_dict:
  "validate_item_create str_float (Some (PDict (item_dict it))) = Inr it"
  by (simp add: validate_item_create_def item_dict_def required_def validate_str_def
      validate_float_def)

lemma item_of_orm_Some:
  "item_of_orm \<lparr>db_id = Some k, db_nome = Some n, db_descricao = d, db_preco = Some p\<rparr> =
     Inr \<lparr>nome = n, descricao = d, preco = p, item_id = k\<rparr>"
  by (simp add: item_of_orm_def)

lemma item_of_orm_Inr_iff:
  "(\<exists>it. item_of_orm obj = Inr it) \<longleftrightarrow>
     db_id obj \<noteq> None \<and> db_nome obj \<noteq> None \<and> db_preco obj \<noteq> None"
  by (auto simp: item_of_orm_def split: option.splits)

lemma item_of_orm_fields:
  "item_of_orm obj = Inr it \<Longrightarrow>
     db_id obj = Some (item_id it) \<and> db_nome obj = Some (nome it) \<and>
     db_descricao obj = descricao it \<and> db_preco obj = Some (preco it)"
  by (auto simp: item_of_orm_def split: option.splits)

lemma json_ok_item [simp]: "json_ok (item_json it) = is_finite (preco it)"
  by (cases "descricao it") (simp_all add: item_json_def py_opt_str_def)

lemma json_ok_items: "list_all json_ok (map item_json its) = list_all (\<lambda>it. is_finite (preco it)) its"
  by (induction its) simp_all

lemma validate_missing_nome:
  "map_of kv ''nome'' = None \<Longrightarrow>
     \<exists>errs. validate_item_create str_float (Some (PDict kv)) = Inl errs \<and>
            ([''body'', ''nome''], Missing) \<in> set errs"
  by (auto simp: validate_item_create_def required_def field_errs_def Let_def
      split: sum.split prod.split)

end
