(* ===== verification/Storage.thy ===== *)
theory Storage
  imports Schema
begin

text \<open>
  The PostgreSQL side of the service: the table \<^verbatim>\<open>items\<close> that \<^verbatim>\<open>ItemDB\<close> declares
  (\<^verbatim>\<open>src/main.py\<close> lines 18--23) and the sequence behind its \<^verbatim>\<open>SERIAL\<close> primary key,
  with the SQL statements SQLAlchemy emits for the handlers: \<^verbatim>\<open>CREATE TABLE IF NOT
  EXISTS\<close> (\<^verbatim>\<open>Base.metadata.create_all\<close>), \<^verbatim>\<open>INSERT\<close> with a key from
  \<^verbatim>\<open>nextval\<close>, \<^verbatim>\<open>SELECT \<dots> WHERE id = k LIMIT 1\<close> (\<^verbatim>\<open>.filter(...).first()\<close>),
  \<^verbatim>\<open>SELECT \<dots> LIMIT l OFFSET s\<close> (\<^verbatim>\<open>.offset(skip).limit(limit).all()\<close>), \<^verbatim>\<open>UPDATE\<close>
  and \<^verbatim>\<open>DELETE\<close> by key. The table is the list of its rows in the order a sequential
  scan returns them; every statement fails when the table does not exist.
\<close>

subsection \<open>State and errors\<close>

record db =
  has_table :: bool
  rows :: "itemdb list"
  last_value :: py_int

text \<open>
  \<^verbatim>\<open>Column(Integer, primary_key=True)\<close> becomes \<^verbatim>\<open>id SERIAL\<close>: a 32-bit column fed by
  a sequence of the same width, which fails once it has handed out its maximum. Python
  integers reach the server as literals: a LIMIT or OFFSET outside the 64-bit range is
  an error, a negative one another.
\<close>

definition serial_max :: py_int where
  "serial_max = 2147483647"

definition in_bigint :: "py_int \<Rightarrow> bool" where
  "in_bigint x \<longleftrightarrow> - (2 ^ 63) \<le> x \<and> x < 2 ^ 63"

datatype db_error =
    UndefinedTable
  | SequenceExhausted
  | NumericOutOfRange
  | NegativeOffset
  | NegativeLimit
  | StaleData
  | RefreshMissing

definition empty_db :: db where
  "empty_db = \<lparr>has_table = False, rows = [], last_value = 0\<rparr>"

subsection \<open>Statements\<close>

definition create_all :: "db \<Rightarrow> db" where
  "create_all d = d\<lparr>has_table := True\<rparr>"

definition nextval :: "db \<Rightarrow> db_error + py_int \<times> db" where
  "nextval d =
     (if serial_max \<le> last_value d then Inl SequenceExhausted
      else Inr (last_value d + 1, d\<lparr>last_value := last_value d + 1\<rparr>))"

definition sql_insert :: "itemdb \<Rightarrow> db \<Rightarrow> db_error + py_int \<times> db" where
  "sql_insert obj d =
     (if \<not> has_table d then Inl UndefinedTable
      else case nextval d of
             Inl e \<Rightarrow> Inl e
           | Inr (k, d') \<Rightarrow> Inr (k, d'\<lparr>rows := rows d' @ [obj\<lparr>db_id := Some k\<rparr>]\<rparr>))"

definition sql_select_id :: "py_int \<Rightarrow> db \<Rightarrow> db_error + itemdb option" where
  "sql_select_id k d =
     (if \<not> has_table d then Inl UndefinedTable
      else Inr (find (\<lambda>r. db_id r = Some k) (rows d)))"

definition sql_select_page :: "py_int \<Rightarrow> py_int \<Rightarrow> db \<Rightarrow> db_error + itemdb list" where
  "sql_select_page off cnt d =
     (if \<not> has_table d then Inl UndefinedTable
      else if \<not> in_bigint cnt \<or> \<not> in_bigint off then Inl NumericOutOfRange
      else if off < 0 then Inl NegativeOffset
      else if cnt < 0 then Inl NegativeLimit
      else Inr (take (nat cnt) (drop (nat off) (rows d))))"

text \<open>
  \<^verbatim>\<open>UPDATE items SET c = v, \<dots> WHERE id = k\<close> with the columns the flush found changed
  (\<open>col_set\<close>); the result is the number of rows matched. PostgreSQL writes a new version
  of the row, and a later scan without ORDER BY may return it elsewhere; the model keeps
  the row in its place, so list results after an update are one of the orders the
  database may give (the spec guarantees none).
\<close>

datatype col_set = SetNome "string option" | SetDescricao "string option" | SetPreco "py_float option"

fun set_col :: "itemdb \<Rightarrow> col_set \<Rightarrow> itemdb" where
  "set_col r (SetNome v) = r\<lparr>db_nome := v\<rparr>"
| "set_col r (SetDescricao v) = r\<lparr>db_descricao := v\<rparr>"
| "set_col r (SetPreco v) = r\<lparr>db_preco := v\<rparr>"

definition sql_update :: "py_int \<Rightarrow> col_set list \<Rightarrow> db \<Rightarrow> db_error + nat \<times> db" where
  "sql_update k sets d =
     (if \<not> has_table d then Inl UndefinedTable
      else Inr (length (filter (\<lambda>r. db_id r = Some k) (rows d)),
                d\<lparr>rows := map (\<lambda>r. if db_id r = Some k then foldl set_col r sets else r) (rows d)\<rparr>))"

definition sql_delete :: "py_int \<Rightarrow> db \<Rightarrow> db_error + nat \<times> db" where
  "sql_delete k d =
     (if \<not> has_table d then Inl UndefinedTable
      else Inr (length (filter (\<lambda>r. db_id r = Some k) (rows d)),
                d\<lparr>rows := filter (\<lambda>r. db_id r \<noteq> Some k) (rows d)\<rparr>))"

subsection \<open>Invariant of the table\<close>

text \<open>
  A row is complete when it has a key the sequence has handed out and values in the two
  columns the API always fills; keys are unique and the sequence stays in its range.
\<close>

definition row_ok :: "py_int \<Rightarrow> itemdb \<Rightarrow> bool" where
  "row_ok lv r \<longleftrightarrow>
     (case db_id r of None \<Rightarrow> False | Some k \<Rightarrow> 0 < k \<and> k \<le> lv) \<and>
     db_nome r \<noteq> None \<and> db_preco r \<noteq> None"

definition db_wf :: "db \<Rightarrow> bool" where
  "db_wf d \<longleftrightarrow>
     0 \<le> last_value d \<and> last_value d \<le> serial_max \<and> (has_table d \<or> rows d = []) \<and>
     distinct (map db_id (rows d)) \<and> list_all (row_ok (last_value d)) (rows d)"

text \<open>Every stored price is finite: what a JSON answer carrying the rows needs.\<close>

definition prices_finite :: "db \<Rightarrow> bool" where
  "prices_finite d \<longleftrightarrow> list_all (\<lambda>r. case db_preco r of None \<Rightarrow> True | Some p \<Rightarrow> is_finite p) (rows d)"

subsection \<open>Lemmas on single statements\<close>

lemma set_col_id [simp]: "db_id (set_col r c) = db_id r"
  by (cases c) simp_all

lemma set_cols_id [simp]: "db_id (foldl set_col r sets) = db_id r"
  by (induction sets arbitrary: r) simp_all

lemma itemdb_same_id:
  "db_id (m :: itemdb) = db_id r \<Longrightarrow> m = r\<lparr>db_nome := db_nome m, db_descricao := db_descricao m, db_preco := db_preco m\<rparr>"
  by (rule itemdb.equality) simp_all

lemma row_ok_mono: "row_ok lv r \<Longrightarrow> lv \<le> lv' \<Longrightarrow> row_ok lv' r"
  by (auto simp: row_ok_def split: option.splits)

lemma wf_key_bound:
  "db_wf d \<Longrightarrow> r \<in> set (rows d) \<Longrightarrow> \<exists>k. db_id r = Some k \<and> 0 < k \<and> k \<le> last_value d"
  by (auto simp: db_wf_def list_all_iff row_ok_def split: option.splits)

lemma wf_fresh_key:
  "db_wf d \<Longrightarrow> last_value d < k \<Longrightarrow> Some k \<notin> db_id ` set (rows d)"
  by (fastforce dest: wf_key_bound)

lemma wf_rows_length:
  assumes "db_wf d"
  shows "length (rows d) \<le> nat (last_value d)"
proof -
  let ?ks = "map (the \<circ> db_id) (rows d)"
  have some: "\<forall>r\<in>set (rows d). \<exists>k. db_id r = Some k \<and> 0 < k \<and> k \<le> last_value d"
    using wf_key_bound [OF assms] by blast
  have inj: "inj_on db_id (set (rows d))" using assms by (simp add: db_wf_def distinct_map)
  have "inj_on (the \<circ> db_id) (set (rows d))"
  proof (rule inj_onI)
    fix x y assume x: "x \<in> set (rows d)" and y: "y \<in> set (rows d)" and eq: "(the \<circ> db_id) x = (the \<circ> db_id) y"
    from some x obtain kx where kx: "db_id x = Some kx" by blast
    from some y obtain ky where ky: "db_id y = Some ky" by blast
    from kx ky eq have "db_id x = db_id y" by simp
    with inj x y show "x = y" by (auto dest: inj_onD)
  qed
  then have "distinct ?ks" using assms by (simp add: db_wf_def distinct_map)
  then have "length ?ks = card (set ?ks)" by (rule distinct_card [symmetric])
  also have "\<dots> \<le> card {1..last_value d}"
    using some by (intro card_mono) force+
  finally show ?thesis by simp
qed

lemma create_all_wf: "db_wf d \<Longrightarrow> db_wf (create_all d)"
  by (simp add: db_wf_def create_all_def)

lemma create_all_keeps:
  "rows (create_all d) = rows d \<and> last_value (create_all d) = last_value d \<and> has_table (create_all d)"
  by (simp add: create_all_def)

lemma sql_insert_Inr:
  "sql_insert obj d = Inr (k, d') \<longleftrightarrow>
     has_table d \<and> last_value d < serial_max \<and> k = last_value d + 1 \<and>
     d' = d\<lparr>last_value := k, rows := rows d @ [obj\<lparr>db_id := Some k\<rparr>]\<rparr>"
  by (auto simp: sql_insert_def nextval_def)

lemma sql_insert_Inl:
  "sql_insert obj d = Inl e \<longleftrightarrow>
     (\<not> has_table d \<and> e = UndefinedTable) \<or>
     (has_table d \<and> serial_max \<le> last_value d \<and> e = SequenceExhausted)"
  by (auto simp: sql_insert_def nextval_def)

lemma sql_insert_wf:
  assumes "db_wf d" and "sql_insert obj d = Inr (k, d')"
    and "db_nome obj \<noteq> None" and "db_preco obj \<noteq> None"
  shows "db_wf d'"
proof -
  from assms(2) have d': "d' = d\<lparr>last_value := k, rows := rows d @ [obj\<lparr>db_id := Some k\<rparr>]\<rparr>"
    and k: "k = last_value d + 1" and lt: "last_value d < serial_max" and "has_table d"
    by (auto simp: sql_insert_Inr)
  have "Some k \<notin> db_id ` set (rows d)" using assms(1) k by (simp add: wf_fresh_key)
  moreover have "list_all (row_ok k) (rows d)"
    using assms(1) k by (auto simp: db_wf_def list_all_iff intro: row_ok_mono)
  ultimately show ?thesis
    using assms(1,3,4) d' k lt \<open>has_table d\<close> by (simp add: db_wf_def row_ok_def)
qed

lemma sql_select_id_Inr:
  "has_table d \<Longrightarrow> sql_select_id k d = Inr (find (\<lambda>r. db_id r = Some k) (rows d))"
  by (simp add: sql_select_id_def)

lemma sql_select_page_Inr:
  "has_table d \<Longrightarrow> 0 \<le> off \<Longrightarrow> 0 \<le> cnt \<Longrightarrow> in_bigint off \<Longrightarrow> in_bigint cnt \<Longrightarrow>
     sql_select_page off cnt d = Inr (take (nat cnt) (drop (nat off) (rows d)))"
  by (simp add: sql_select_page_def)

lemma sql_update_Inr:
  "has_table d \<Longrightarrow> sql_update k sets d =
     Inr (length (filter (\<lambda>r. db_id r = Some k) (rows d)),
          d\<lparr>rows := map (\<lambda>r. if db_id r = Some k then foldl set_col r sets else r) (rows d)\<rparr>)"
  by (simp add: sql_update_def)

lemma sql_delete_Inr:
  "has_table d \<Longrightarrow> sql_delete k d =
     Inr (length (filter (\<lambda>r. db_id r = Some k) (rows d)),
          d\<lparr>rows := filter (\<lambda>r. db_id r \<noteq> Some k) (rows d)\<rparr>)"
  by (simp add: sql_delete_def)

lemma update_rows_wf:
  assumes "db_wf d" and "\<And>x. db_id x = Some k \<Longrightarrow> db_id (g x) = Some k"
    and "\<And>x. x \<in> set (rows d) \<Longrightarrow> db_id x = Some k \<Longrightarrow> db_nome (g x) \<noteq> None \<and> db_preco (g x) \<noteq> None"
  shows "db_wf (d\<lparr>rows := map (\<lambda>x. if db_id x = Some k then g x else x) (rows d)\<rparr>)"
proof -
  have keys: "map db_id (map (\<lambda>x. if db_id x = Some k then g x else x) (rows d)) = map db_id (rows d)"
    by (rule map_key_keys) (simp add: assms(2))
  have "list_all (row_ok (last_value d)) (map (\<lambda>x. if db_id x = Some k then g x else x) (rows d))"
    using assms by (auto simp: db_wf_def list_all_iff row_ok_def)
  with assms(1) keys show ?thesis by (simp add: db_wf_def del: map_map)
qed

lemma delete_rows_wf:
  "db_wf d \<Longrightarrow> db_wf (d\<lparr>rows := filter (\<lambda>r. db_id r \<noteq> Some k) (rows d)\<rparr>)"
  by (auto simp: db_wf_def list_all_iff distinct_map_filter)

subsection \<open>Reading back what a statement wrote\<close>

lemma sql_insert_select:
  assumes "db_wf d" and "sql_insert obj d = Inr (k, d')"
  shows "sql_select_id k' d' =
    (if k' = k then Inr (Some (obj\<lparr>db_id := Some k\<rparr>)) else sql_select_id k' d)"
proof -
  from assms(2) have k: "k = last_value d + 1" and "has_table d"
    and d': "d' = d\<lparr>last_value := k, rows := rows d @ [obj\<lparr>db_id := Some k\<rparr>]\<rparr>"
    by (auto simp: sql_insert_Inr)
  have "Some k \<notin> db_id ` set (rows d)" using assms(1) k by (simp add: wf_fresh_key)
  then have none: "find (\<lambda>r. db_id r = Some k) (rows d) = None"
    by (simp add: find_key_None_iff)
  show ?thesis
  proof (cases "find (\<lambda>r. db_id r = Some k') (rows d)")
    case None
    with none d' \<open>has_table d\<close> show ?thesis by (auto simp: sql_select_id_def find_key_append)
  next
    case (Some r)
    with none have "k' \<noteq> k" by auto
    with Some d' \<open>has_table d\<close> show ?thesis by (simp add: sql_select_id_def find_key_append)
  qed
qed

lemma sql_update_hit:
  assumes "db_wf d" and "has_table d" and "find (\<lambda>r. db_id r = Some k) (rows d) = Some r"
  shows "sql_update k sets d =
    Inr (1, d\<lparr>rows := map (\<lambda>x. if db_id x = Some k then foldl set_col r sets else x) (rows d)\<rparr>)"
proof -
  have "Some k \<in> db_id ` set (rows d)" using find_key_Some [OF assms(3)] by force
  with assms(1) have "length (filter (\<lambda>r. db_id r = Some k) (rows d)) = 1"
    by (simp add: db_wf_def length_filter_key_distinct)
  moreover have "map (\<lambda>x. if db_id x = Some k then foldl set_col x sets else x) (rows d) =
      map (\<lambda>x. if db_id x = Some k then foldl set_col r sets else x) (rows d)"
    using assms(1,3) by (intro map_key_single) (simp_all add: db_wf_def)
  ultimately show ?thesis using assms(2) by (simp add: sql_update_Inr)
qed

lemma select_after_update:
  "db_id r' = Some k \<Longrightarrow> find (\<lambda>r. db_id r = Some k') (map (\<lambda>r. if db_id r = Some k then r' else r) xs) =
   (if k' = k then map_option (\<lambda>_. r') (find (\<lambda>r. db_id r = Some k) xs)
    else find (\<lambda>r. db_id r = Some k') xs)"
proof (cases "k' = k")
  case True
  assume "db_id r' = Some k"
  with True show ?thesis
    using find_key_map_hit [of db_id "Some k" "\<lambda>_. r'" xs] by simp
next
  case False
  assume "db_id r' = Some k"
  with False show ?thesis
    using find_key_map_other [of db_id "Some k" "\<lambda>_. r'" "Some k'" xs] by simp
qed

subsection \<open>Properties of the table\<close>

text \<open>
  C35. Keys handed out by the sequence on a well-formed database are positive, fit the
  32-bit \<^verbatim>\<open>id\<close> column, exceed every key in use, and advance the sequence by one.
\<close>

theorem insert_key_bounds:
  assumes "db_wf d" and "sql_insert obj d = Inr (k, d')"
  shows "0 < k \<and> k \<le> serial_max \<and> last_value d' = last_value d + 1 \<and> k = last_value d' \<and>
         (\<forall>r \<in> set (rows d). \<exists>j. db_id r = Some j \<and> j < k)"
proof -
  from assms(2) have "k = last_value d + 1" and "last_value d < serial_max"
    and "last_value d' = k" by (auto simp: sql_insert_Inr)
  moreover have "0 \<le> last_value d" using assms(1) by (simp add: db_wf_def)
  moreover have "\<forall>r \<in> set (rows d). \<exists>j. db_id r = Some j \<and> j < k"
    using wf_key_bound [OF assms(1)] \<open>k = last_value d + 1\<close> by fastforce
  ultimately show ?thesis by simp
qed

theorem insert_key_bounds_witness:
  "db_wf \<lparr>has_table = True, rows = [], last_value = 41\<rparr> \<and>
   sql_insert new_itemdb \<lparr>has_table = True, rows = [], last_value = 41\<rparr> =
     Inr (42, \<lparr>has_table = True, rows = [new_itemdb\<lparr>db_id := Some 42\<rparr>], last_value = 42\<rparr>) \<and>
   0 < (42::int) \<and> (42::int) \<le> serial_max"
proof -
  have h1: "db_wf \<lparr>has_table = True, rows = [], last_value = 41\<rparr>"
    by (simp add: db_wf_def serial_max_def)
  have h2: "sql_insert new_itemdb \<lparr>has_table = True, rows = [], last_value = 41\<rparr> =
     Inr (42, \<lparr>has_table = True, rows = [new_itemdb\<lparr>db_id := Some 42\<rparr>], last_value = 42\<rparr>)"
    by (simp add: sql_insert_def nextval_def serial_max_def)
  from insert_key_bounds [OF h1 h2] h1 h2 show ?thesis by simp
qed

end
