(* ===== verification/Session.thy ===== *)
theory Session
  imports Storage
begin

text \<open>
  The SQLAlchemy session of one request: \<^verbatim>\<open>SessionLocal\<close> (\<^verbatim>\<open>src/main.py\<close> line 14,
  \<^verbatim>\<open>autocommit=False, autoflush=False\<close>) and the dependency \<^verbatim>\<open>get_db\<close> (lines 43--48),
  which opens a session, hands it to the handler and closes it in a \<^verbatim>\<open>finally\<close>. The
  session keeps the changes the handler registers (\<^verbatim>\<open>db.add\<close>, attribute assignment on a
  loaded object, \<^verbatim>\<open>db.delete\<close>) as pending work; queries read the committed table and,
  with autoflush off, do not see that work. \<^verbatim>\<open>db.commit()\<close> flushes it (INSERTs and
  UPDATEs before DELETEs, as the unit of work orders one mapper) and commits, or fails
  and leaves the table as it was. The UPDATE of a loaded object writes only the columns
  whose value changed since it was loaded, and none is sent when nothing changed; an
  UPDATE that matches no row makes the commit fail (StaleDataError).
  \<^verbatim>\<open>db.refresh\<close> reloads an object by its key;
  \<^verbatim>\<open>db.close()\<close> drops whatever was not committed.
\<close>

subsection \<open>State\<close>

datatype pending =
    PendingInsert itemdb
  | PendingUpdate py_int itemdb itemdb
  | PendingDelete py_int

record session =
  s_db :: db
  s_pending :: "pending list"
  s_open :: bool

fun is_insert :: "pending \<Rightarrow> bool" where
  "is_insert (PendingInsert _) = True"
| "is_insert _ = False"

fun is_delete :: "pending \<Rightarrow> bool" where
  "is_delete (PendingDelete _) = True"
| "is_delete _ = False"

subsection \<open>Operations\<close>

definition session_local :: "db \<Rightarrow> session" where
  "session_local d = \<lparr>s_db = d, s_pending = [], s_open = True\<rparr>"

text \<open>
  \<^verbatim>\<open>db.add(obj)\<close>: the result is a handle on the new object, its position among the
  pending inserts, which is where the flush reports the key it receives.
\<close>

definition sess_add :: "itemdb \<Rightarrow> session \<Rightarrow> nat \<times> session" where
  "sess_add obj s =
     (length (filter is_insert (s_pending s)), s\<lparr>s_pending := s_pending s @ [PendingInsert obj]\<rparr>)"

text \<open>
  Assigning attributes of an object loaded under key \<open>k\<close> makes it dirty; the session
  keeps the values as loaded (SQLAlchemy's committed state) beside the new ones.
\<close>

definition sess_set_dirty :: "py_int \<Rightarrow> itemdb \<Rightarrow> itemdb \<Rightarrow> session \<Rightarrow> session" where
  "sess_set_dirty k old obj s = s\<lparr>s_pending := s_pending s @ [PendingUpdate k old obj]\<rparr>"

definition sess_delete :: "py_int \<Rightarrow> session \<Rightarrow> session" where
  "sess_delete k s = s\<lparr>s_pending := s_pending s @ [PendingDelete k]\<rparr>"

text \<open>
  The columns a flush writes for a dirty object: those whose new value differs from the
  loaded one under Python's \<^verbatim>\<open>==\<close> (the column type's \<^verbatim>\<open>compare_values\<close>), so
  NaN always counts as changed.
\<close>

definition column_eq :: "py_float option \<Rightarrow> py_float option \<Rightarrow> bool" where
  "column_eq a b =
     (case (a, b) of (Some x, Some y) \<Rightarrow> py_float_eq x y | (None, None) \<Rightarrow> True | _ \<Rightarrow> False)"

definition changed_cols :: "itemdb \<Rightarrow> itemdb \<Rightarrow> col_set list" where
  "changed_cols old new =
     (if db_nome new = db_nome old then [] else [SetNome (db_nome new)]) @
     (if db_descricao new = db_descricao old then [] else [SetDescricao (db_descricao new)]) @
     (if column_eq (db_preco new) (db_preco old) then [] else [SetPreco (db_preco new)])"

text \<open>
  One unit of flushed work. A dirty object with no changed column emits no statement. An
  UPDATE that matches no row or several raises \<^verbatim>\<open>StaleDataError\<close>; a DELETE that
  matches a different number of rows only warns.
\<close>

fun flush_one :: "db \<Rightarrow> pending \<Rightarrow> db_error + py_int list \<times> db" where
  "flush_one d (PendingInsert obj) =
     (case sql_insert obj d of Inl e \<Rightarrow> Inl e | Inr (k, d') \<Rightarrow> Inr ([k], d'))"
| "flush_one d (PendingUpdate k old obj) =
     (if changed_cols old obj = [] then Inr ([], d)
      else case sql_update k (changed_cols old obj) d of
             Inl e \<Rightarrow> Inl e
           | Inr (n, d') \<Rightarrow> (if n = 1 then Inr ([], d') else Inl StaleData))"
| "flush_one d (PendingDelete k) =
     (case sql_delete k d of Inl e \<Rightarrow> Inl e | Inr (_, d') \<Rightarrow> Inr ([], d'))"

fun flush :: "db \<Rightarrow> pending list \<Rightarrow> db_error + py_int list \<times> db" where
  "flush d [] = Inr ([], d)"
| "flush d (p # ps) =
     (case flush_one d p of
        Inl e \<Rightarrow> Inl e
      | Inr (ks, d') \<Rightarrow>
          (case flush d' ps of Inl e \<Rightarrow> Inl e | Inr (ks', d'') \<Rightarrow> Inr (ks @ ks', d'')))"

definition uow_order :: "pending list \<Rightarrow> pending list" where
  "uow_order ps = filter (\<lambda>p. \<not> is_delete p) ps @ filter is_delete ps"

text \<open>
  \<^verbatim>\<open>db.commit()\<close>: the flush and the COMMIT form one transaction; on an error it is
  rolled back and the exception propagates. The result lists the keys of the inserted
  objects, in the order they were added.
\<close>

definition sess_commit :: "session \<Rightarrow> db_error + py_int list \<times> session" where
  "sess_commit s =
     (case flush (s_db s) (uow_order (s_pending s)) of
        Inl e \<Rightarrow> Inl e
      | Inr (ks, d') \<Rightarrow> Inr (ks, s\<lparr>s_db := d', s_pending := []\<rparr>))"

definition sess_query_first :: "py_int \<Rightarrow> session \<Rightarrow> db_error + itemdb option" where
  "sess_query_first k s = sql_select_id k (s_db s)"

definition sess_query_page :: "py_int \<Rightarrow> py_int \<Rightarrow> session \<Rightarrow> db_error + itemdb list" where
  "sess_query_page skip limit s = sql_select_page skip limit (s_db s)"

text \<open>
  \<^verbatim>\<open>db.refresh(obj)\<close> reloads the object by its key; a row that is gone raises
  \<^verbatim>\<open>InvalidRequestError\<close>.
\<close>

definition sess_refresh :: "py_int \<Rightarrow> session \<Rightarrow> db_error + itemdb" where
  "sess_refresh k s =
     (case sql_select_id k (s_db s) of
        Inl e \<Rightarrow> Inl e
      | Inr None \<Rightarrow> Inl RefreshMissing
      | Inr (Some r) \<Rightarrow> Inr r)"

definition sess_close :: "session \<Rightarrow> session" where
  "sess_close s = s\<lparr>s_pending := [], s_open := False\<rparr>"

text \<open>
  \<^verbatim>\<open>get_db\<close>: \<^verbatim>\<open>db = SessionLocal(); try: yield db; finally: db.close()\<close>. The
  handler runs on the open session and the session is closed whatever it returned,
  an exception included.
\<close>

definition get_db :: "(session \<Rightarrow> 'r \<times> session) \<Rightarrow> db \<Rightarrow> 'r \<times> session" where
  "get_db handler d = (case handler (session_local d) of (r, s) \<Rightarrow> (r, sess_close s))"

subsection \<open>Lemmas\<close>

lemma uow_order_single [simp]:
  "uow_order [p] = [p]"
  by (cases p) (simp_all add: uow_order_def)

lemma flush_single [simp]:
  "flush d [p] = flush_one d p"
  by (simp split: sum.split prod.split)

lemma commit_fresh_insert:
  "sess_commit (snd (sess_add obj (session_local d))) =
     (case sql_insert obj d of
        Inl e \<Rightarrow> Inl e
      | Inr (k, d') \<Rightarrow> Inr ([k], \<lparr>s_db = d', s_pending = [], s_open = True\<rparr>))"
  by (simp add: sess_commit_def sess_add_def session_local_def split: sum.split prod.split)

lemma commit_fresh_update:
  "sess_commit (sess_set_dirty k old obj (session_local d)) =
     (case flush_one d (PendingUpdate k old obj) of
        Inl e \<Rightarrow> Inl e
      | Inr (_, d') \<Rightarrow> Inr ([], \<lparr>s_db = d', s_pending = [], s_open = True\<rparr>))"
  by (simp add: sess_commit_def sess_set_dirty_def session_local_def split: sum.split prod.split)

lemma column_eq_same: "column_eq a b \<Longrightarrow> a = b"
  by (auto simp: column_eq_def py_float_eq_def split: option.splits)

lemma changed_cols_apply:
  "foldl set_col r (changed_cols old new) =
     (if db_nome new = db_nome old then r else r\<lparr>db_nome := db_nome new\<rparr>)
       \<lparr>db_descricao := (if db_descricao new = db_descricao old then db_descricao r else db_descricao new),
        db_preco := (if column_eq (db_preco new) (db_preco old) then db_preco r else db_preco new)\<rparr>"
  by (simp add: changed_cols_def)

lemma changed_cols_loaded:
  "db_id new = db_id old \<Longrightarrow> foldl set_col old (changed_cols old new) = new"
  by (cases old, cases new) (auto simp: changed_cols_apply dest: column_eq_same)

lemma changed_cols_Nil:
  "db_id new = db_id old \<Longrightarrow> changed_cols old new = [] \<Longrightarrow> new = old"
  using changed_cols_loaded [of new old] by simp

text \<open>
  The flush of an update of the object loaded as \<open>old\<close>, when the row under its key is
  now \<open>x\<close> (another request may have committed since the load): the changed columns are
  written over \<open>x\<close>.
\<close>

lemma flush_update_row:
  assumes "db_wf d" and "has_table d" and "find (\<lambda>r. db_id r = Some k) (rows d) = Some x"
  shows "flush_one d (PendingUpdate k old new) =
    Inr ([], d\<lparr>rows := map (\<lambda>y. if db_id y = Some k then foldl set_col x (changed_cols old new) else y) (rows d)\<rparr>)"
proof (cases "changed_cols old new = []")
  case True
  have "map (\<lambda>y. if db_id y = Some k then x else y) (rows d) = rows d"
    using assms(1,3) by (intro map_key_self) (simp_all add: db_wf_def)
  then have eqd: "d\<lparr>rows := map (\<lambda>y. if db_id y = Some k then x else y) (rows d)\<rparr> = d" by simp
  show ?thesis using True by (simp only: flush_one.simps True foldl_Nil simp_thms if_True) (simp only: eqd)
next
  case False
  with sql_update_hit [OF assms, of "changed_cols old new"] show ?thesis by simp
qed

text \<open>The flush of one request's update of the row it loaded: that row becomes the new one.\<close>

lemma flush_update_loaded:
  assumes "db_wf d" and "has_table d" and "find (\<lambda>r. db_id r = Some k) (rows d) = Some r"
    and "db_id new = db_id r"
  shows "flush_one d (PendingUpdate k r new) =
    Inr ([], d\<lparr>rows := map (\<lambda>x. if db_id x = Some k then new else x) (rows d)\<rparr>)"
  using flush_update_row [OF assms(1-3), of r new] changed_cols_loaded [OF assms(4)] by simp

lemma commit_fresh_delete:
  "sess_commit (sess_delete k (session_local d)) =
     (case sql_delete k d of
        Inl e \<Rightarrow> Inl e
      | Inr (_, d') \<Rightarrow> Inr ([], \<lparr>s_db = d', s_pending = [], s_open = True\<rparr>))"
  by (simp add: sess_commit_def sess_delete_def session_local_def split: sum.split prod.split)

lemma sess_add_fresh_handle [simp]:
  "fst (sess_add obj (session_local d)) = 0"
  by (simp add: sess_add_def session_local_def)

lemma get_db_closes:
  "\<not> s_open (snd (get_db h d)) \<and> s_pending (snd (get_db h d)) = [] \<and>
   s_db (snd (get_db h d)) = s_db (snd (h (session_local d)))"
  by (simp add: get_db_def sess_close_def split: prod.split)

lemma sess_close_db [simp]: "s_db (sess_close s) = s_db s"
  by (simp add: sess_close_def)

lemma session_local_db [simp]: "s_db (session_local d) = d"
  by (simp add: session_local_def)

lemma sess_refresh_found:
  "has_table (s_db s) \<Longrightarrow> find (\<lambda>r. db_id r = Some k) (rows (s_db s)) = Some r \<Longrightarrow>
     sess_refresh k s = Inr r"
  by (simp add: sess_refresh_def sql_select_id_def)

end
