(* ===== verification/Handlers.thy ===== *)
theory Handlers
  imports Session
begin

text \<open>
  The endpoints of \<^verbatim>\<open>src/main.py\<close> (lines 67--108), each a function of the request's
  arguments and the open session that returns a value or an exception and the session
  it leaves, and the FastAPI layer around them (\<open>app\<close>): request-body validation
  (422), the \<^verbatim>\<open>get_db\<close> dependency, the mapping of \<^verbatim>\<open>HTTPException\<close> to its status
  and of any other exception to 500, the validation of returned objects against
  \<^verbatim>\<open>response_model\<close>, and the rendering of every answer as JSON with
  \<^verbatim>\<open>allow_nan=False\<close>, which turns a body holding a non-finite float into a 500.
\<close>

subsection \<open>Exceptions and messages\<close>

datatype exc = HTTPException nat string | DBException db_error

text \<open>The two messages of the source, as UTF-8 bytes (a with tilde, i with acute accent).\<close>

definition not_found_detail :: string where
  "not_found_detail = ''Item n'' @ [CHR 0xC3, CHR 0xA3] @ ''o encontrado''"

definition deleted_message :: string where
  "deleted_message = ''Item exclu'' @ [CHR 0xC3, CHR 0xAD] @ ''do com sucesso!''"

subsection \<open>The endpoints\<close>

text \<open>\<^verbatim>\<open>POST /items/\<close>: \<^verbatim>\<open>create_item\<close>, lines 67--73.\<close>

definition create_item :: "item_create \<Rightarrow> session \<Rightarrow> (exc + itemdb) \<times> session" where
  "create_item item s =
     (let db_item = itemdb_kwargs (item_dict item);
          (h, s1) = sess_add db_item s
      in case sess_commit s1 of
           Inl e \<Rightarrow> (Inl (DBException e), s1)
         | Inr (ks, s2) \<Rightarrow>
             (case sess_refresh (ks ! h) s2 of
                Inl e \<Rightarrow> (Inl (DBException e), s2)
              | Inr obj \<Rightarrow> (Inr obj, s2)))"

text \<open>\<^verbatim>\<open>GET /items/\<close>: \<^verbatim>\<open>read_items\<close>, lines 75--78.\<close>

definition read_items :: "py_int \<Rightarrow> py_int \<Rightarrow> session \<Rightarrow> (exc + itemdb list) \<times> session" where
  "read_items skip limit s =
     (case sess_query_page skip limit s of
        Inl e \<Rightarrow> (Inl (DBException e), s)
      | Inr items \<Rightarrow> (Inr items, s))"

text \<open>\<^verbatim>\<open>GET /items/{item_id}\<close>: \<^verbatim>\<open>read_item\<close>, lines 80--85.\<close>

definition read_item :: "py_int \<Rightarrow> session \<Rightarrow> (exc + itemdb) \<times> session" where
  "read_item iid s =
     (case sess_query_first iid s of
        Inl e \<Rightarrow> (Inl (DBException e), s)
      | Inr None \<Rightarrow> (Inl (HTTPException 404 not_found_detail), s)
      | Inr (Some item) \<Rightarrow> (Inr item, s))"

text \<open>\<^verbatim>\<open>PUT /items/{item_id}\<close>: \<^verbatim>\<open>update_item\<close>, lines 87--98.\<close>

definition update_item :: "py_int \<Rightarrow> item_create \<Rightarrow> session \<Rightarrow> (exc + itemdb) \<times> session" where
  "update_item iid item s =
     (case sess_query_first iid s of
        Inl e \<Rightarrow> (Inl (DBException e), s)
      | Inr None \<Rightarrow> (Inl (HTTPException 404 not_found_detail), s)
      | Inr (Some db_item) \<Rightarrow>
          (let db_item' = foldl setattr_itemdb db_item (item_dict item);
               s1 = sess_set_dirty iid db_item db_item' s
           in case sess_commit s1 of
                Inl e \<Rightarrow> (Inl (DBException e), s1)
              | Inr (_, s2) \<Rightarrow>
                  (case sess_refresh iid s2 of
                     Inl e \<Rightarrow> (Inl (DBException e), s2)
                   | Inr obj \<Rightarrow> (Inr obj, s2))))"

text \<open>\<^verbatim>\<open>DELETE /items/{item_id}\<close>: \<^verbatim>\<open>delete_item\<close>, lines 100--108.\<close>

definition delete_item :: "py_int \<Rightarrow> session \<Rightarrow> (exc + string) \<times> session" where
  "delete_item iid s =
     (case sess_query_first iid s of
        Inl e \<Rightarrow> (Inl (DBException e), s)
      | Inr None \<Rightarrow> (Inl (HTTPException 404 not_found_detail), s)
      | Inr (Some db_item) \<Rightarrow>
          (let s1 = sess_delete iid s
           in case sess_commit s1 of
                Inl e \<Rightarrow> (Inl (DBException e), s1)
              | Inr (_, s2) \<Rightarrow> (Inr deleted_message, s2)))"

subsection \<open>Requests and responses\<close>

text \<open>
  A request after routing: the body of POST and PUT as decoded JSON (\<open>None\<close> when
  absent), the query parameters of the list (\<open>None\<close> when absent, then their defaults 0
  and 100 apply), the path parameter as a Python \<^verbatim>\<open>int\<close>.
\<close>

datatype request =
    CreateReq "pyval option"
  | ListReq "py_int option" "py_int option"
  | GetReq py_int
  | UpdateReq py_int "pyval option"
  | DeleteReq py_int

datatype response = Response nat pyval

fun status :: "response \<Rightarrow> nat" where
  "status (Response c _) = c"

definition internal_error :: response where
  "internal_error = Response 500 (PStr ''Internal Server Error'')"

definition exc_response :: "exc \<Rightarrow> response" where
  "exc_response e =
     (case e of
        HTTPException c detail \<Rightarrow> Response c (PDict [(''detail'', PStr detail)])
      | DBException _ \<Rightarrow> internal_error)"

fun verr_type :: "verr_kind \<Rightarrow> string" where
  "verr_type Missing = ''missing''"
| "verr_type StringType = ''string_type''"
| "verr_type FloatType = ''float_type''"
| "verr_type FloatParsing = ''float_parsing''"
| "verr_type IntType = ''int_type''"
| "verr_type IntParsing = ''int_parsing''"
| "verr_type ModelType = ''model_type''"

definition verr_json :: "verr \<Rightarrow> pyval" where
  "verr_json e = PDict [(''type'', PStr (verr_type (snd e))), (''loc'', PList (map PStr (fst e)))]"

definition validation_response :: "verr list \<Rightarrow> response" where
  "validation_response errs = Response 422 (PDict [(''detail'', PList (map verr_json errs))])"

text \<open>
  FastAPI's handler of a \<^verbatim>\<open>RequestValidationError\<close> answers 422 with the list of errors,
  each carrying its \<^verbatim>\<open>input\<close>: the whole body for a missing field or a body of the wrong
  kind, the field's value otherwise, the string for a path or query parameter. The
  modelled body leaves the input out, but it decides whether the answer can be rendered:
  a non-finite float in an input makes \<^verbatim>\<open>JSONResponse\<close> fail, and the client gets 500.
\<close>

definition err_renders :: "pyval option \<Rightarrow> verr \<Rightarrow> bool" where
  "err_renders body e =
     (case body of
        None \<Rightarrow> True
      | Some v \<Rightarrow>
          (if fst e = [''body''] then json_ok v
           else if take 1 (fst e) = [''body''] then
             (case v of
                PDict kv \<Rightarrow>
                  (if snd e = Missing then json_ok v
                   else case map_of kv (last (fst e)) of Some w \<Rightarrow> json_ok w | None \<Rightarrow> True)
              | _ \<Rightarrow> True)
           else True))"

definition validation_answer :: "pyval option \<Rightarrow> verr list \<Rightarrow> response" where
  "validation_answer body errs =
     (if list_all (err_renders body) errs then validation_response errs else internal_error)"

text \<open>
  A JSON answer as \<^verbatim>\<open>JSONResponse\<close> renders it (\<^verbatim>\<open>allow_nan=False\<close>): a body with a
  non-finite float raises \<^verbatim>\<open>ValueError\<close> after the handler has returned, and the client
  gets 500; whatever the handler committed stays committed.
\<close>

definition json_answer :: "nat \<Rightarrow> pyval \<Rightarrow> response" where
  "json_answer c v = (if json_ok v then Response c v else internal_error)"

text \<open>
  \<^verbatim>\<open>response_model=Item\<close>: an object that does not validate is a server error; one that
  does is serialised in JSON mode, which keeps \<^verbatim>\<open>inf\<close> and \<^verbatim>\<open>nan\<close> as floats, and rendered.
\<close>

definition item_response :: "itemdb \<Rightarrow> response" where
  "item_response obj =
     (case item_of_orm obj of Inl _ \<Rightarrow> internal_error | Inr it \<Rightarrow> json_answer 200 (item_json it))"

fun all_items :: "itemdb list \<Rightarrow> item list option" where
  "all_items [] = Some []"
| "all_items (obj # objs) =
     (case item_of_orm obj of
        Inl _ \<Rightarrow> None
      | Inr it \<Rightarrow> map_option (Cons it) (all_items objs))"

definition items_response :: "itemdb list \<Rightarrow> response" where
  "items_response objs =
     (case all_items objs of
        None \<Rightarrow> internal_error
      | Some its \<Rightarrow> json_answer 200 (PList (map item_json its)))"

definition message_response :: "string \<Rightarrow> response" where
  "message_response m = Response 200 (PDict [(''message'', PStr m)])"

text \<open>
  The end of a request: the exception or the value becomes the response, and the
  database is what the closed session leaves committed.
\<close>

definition finish :: "('a \<Rightarrow> response) \<Rightarrow> (exc + 'a) \<times> session \<Rightarrow> response \<times> db" where
  "finish f rs =
     (case rs of (r, s) \<Rightarrow> ((case r of Inl e \<Rightarrow> exc_response e | Inr v \<Rightarrow> f v), s_db s))"

definition app :: "(string \<Rightarrow> py_float option) \<Rightarrow> request \<Rightarrow> db \<Rightarrow> response \<times> db" where
  "app str_float req d =
     (case req of
        CreateReq body \<Rightarrow>
          (case validate_item_create str_float body of
             Inl errs \<Rightarrow> (validation_answer body errs, d)
           | Inr item \<Rightarrow> finish item_response (get_db (create_item item) d))
      | ListReq skip limit \<Rightarrow>
          finish items_response
            (get_db (read_items (case skip of None \<Rightarrow> 0 | Some n \<Rightarrow> n)
                                (case limit of None \<Rightarrow> 100 | Some n \<Rightarrow> n)) d)
      | GetReq iid \<Rightarrow> finish item_response (get_db (read_item iid) d)
      | UpdateReq iid body \<Rightarrow>
          (case validate_item_create str_float body of
             Inl errs \<Rightarrow> (validation_answer body errs, d)
           | Inr item \<Rightarrow> finish item_response (get_db (update_item iid item) d))
      | DeleteReq iid \<Rightarrow> finish message_response (get_db (delete_item iid) d))"

text \<open>
  Requests whose validated price is finite, and bodies whose numbers are all finite: the
  hypotheses under which the answers are the ones the specification describes.
\<close>

definition finite_price :: "(string \<Rightarrow> py_float option) \<Rightarrow> pyval option \<Rightarrow> bool" where
  "finite_price sf b \<longleftrightarrow> (case validate_item_create sf b of Inr v \<Rightarrow> is_finite (preco v) | Inl _ \<Rightarrow> True)"

fun req_finite :: "(string \<Rightarrow> py_float option) \<Rightarrow> request \<Rightarrow> bool" where
  "req_finite sf (CreateReq b) = finite_price sf b"
| "req_finite sf (UpdateReq _ b) = finite_price sf b"
| "req_finite sf _ = True"

definition body_json_ok :: "pyval option \<Rightarrow> bool" where
  "body_json_ok b \<longleftrightarrow> (case b of None \<Rightarrow> True | Some v \<Rightarrow> json_ok v)"

subsection \<open>Each endpoint on a fresh session\<close>

lemma create_item_run:
  assumes "db_wf d" and "sql_insert (itemdb_kwargs (item_dict v)) d = Inr (k, d')"
  shows "create_item v (session_local d) =
    (Inr ((itemdb_kwargs (item_dict v))\<lparr>db_id := Some k\<rparr>), \<lparr>s_db = d', s_pending = [], s_open = True\<rparr>)"
proof -
  have sel: "sql_select_id k d' = Inr (Some ((itemdb_kwargs (item_dict v))\<lparr>db_id := Some k\<rparr>))"
    using sql_insert_select [OF assms, of k] by simp
  show ?thesis
    using assms(2) sel
    by (simp add: create_item_def sess_add_def session_local_def sess_commit_def sess_refresh_def)
qed

lemma create_item_fail:
  assumes "sql_insert (itemdb_kwargs (item_dict v)) d = Inl e"
  shows "fst (create_item v (session_local d)) = Inl (DBException e) \<and>
         s_db (snd (create_item v (session_local d))) = d"
  using assms by (simp add: create_item_def sess_add_def session_local_def sess_commit_def)

lemma read_item_run:
  "has_table d \<Longrightarrow> read_item k (session_local d) =
     ((case find (\<lambda>r. db_id r = Some k) (rows d) of
         None \<Rightarrow> Inl (HTTPException 404 not_found_detail)
       | Some r \<Rightarrow> Inr r), session_local d)"
  by (simp add: read_item_def sess_query_first_def sql_select_id_def split: option.split)

lemma update_item_miss:
  "has_table d \<Longrightarrow> find (\<lambda>r. db_id r = Some k) (rows d) = None \<Longrightarrow>
     update_item k v (session_local d) = (Inl (HTTPException 404 not_found_detail), session_local d)"
  by (simp add: update_item_def sess_query_first_def sql_select_id_def)

lemma update_item_run:
  fixes v :: item_create
  assumes "db_wf d" and "has_table d" and hit: "find (\<lambda>r. db_id r = Some k) (rows d) = Some r"
  defines "r' \<equiv> r\<lparr>db_nome := Some (nome v), db_descricao := descricao v, db_preco := Some (preco v)\<rparr>"
  shows "update_item k v (session_local d) =
    (Inr r', \<lparr>s_db = d\<lparr>rows := map (\<lambda>x. if db_id x = Some k then r' else x) (rows d)\<rparr>,
              s_pending = [], s_open = True\<rparr>)"
proof -
  have rid: "db_id r = Some k" using find_key_Some [OF hit] by simp
  have new: "foldl setattr_itemdb r (item_dict v) = r'" by (simp add: setattr_item_dict r'_def)
  have fl: "flush_one d (PendingUpdate k r r') =
      Inr ([], d\<lparr>rows := map (\<lambda>x. if db_id x = Some k then r' else x) (rows d)\<rparr>)"
    using flush_update_loaded [OF assms(1,2) hit, of r'] by (simp add: r'_def)
  have reread: "find (\<lambda>x. db_id x = Some k) (map (\<lambda>x. if db_id x = Some k then r' else x) (rows d)) =
      Some r'"
    using select_after_update [of r' k k "rows d"] hit rid by (simp add: r'_def)
  show ?thesis
    using assms(2) hit fl reread new
    by (simp add: update_item_def sess_query_first_def sql_select_id_def sess_set_dirty_def
        session_local_def sess_commit_def sess_refresh_def)
qed

lemma delete_item_miss:
  "has_table d \<Longrightarrow> find (\<lambda>r. db_id r = Some k) (rows d) = None \<Longrightarrow>
     delete_item k (session_local d) = (Inl (HTTPException 404 not_found_detail), session_local d)"
  by (simp add: delete_item_def sess_query_first_def sql_select_id_def)

lemma delete_item_run:
  "has_table d \<Longrightarrow> find (\<lambda>r. db_id r = Some k) (rows d) = Some r \<Longrightarrow>
     delete_item k (session_local d) =
       (Inr deleted_message, \<lparr>s_db = d\<lparr>rows := filter (\<lambda>x. db_id x \<noteq> Some k) (rows d)\<rparr>,
                              s_pending = [], s_open = True\<rparr>)"
  by (simp add: delete_item_def sess_query_first_def sql_select_id_def sess_delete_def
      session_local_def sess_commit_def sql_delete_Inr)

lemma read_items_run:
  "read_items skip limit (session_local d) =
     ((case sql_select_page skip limit d of Inl e \<Rightarrow> Inl (DBException e) | Inr xs \<Rightarrow> Inr xs),
      session_local d)"
  by (simp add: read_items_def sess_query_page_def split: sum.split)

subsection \<open>The application, request by request\<close>

lemma finish_get_db:
  "finish f (get_db h d) =
     (case h (session_local d) of (r, s) \<Rightarrow> ((case r of Inl e \<Rightarrow> exc_response e | Inr v \<Rightarrow> f v), s_db s))"
  by (simp add: finish_def get_db_def split: prod.split)

lemma wf_item_of_orm:
  "db_wf d \<Longrightarrow> r \<in> set (rows d) \<Longrightarrow> \<exists>it. item_of_orm r = Inr it"
  by (auto simp: item_of_orm_Inr_iff db_wf_def list_all_iff row_ok_def split: option.splits)

lemma all_items_iff:
  "all_items xs = Some its \<longleftrightarrow> list_all2 (\<lambda>r it. item_of_orm r = Inr it) xs its"
proof (induction xs arbitrary: its)
  case Nil
  then show ?case by auto
next
  case (Cons x xs)
  then show ?case
    by (cases its) (auto split: sum.splits)
qed

lemma all_items_wf:
  assumes "db_wf d" and "set xs \<subseteq> set (rows d)"
  shows "\<exists>its. all_items xs = Some its"
  using assms(2)
proof (induction xs)
  case Nil
  then show ?case by simp
next
  case (Cons x xs)
  then obtain its where "all_items xs = Some its" by auto
  moreover obtain it where "item_of_orm x = Inr it"
    using wf_item_of_orm [OF assms(1)] Cons.prems by auto
  ultimately show ?case by simp
qed

lemma app_create_ok:
  assumes "db_wf d" and "has_table d" and "last_value d < serial_max"
    and "validate_item_create sf body = Inr v"
  shows "app sf (CreateReq body) d =
    (json_answer 200 (item_json \<lparr>nome = nome v, descricao = descricao v, preco = preco v,
                                 item_id = last_value d + 1\<rparr>),
     d\<lparr>last_value := last_value d + 1,
       rows := rows d @ [\<lparr>db_id = Some (last_value d + 1), db_nome = Some (nome v),
                          db_descricao = descricao v, db_preco = Some (preco v)\<rparr>]\<rparr>)"
proof -
  let ?k = "last_value d + 1"
  let ?obj = "itemdb_kwargs (item_dict v)"
  have ins: "sql_insert ?obj d = Inr (?k, d\<lparr>last_value := ?k, rows := rows d @ [?obj\<lparr>db_id := Some ?k\<rparr>]\<rparr>)"
    using assms(2,3) by (simp add: sql_insert_Inr)
  show ?thesis
    using assms(4) create_item_run [OF assms(1) ins]
    by (simp add: app_def finish_get_db item_response_def kwargs_item_dict item_of_orm_Some)
qed

lemma app_create_db_error:
  assumes "validate_item_create sf body = Inr v"
    and "\<not> has_table d \<or> serial_max \<le> last_value d"
  shows "app sf (CreateReq body) d = (internal_error, d)"
proof -
  obtain e where "sql_insert (itemdb_kwargs (item_dict v)) d = Inl e"
    using assms(2) by (auto simp: sql_insert_Inl)
  from create_item_fail [OF this] obtain s where
    run: "create_item v (session_local d) = (Inl (DBException e), s)" and "s_db s = d"
    by (metis prod.collapse)
  with assms(1) show ?thesis
    by (simp add: app_def finish_get_db exc_response_def)
qed

lemma app_invalid_body:
  "validate_item_create sf body = Inl errs \<Longrightarrow>
     app sf (CreateReq body) d = (validation_answer body errs, d) \<and>
     app sf (UpdateReq k body) d = (validation_answer body errs, d)"
  by (simp add: app_def)

lemma validation_answer_status: "status (validation_answer b errs) \<in> {422, 500}"
  by (simp add: validation_answer_def validation_response_def internal_error_def)

lemma json_ok_field: "json_ok (PDict kv) \<Longrightarrow> map_of kv f = Some w \<Longrightarrow> json_ok w"
  by (induction kv) (auto split: if_splits)

lemma err_renders_ok:
  assumes "body_json_ok b"
  shows "err_renders b e"
proof (cases b)
  case None
  then show ?thesis by (simp add: err_renders_def)
next
  case (Some v)
  with assms have v: "json_ok v" by (simp add: body_json_ok_def)
  show ?thesis
  proof (cases v)
    case (PDict kv)
    with v have kv: "json_ok (PDict kv)" by simp
    with Some PDict show ?thesis by (auto simp: err_renders_def dest: json_ok_field [OF kv] split: option.split)
  qed (use v Some in \<open>simp_all add: err_renders_def\<close>)
qed

lemma validation_answer_ok:
  "body_json_ok b \<Longrightarrow> validation_answer b errs = validation_response errs"
  by (simp add: validation_answer_def list_all_iff err_renders_ok)

text \<open>Errors of path and query parameters carry a string as input: they always render.\<close>

lemma validation_answer_params:
  "list_all (\<lambda>e. take 1 (fst e) \<noteq> [''body'']) errs \<Longrightarrow> validation_answer b errs = validation_response errs"
  by (auto simp: validation_answer_def err_renders_def list_all_iff split: option.split)

lemma json_answer_item:
  "json_answer 200 (item_json it) = (if is_finite (preco it) then Response 200 (item_json it) else internal_error)"
  by (simp add: json_answer_def)

lemma json_answer_status: "status (json_answer c v) = c \<or> status (json_answer c v) = 500"
  by (simp add: json_answer_def internal_error_def)

lemma app_get:
  assumes "has_table d"
  shows "app sf (GetReq k) d =
    ((case find (\<lambda>r. db_id r = Some k) (rows d) of
        None \<Rightarrow> Response 404 (PDict [(''detail'', PStr not_found_detail)])
      | Some r \<Rightarrow> item_response r), d)"
  using assms
  by (simp add: app_def finish_get_db read_item_run exc_response_def split: option.split)

lemma app_update:
  assumes "db_wf d" and "has_table d" and "validate_item_create sf body = Inr v"
  shows "app sf (UpdateReq k body) d =
    (case find (\<lambda>r. db_id r = Some k) (rows d) of
       None \<Rightarrow> (Response 404 (PDict [(''detail'', PStr not_found_detail)]), d)
     | Some r \<Rightarrow>
         (json_answer 200 (item_json \<lparr>nome = nome v, descricao = descricao v, preco = preco v, item_id = k\<rparr>),
          d\<lparr>rows := map (\<lambda>x. if db_id x = Some k
                               then r\<lparr>db_nome := Some (nome v), db_descricao := descricao v,
                                      db_preco := Some (preco v)\<rparr>
                               else x) (rows d)\<rparr>))"
proof (cases "find (\<lambda>r. db_id r = Some k) (rows d)")
  case None
  with assms show ?thesis
    by (simp add: app_def finish_get_db update_item_miss exc_response_def)
next
  case (Some r)
  then have "db_id r = Some k" by (auto dest: find_key_Some)
  with Some assms show ?thesis
    by (cases r) (simp add: app_def finish_get_db update_item_run item_response_def item_of_orm_def)
qed

lemma app_delete:
  assumes "has_table d"
  shows "app sf (DeleteReq k) d =
    (case find (\<lambda>r. db_id r = Some k) (rows d) of
       None \<Rightarrow> (Response 404 (PDict [(''detail'', PStr not_found_detail)]), d)
     | Some r \<Rightarrow> (Response 200 (PDict [(''message'', PStr deleted_message)]),
                 d\<lparr>rows := filter (\<lambda>x. db_id x \<noteq> Some k) (rows d)\<rparr>))"
  using assms
  by (simp add: app_def finish_get_db delete_item_miss delete_item_run exc_response_def
      message_response_def split: option.split)

lemma app_list:
  "app sf (ListReq skip limit) d =
     (let s = (case skip of None \<Rightarrow> 0 | Some n \<Rightarrow> n); l = (case limit of None \<Rightarrow> 100 | Some n \<Rightarrow> n)
      in (case sql_select_page s l d of Inl e \<Rightarrow> internal_error | Inr xs \<Rightarrow> items_response xs), d)"
  by (simp add: app_def finish_get_db read_items_run exc_response_def split: sum.split)

lemma app_no_table:
  assumes "\<not> has_table d"
  shows "snd (app sf req d) = d \<and> status (fst (app sf req d)) \<in> {422, 500}"
proof (cases req)
  case (CreateReq body)
  then show ?thesis
    using assms app_create_db_error [of sf body _ d] validation_answer_status [of body]
    by (cases "validate_item_create sf body") (auto simp: app_def internal_error_def)
next
  case (ListReq skip limit)
  then show ?thesis
    using assms by (simp add: app_list sql_select_page_def internal_error_def Let_def)
next
  case (GetReq k)
  then show ?thesis
    using assms
    by (simp add: app_def finish_get_db read_item_def sess_query_first_def sql_select_id_def
        exc_response_def internal_error_def)
next
  case (UpdateReq k body)
  then show ?thesis
    using assms validation_answer_status [of body]
    by (cases "validate_item_create sf body")
       (auto simp: app_def finish_get_db update_item_def sess_query_first_def sql_select_id_def
        exc_response_def internal_error_def)
next
  case (DeleteReq k)
  then show ?thesis
    using assms
    by (simp add: app_def finish_get_db delete_item_def sess_query_first_def sql_select_id_def
        exc_response_def internal_error_def)
qed

lemma finite_price_Inr: "validate_item_create sf b = Inr v \<Longrightarrow> finite_price sf b = is_finite (preco v)"
  by (simp add: finite_price_def)

text \<open>
  The effect of one request on a well-formed database: either nothing changes, or the
  request succeeded with status 200 or carried a non-finite price (then it answers 500
  after its commit), the result is well-formed again, the table is still
  there, the sequence did not go back, and the only key that can be new is the next
  value of the sequence.
\<close>

lemma app_effect:
  assumes wf: "db_wf d" and run: "app sf req d = (resp, d')"
  shows "d' = d \<or> ((status resp = 200 \<or> \<not> req_finite sf req) \<and> db_wf d' \<and> has_table d' \<and> last_value d \<le> last_value d' \<and>
                     db_id ` set (rows d') \<subseteq> insert (Some (last_value d + 1)) (db_id ` set (rows d)))"
proof (cases "has_table d")
  case False
  with run show ?thesis using app_no_table [OF False, of sf req] by simp
next
  case True
  show ?thesis
  proof (cases req)
    case (CreateReq body)
    show ?thesis
    proof (cases "validate_item_create sf body")
      case (Inl errs)
      with run CreateReq show ?thesis by (simp add: app_def)
    next
      case (Inr v)
      show ?thesis
      proof (cases "last_value d < serial_max")
        case lt: True
        let ?k = "last_value d + 1"
        have "sql_insert (itemdb_kwargs (item_dict v)) d =
            Inr (?k, d\<lparr>last_value := ?k, rows := rows d @ [(itemdb_kwargs (item_dict v))\<lparr>db_id := Some ?k\<rparr>]\<rparr>)"
          using True lt by (simp add: sql_insert_Inr)
        from sql_insert_wf [OF wf this] have "db_wf (d\<lparr>last_value := ?k,
            rows := rows d @ [(itemdb_kwargs (item_dict v))\<lparr>db_id := Some ?k\<rparr>]\<rparr>)"
          by (simp add: kwargs_item_dict)
        with run CreateReq app_create_ok [OF wf True lt Inr] True finite_price_Inr [OF Inr] show ?thesis
          by (auto simp: kwargs_item_dict json_answer_item)
      next
        case False
        with run CreateReq app_create_db_error [OF Inr] show ?thesis by simp
      qed
    qed
  next
    case (ListReq skip limit)
    with run show ?thesis by (simp add: app_list Let_def)
  next
    case (GetReq k)
    with run True show ?thesis by (simp add: app_get)
  next
    case (UpdateReq k body)
    show ?thesis
    proof (cases "validate_item_create sf body")
      case (Inl errs)
      with run UpdateReq show ?thesis by (simp add: app_def)
    next
      case (Inr v)
      show ?thesis
      proof (cases "find (\<lambda>r. db_id r = Some k) (rows d)")
        case None
        with run UpdateReq app_update [OF wf True Inr] show ?thesis by simp
      next
        case (Some r)
        then have "db_id r = Some k" by (auto dest: find_key_Some)
        let ?r' = "r\<lparr>db_nome := Some (nome v), db_descricao := descricao v, db_preco := Some (preco v)\<rparr>"
        from \<open>db_id r = Some k\<close> have "db_wf (d\<lparr>rows := map (\<lambda>x. if db_id x = Some k then ?r' else x) (rows d)\<rparr>)"
          by (intro update_rows_wf [OF wf]) simp_all
        moreover from \<open>db_id r = Some k\<close>
        have "map db_id (map (\<lambda>x. if db_id x = Some k then ?r' else x) (rows d)) = map db_id (rows d)"
          by (intro map_key_keys) simp
        then have "db_id ` set (map (\<lambda>x. if db_id x = Some k then ?r' else x) (rows d)) = db_id ` set (rows d)"
          by (metis list.set_map)
        ultimately show ?thesis using run UpdateReq Some app_update [OF wf True Inr] True finite_price_Inr [OF Inr]
          by (auto simp: json_answer_item)
      qed
    qed
  next
    case (DeleteReq k)
    with run True delete_rows_wf [OF wf, of k] show ?thesis
      by (auto simp: app_delete split: option.splits)
  qed
qed

lemma all_items_finite:
  assumes "prices_finite d" and "set xs \<subseteq> set (rows d)" and "all_items xs = Some its"
  shows "list_all (\<lambda>it. is_finite (preco it)) its"
proof -
  have rel: "list_all2 (\<lambda>r it. item_of_orm r = Inr it) xs its" using assms(3) by (simp add: all_items_iff)
  show ?thesis unfolding list_all_iff
  proof
    fix it assume "it \<in> set its"
    then obtain r where "r \<in> set xs" "item_of_orm r = Inr it" using list_all2_in_set2 [OF rel] by blast
    then have "r \<in> set (rows d)" "db_preco r = Some (preco it)" using assms(2) item_of_orm_fields [of r it] by auto
    with assms(1) show "is_finite (preco it)" by (force simp: prices_finite_def list_all_iff)
  qed
qed

lemma app_list_page:
  assumes "db_wf d" and "has_table d" and "0 \<le> s" and "0 \<le> l" and "in_bigint s" and "in_bigint l"
    and "prices_finite d"
  shows "\<exists>its. app sf (ListReq (Some s) (Some l)) d = (Response 200 (PList (map item_json its)), d) \<and>
     list_all2 (\<lambda>r it. item_of_orm r = Inr it) (take (nat l) (drop (nat s) (rows d))) its \<and>
     length its = min (nat l) (length (rows d) - nat s)"
proof -
  have page: "sql_select_page s l d = Inr (take (nat l) (drop (nat s) (rows d)))"
    using assms(2-6) by (rule sql_select_page_Inr)
  obtain its where its: "all_items (take (nat l) (drop (nat s) (rows d))) = Some its"
    using all_items_wf [OF assms(1) slice_subset] by blast
  then have rel: "list_all2 (\<lambda>r it. item_of_orm r = Inr it) (take (nat l) (drop (nat s) (rows d))) its"
    by (simp add: all_items_iff)
  then have "length its = min (nat l) (length (rows d) - nat s)"
    by (simp add: list_all2_lengthD [OF rel, symmetric])
  moreover have "list_all (\<lambda>it. is_finite (preco it)) its"
    using all_items_finite [OF assms(7) slice_subset its] .
  ultimately show ?thesis using page its rel
    by (auto simp: app_list items_response_def json_answer_def json_ok_items)
qed

lemma handlers_raise_404:
  "fst (read_item k s) = Inl (HTTPException c m) \<Longrightarrow> c = 404"
  "fst (update_item k v s) = Inl (HTTPException c m) \<Longrightarrow> c = 404"
  "fst (delete_item k s) = Inl (HTTPException c m) \<Longrightarrow> c = 404"
  "fst (create_item v s) \<noteq> Inl (HTTPException c m)"
  "fst (read_items a b s) \<noteq> Inl (HTTPException c m)"
  by (auto simp: read_item_def update_item_def delete_item_def create_item_def read_items_def Let_def
      split: sum.splits option.splits prod.splits)

lemmas witness_defs = db_wf_def row_ok_def serial_max_def create_all_def empty_db_def in_bigint_def
  validate_item_create_def required_def validate_str_def validate_float_def validate_opt_str_def

subsection \<open>Properties of the endpoints\<close>



text \<open>
  C4. Every request keeps the table well-formed: keys unique, each handed out by the
  sequence, the sequence within the 32-bit range, NOT NULL in fact for \<^verbatim>\<open>nome\<close> and
  \<^verbatim>\<open>preco\<close>.
\<close>

theorem app_preserves_wf:
  assumes "db_wf d" and "app sf req d = (resp, d')"
  shows "db_wf d'"
  using app_effect [OF assms] assms(1) by auto

theorem app_preserves_wf_witness:
  "db_wf (create_all empty_db) \<and>
   app (\<lambda>_. None) (DeleteReq 7) (create_all empty_db) =
     (Response 404 (PDict [(''detail'', PStr not_found_detail)]), create_all empty_db) \<and>
   db_wf (create_all empty_db)"
proof -
  have h1: "db_wf (create_all empty_db)" by (simp add: witness_defs)
  have h2: "app (\<lambda>_. None) (DeleteReq 7) (create_all empty_db) =
      (Response 404 (PDict [(''detail'', PStr not_found_detail)]), create_all empty_db)"
    by (simp add: app_delete witness_defs)
  show ?thesis using app_preserves_wf [OF h1 h2] h1 h2 by simp
qed

text \<open>
  C6. A request on a well-formed database whose price, if it has one, is finite and that
  does not answer 200 leaves the database as it was: validation errors, 404s and server
  errors have no effect, because nothing reaches \<^verbatim>\<open>db.commit()\<close> or the commit fails as
  a whole. (A non-finite price is the exception: see \<open>nonfinite_price_commits_500\<close>.)
\<close>

theorem error_leaves_db_unchanged:
  assumes "db_wf d" and "app sf req d = (resp, d')" and "status resp \<noteq> 200" and "req_finite sf req"
  shows "d' = d"
  using app_effect [OF assms(1,2)] assms(3,4) by auto

theorem error_leaves_db_unchanged_witness:
  "db_wf (create_all empty_db) \<and>
   app (\<lambda>_. None) (CreateReq None) (create_all empty_db) =
     (validation_response [([''body''], Missing)], create_all empty_db) \<and>
   status (validation_response [([''body''], Missing)]) \<noteq> 200 \<and> req_finite (\<lambda>_. None) (CreateReq None)"
proof -
  have h1: "db_wf (create_all empty_db)" by (simp add: witness_defs)
  have h2: "app (\<lambda>_. None) (CreateReq None) (create_all empty_db) =
      (validation_response [([''body''], Missing)], create_all empty_db)"
    by (simp add: app_def validate_item_create_def validation_answer_def err_renders_def)
  have h3: "status (validation_response [([''body''], Missing)]) \<noteq> 200"
    by (simp add: validation_response_def)
  have h4: "req_finite (\<lambda>_. None) (CreateReq None)"
    by (simp add: finite_price_def validate_item_create_def)
  from error_leaves_db_unchanged [OF h1 h2 h3 h4] h1 h2 h3 h4 show ?thesis by simp
qed

text \<open>
  C18. GET of an id that no row has answers 404 with the detail message of the source
  (\<open>not_found_detail\<close>) and changes nothing.
\<close>

theorem get_missing_404:
  assumes "has_table d" and "Some k \<notin> db_id ` set (rows d)"
  shows "app sf (GetReq k) d = (Response 404 (PDict [(''detail'', PStr not_found_detail)]), d)"
proof -
  from assms(2) have "find (\<lambda>r. db_id r = Some k) (rows d) = None"
    by (simp add: find_key_None_iff)
  with assms(1) show ?thesis by (simp add: app_get)
qed

theorem get_missing_404_witness:
  "has_table (create_all empty_db) \<and> Some 999999 \<notin> db_id ` set (rows (create_all empty_db)) \<and>
   app (\<lambda>_. None) (GetReq 999999) (create_all empty_db) =
     (Response 404 (PDict [(''detail'', PStr not_found_detail)]), create_all empty_db)"
proof -
  have h1: "has_table (create_all empty_db)" and h2: "Some 999999 \<notin> db_id ` set (rows (create_all empty_db))"
    by (simp_all add: witness_defs)
  show ?thesis using get_missing_404 [OF h1 h2] h1 h2 by simp
qed

text \<open>
  C19. PUT of an id that no row has answers 404 and inserts nothing: the database is
  unchanged, whatever valid body was sent.
\<close>

theorem update_missing_no_insert:
  assumes "db_wf d" and "has_table d" and "Some k \<notin> db_id ` set (rows d)"
    and "validate_item_create sf body = Inr v"
  shows "app sf (UpdateReq k body) d = (Response 404 (PDict [(''detail'', PStr not_found_detail)]), d)"
proof -
  from assms(3) have "find (\<lambda>r. db_id r = Some k) (rows d) = None"
    by (simp add: find_key_None_iff)
  with app_update [OF assms(1,2,4)] show ?thesis by simp
qed

theorem update_missing_no_insert_witness:
  "db_wf (create_all empty_db) \<and> has_table (create_all empty_db) \<and>
   Some 5 \<notin> db_id ` set (rows (create_all empty_db)) \<and>
   validate_item_create (\<lambda>_. None) (Some (PDict [(''nome'', PStr ''Pen''), (''preco'', PInt 2)])) =
     Inr \<lparr>nome = ''Pen'', descricao = None, preco = Fin 2\<rparr> \<and>
   app (\<lambda>_. None) (UpdateReq 5 (Some (PDict [(''nome'', PStr ''Pen''), (''preco'', PInt 2)])))
       (create_all empty_db) =
     (Response 404 (PDict [(''detail'', PStr not_found_detail)]), create_all empty_db)"
proof -
  have h1: "db_wf (create_all empty_db)" and h2: "has_table (create_all empty_db)"
    and h3: "Some 5 \<notin> db_id ` set (rows (create_all empty_db))"
    and h4: "validate_item_create (\<lambda>_. None) (Some (PDict [(''nome'', PStr ''Pen''), (''preco'', PInt 2)])) =
      Inr \<lparr>nome = ''Pen'', descricao = None, preco = Fin 2\<rparr>"
    by (simp_all add: witness_defs)
  show ?thesis using update_missing_no_insert [OF h1 h2 h3 h4] h1 h2 h3 h4 by simp
qed

text \<open>
  C28. A negative \<^verbatim>\<open>skip\<close> or \<^verbatim>\<open>limit\<close> is not rejected by validation: it reaches the
  database as a negative OFFSET or LIMIT, PostgreSQL refuses it, and the answer is 500.
\<close>

theorem list_negative_bound_500:
  assumes "has_table d" and "in_bigint s" and "in_bigint l" and "s < 0 \<or> l < 0"
  shows "app sf (ListReq (Some s) (Some l)) d = (internal_error, d)"
  using assms by (auto simp: app_list sql_select_page_def)

theorem list_negative_bound_500_witness:
  "has_table (create_all empty_db) \<and> in_bigint (-1) \<and> in_bigint 100 \<and> ((-1::int) < 0 \<or> (100::int) < 0) \<and>
   app (\<lambda>_. None) (ListReq (Some (-1)) (Some 100)) (create_all empty_db) = (internal_error, create_all empty_db)"
proof -
  have h: "has_table (create_all empty_db)" "in_bigint (-1)" "in_bigint 100" "(-1::int) < 0 \<or> (100::int) < 0"
    by (simp_all add: witness_defs)
  from list_negative_bound_500 [OF h] h show ?thesis by simp
qed

text \<open>
  C29. Once the 32-bit sequence behind \<^verbatim>\<open>id\<close> has handed out its last value, every
  valid POST answers 500 and inserts nothing.
\<close>

theorem create_sequence_exhausted_500:
  assumes "serial_max \<le> last_value d" and "validate_item_create sf body = Inr v"
  shows "app sf (CreateReq body) d = (internal_error, d)"
  using app_create_db_error [OF assms(2)] assms(1) by simp

theorem create_sequence_exhausted_500_witness:
  "serial_max \<le> last_value \<lparr>has_table = True, rows = [], last_value = serial_max\<rparr> \<and>
   validate_item_create (\<lambda>_. None) (Some (PDict [(''nome'', PStr ''Pen''), (''preco'', PFloat (Fin 1))])) =
     Inr \<lparr>nome = ''Pen'', descricao = None, preco = Fin 1\<rparr> \<and>
   app (\<lambda>_. None) (CreateReq (Some (PDict [(''nome'', PStr ''Pen''), (''preco'', PFloat (Fin 1))])))
     \<lparr>has_table = True, rows = [], last_value = serial_max\<rparr> =
     (internal_error, \<lparr>has_table = True, rows = [], last_value = serial_max\<rparr>)"
proof -
  have h1: "serial_max \<le> last_value \<lparr>has_table = True, rows = [], last_value = serial_max\<rparr>" by simp
  have h2: "validate_item_create (\<lambda>_. None) (Some (PDict [(''nome'', PStr ''Pen''), (''preco'', PFloat (Fin 1))])) =
     Inr \<lparr>nome = ''Pen'', descricao = None, preco = Fin 1\<rparr>" by (simp add: witness_defs)
  from create_sequence_exhausted_500 [OF h1 h2] h1 h2 show ?thesis by simp
qed

text \<open>
  C30. A POST whose body has no \<^verbatim>\<open>nome\<close> (and no non-finite number, which as the error's
  input would make the 422 itself unrenderable) answers 422 with an error of type
  \<^verbatim>\<open>missing\<close> at location \<^verbatim>\<open>body.nome\<close>, and changes nothing.
\<close>

theorem missing_nome_422:
  assumes "map_of kv ''nome'' = None" and "json_ok (PDict kv)"
  shows "\<exists>errs. app sf (CreateReq (Some (PDict kv))) d = (validation_response errs, d) \<and>
                ([''body'', ''nome''], Missing) \<in> set errs"
  using validate_missing_nome [OF assms(1), of sf] validation_answer_ok [of "Some (PDict kv)"] assms(2)
  by (auto simp: app_def body_json_ok_def)

theorem missing_nome_422_witness:
  "map_of [(''preco'', PFloat (Fin 1))] ''nome'' = None \<and> json_ok (PDict [(''preco'', PFloat (Fin 1))]) \<and>
   (\<exists>errs. app (\<lambda>_. None) (CreateReq (Some (PDict [(''preco'', PFloat (Fin 1))]))) empty_db =
       (validation_response errs, empty_db) \<and> ([''body'', ''nome''], Missing) \<in> set errs)"
proof -
  have h: "map_of [(''preco'', PFloat (Fin 1))] ''nome'' = None" "json_ok (PDict [(''preco'', PFloat (Fin 1))])"
    by simp_all
  from missing_nome_422 [OF h] h show ?thesis by blast
qed



text \<open>
  C34. The list's \<^verbatim>\<open>limit\<close> at its boundaries: \<open>2\<^sup>6\<^sup>3 - 1\<close>, the largest \<^verbatim>\<open>BIGINT\<close>, is
  accepted and lists the whole table (its prices being finite); \<open>2\<^sup>6\<^sup>3\<close> is out of
  PostgreSQL's range and answers 500; \<open>0\<close> answers an empty list.
\<close>

theorem list_limit_boundary:
  assumes "db_wf d" and "has_table d" and "prices_finite d"
  shows "(\<exists>its. app sf (ListReq None (Some (2^63 - 1))) d = (Response 200 (PList (map item_json its)), d) \<and>
            length its = length (rows d)) \<and>
         app sf (ListReq None (Some (2^63))) d = (internal_error, d) \<and>
         app sf (ListReq None (Some 0)) d = (Response 200 (PList []), d)"
proof -
  have "last_value d \<le> 2^63 - 1" using assms(1) by (simp add: db_wf_def serial_max_def)
  then have "nat (last_value d) \<le> nat (2^63 - 1)" by (rule nat_mono)
  with wf_rows_length [OF assms(1)] have len: "length (rows d) \<le> nat (2^63 - 1)" by linarith
  have page: "sql_select_page 0 (2^63 - 1) d = Inr (rows d)"
    using sql_select_page_Inr [OF assms(2), of 0 "2^63 - 1"] len by (simp add: in_bigint_def)
  obtain its where its: "all_items (rows d) = Some its" using all_items_wf [OF assms(1) subset_refl] by blast
  then have "length its = length (rows d)" by (simp add: all_items_iff list_all2_lengthD)
  moreover have "list_all (\<lambda>it. is_finite (preco it)) its"
    using all_items_finite [OF assms(3) subset_refl its] .
  ultimately have "app sf (ListReq None (Some (2^63 - 1))) d = (Response 200 (PList (map item_json its)), d) \<and>
      length its = length (rows d)" using page its
    by (simp add: app_list items_response_def json_answer_def json_ok_items)
  moreover have "app sf (ListReq None (Some (2^63))) d = (internal_error, d)"
    by (simp add: app_list sql_select_page_def in_bigint_def assms(2))
  moreover have "app sf (ListReq None (Some 0)) d = (Response 200 (PList []), d)"
    using sql_select_page_Inr [OF assms(2), of 0 0]
    by (simp add: app_list in_bigint_def items_response_def json_answer_def)
  ultimately show ?thesis by blast
qed

theorem list_limit_boundary_witness:
  "db_wf (create_all empty_db) \<and> has_table (create_all empty_db) \<and> prices_finite (create_all empty_db) \<and>
   app (\<lambda>_. None) (ListReq None (Some (2^63))) (create_all empty_db) = (internal_error, create_all empty_db)"
proof -
  have h1: "db_wf (create_all empty_db)" and h2: "has_table (create_all empty_db)"
    and h3: "prices_finite (create_all empty_db)" by (simp_all add: witness_defs prices_finite_def)
  from list_limit_boundary [OF h1 h2 h3, of "\<lambda>_. None"] h1 h2 h3 show ?thesis by simp
qed

end
