(* ===== verification/Store_Spec.thy ===== *)
theory Store_Spec
  imports Handlers
begin

text \<open>
  The contract of the service as the specification states it (sections 3, 4.2 and 7 of
  \<^verbatim>\<open>spec.md\<close>), over an abstract store: a finite map from ids to item fields. Create
  picks an unused id; get, update and delete answer 404 for an id not in the store;
  update replaces all fields; list returns stored items with distinct ids, as many as
  the page allows, in no particular order; a validation error is 422; any request may
  instead fail with a generic server error that changes nothing. The abstraction
  function \<open>abs_db\<close> reads the store out of the table, and \<open>app_refines_store\<close>
  shows that every request of the implementation whose price, if it has one, is finite
  is a step of the contract.
\<close>

type_synonym store = "py_int \<rightharpoonup> item_base"

definition abs_db :: "db \<Rightarrow> store" where
  "abs_db d k =
     (case find (\<lambda>r. db_id r = Some k) (rows d) of
        None \<Rightarrow> None
      | Some r \<Rightarrow> (case item_of_orm r of Inl _ \<Rightarrow> None | Inr it \<Rightarrow> Some (item_base.truncate it)))"

definition with_id :: "py_int \<Rightarrow> item_base \<Rightarrow> item" where
  "with_id k v = \<lparr>nome = nome v, descricao = descricao v, preco = preco v, item_id = k\<rparr>"

definition not_found_response :: response where
  "not_found_response = Response 404 (PDict [(''detail'', PStr not_found_detail)])"

definition param_or :: "py_int \<Rightarrow> py_int option \<Rightarrow> py_int" where
  "param_or dflt x = (case x of None \<Rightarrow> dflt | Some n \<Rightarrow> n)"

inductive store_step ::
    "(string \<Rightarrow> py_float option) \<Rightarrow> request \<Rightarrow> store \<Rightarrow> response \<Rightarrow> store \<Rightarrow> bool"
  for sf where
  create: "validate_item_create sf body = Inr v \<Longrightarrow> m k = None \<Longrightarrow>
     store_step sf (CreateReq body) m (Response 200 (item_json (with_id k v))) (m(k \<mapsto> v))"
| create_invalid: "validate_item_create sf body = Inl errs \<Longrightarrow>
     store_step sf (CreateReq body) m (validation_response errs) m"
| list: "0 \<le> param_or 0 skip \<Longrightarrow> 0 \<le> param_or 100 limit \<Longrightarrow>
     list_all (\<lambda>it. m (item_id it) = Some (item_base.truncate it)) its \<Longrightarrow>
     distinct (map item_id its) \<Longrightarrow>
     length its = min (nat (param_or 100 limit)) (card (dom m) - nat (param_or 0 skip)) \<Longrightarrow>
     store_step sf (ListReq skip limit) m (Response 200 (PList (map item_json its))) m"
| get_found: "m k = Some v \<Longrightarrow>
     store_step sf (GetReq k) m (Response 200 (item_json (with_id k v))) m"
| get_missing: "m k = None \<Longrightarrow> store_step sf (GetReq k) m not_found_response m"
| update_found: "validate_item_create sf body = Inr v \<Longrightarrow> m k \<noteq> None \<Longrightarrow>
     store_step sf (UpdateReq k body) m (Response 200 (item_json (with_id k v))) (m(k \<mapsto> v))"
| update_missing: "validate_item_create sf body = Inr v \<Longrightarrow> m k = None \<Longrightarrow>
     store_step sf (UpdateReq k body) m not_found_response m"
| update_invalid: "validate_item_create sf body = Inl errs \<Longrightarrow>
     store_step sf (UpdateReq k body) m (validation_response errs) m"
| delete_found: "m k \<noteq> None \<Longrightarrow>
     store_step sf (DeleteReq k) m (Response 200 (PDict [(''message'', PStr deleted_message)])) (m(k := None))"
| delete_missing: "m k = None \<Longrightarrow> store_step sf (DeleteReq k) m not_found_response m"
| server_error: "store_step sf req m internal_error m"

text \<open>
  The writes of the store: one step changes at most one entry, putting an item under an
  id or removing the id.
\<close>

inductive store_write :: "store \<Rightarrow> store \<Rightarrow> bool" where
  keep: "store_write m m"
| put: "store_write m (m(k \<mapsto> v))"
| remove: "store_write m (m(k := None))"

text \<open>A sequence of requests and their responses allowed by the contract.\<close>

inductive store_trace ::
    "(string \<Rightarrow> py_float option) \<Rightarrow> request list \<Rightarrow> store \<Rightarrow> response list \<Rightarrow> store \<Rightarrow> bool"
  for sf where
  nil: "store_trace sf [] m [] m"
| cons: "store_step sf q m r m1 \<Longrightarrow> store_trace sf qs m1 rs m2 \<Longrightarrow> store_trace sf (q # qs) m (r # rs) m2"


subsection \<open>The abstraction function\<close>

lemma item_base_truncate_with_id [simp]: "item_base.truncate (with_id k v) = v"
  by (simp add: with_id_def item_base.defs)

lemma item_of_orm_row [simp]:
  "item_of_orm \<lparr>db_id = Some k, db_nome = Some (nome v), db_descricao = descricao v,
                db_preco = Some (preco v)\<rparr> = Inr (with_id k v)"
  by (simp add: item_of_orm_def with_id_def)

lemma abs_db_append_fresh:
  assumes "Some k \<notin> db_id ` set (rows d)"
  shows "abs_db (d\<lparr>last_value := n, rows := rows d @ [\<lparr>db_id = Some k, db_nome = Some (nome v),
                     db_descricao = descricao v, db_preco = Some (preco v)\<rparr>]\<rparr>) = (abs_db d)(k \<mapsto> v)"
proof
  fix k'
  show "abs_db (d\<lparr>last_value := n, rows := rows d @ [\<lparr>db_id = Some k, db_nome = Some (nome v),
                     db_descricao = descricao v, db_preco = Some (preco v)\<rparr>]\<rparr>) k' = ((abs_db d)(k \<mapsto> v)) k'"
  proof (cases "k' = k")
    case True
    with assms show ?thesis by (simp add: abs_db_def find_key_append find_key_None_iff [THEN iffD2])
  next
    case False
    then show ?thesis by (simp add: abs_db_def find_key_append split: option.split)
  qed
qed

lemma abs_db_fresh_None:
  "Some k \<notin> db_id ` set (rows d) \<Longrightarrow> abs_db d k = None"
  by (simp add: abs_db_def find_key_None_iff [THEN iffD2])

lemma abs_db_update:
  fixes v :: item_base
  assumes "find (\<lambda>r. db_id r = Some k) (rows d) = Some r"
  defines "r' \<equiv> r\<lparr>db_nome := Some (nome v), db_descricao := descricao v, db_preco := Some (preco v)\<rparr>"
  shows "abs_db (d\<lparr>rows := map (\<lambda>x. if db_id x = Some k then r' else x) (rows d)\<rparr>) = (abs_db d)(k \<mapsto> v)"
proof
  fix k'
  have rid: "db_id r = Some k" using find_key_Some [OF assms(1)] by simp
  then have r': "r' = \<lparr>db_id = Some k, db_nome = Some (nome v), db_descricao = descricao v,
      db_preco = Some (preco v)\<rparr>"
    unfolding r'_def by (cases r) simp
  show "abs_db (d\<lparr>rows := map (\<lambda>x. if db_id x = Some k then r' else x) (rows d)\<rparr>) k' = ((abs_db d)(k \<mapsto> v)) k'"
  proof (cases "k' = k")
    case True
    have "find (\<lambda>x. db_id x = Some k) (map (\<lambda>x. if db_id x = Some k then r' else x) (rows d)) = Some r'"
      using find_key_map_hit [of db_id "Some k" "\<lambda>_. r'" "rows d"] r' assms(1) by simp
    with True r' show ?thesis by (simp add: abs_db_def)
  next
    case False
    then have "find (\<lambda>x. db_id x = Some k') (map (\<lambda>x. if db_id x = Some k then r' else x) (rows d)) =
        find (\<lambda>x. db_id x = Some k') (rows d)"
      using find_key_map_other [of db_id "Some k" "\<lambda>_. r'" "Some k'" "rows d"] r' by simp
    with False show ?thesis by (simp add: abs_db_def)
  qed
qed

lemma abs_db_delete:
  "abs_db (d\<lparr>rows := filter (\<lambda>x. db_id x \<noteq> Some k) (rows d)\<rparr>) = (abs_db d)(k := None)"
  by (rule ext) (simp add: abs_db_def find_key_filter)

lemma abs_db_found:
  assumes "db_wf d" and "find (\<lambda>r. db_id r = Some k) (rows d) = Some r"
  shows "\<exists>v. abs_db d k = Some v \<and> item_response r = json_answer 200 (item_json (with_id k v))"
proof -
  have "r \<in> set (rows d)" and rid: "db_id r = Some k" using find_key_Some [OF assms(2)] by auto
  then obtain it where it: "item_of_orm r = Inr it" using wf_item_of_orm [OF assms(1)] by blast
  with rid have "it = with_id k (item_base.truncate it)"
    by (auto simp: with_id_def item_base.defs dest: item_of_orm_fields)
  with it assms(2) show ?thesis
    by (auto simp: abs_db_def item_response_def)
qed

lemma abs_db_row:
  assumes "db_wf d" and "r \<in> set (rows d)" and "item_of_orm r = Inr it"
  shows "abs_db d (item_id it) = Some (item_base.truncate it)"
proof -
  have rid: "db_id r = Some (item_id it)" using item_of_orm_fields [OF assms(3)] by simp
  have "distinct (map db_id (rows d))" using assms(1) by (simp add: db_wf_def)
  then have "find (\<lambda>y. db_id y = db_id r) (rows d) = Some r"
    using assms(2) by (rule find_key_distinct)
  with rid assms(3) show ?thesis by (simp add: abs_db_def)
qed

lemma abs_db_finite:
  assumes "prices_finite d" and "abs_db d k = Some v"
  shows "is_finite (preco v)"
proof -
  from assms(2) obtain r it where hit: "find (\<lambda>r. db_id r = Some k) (rows d) = Some r"
    and it: "item_of_orm r = Inr it" and v: "v = item_base.truncate it"
    by (auto simp: abs_db_def split: option.splits sum.splits)
  have "r \<in> set (rows d)" using find_key_Some [OF hit] by simp
  with assms(1) item_of_orm_fields [OF it] v show ?thesis
    by (force simp: prices_finite_def list_all_iff item_base.defs)
qed

lemma list_all2_item_ids:
  "list_all2 (\<lambda>r it. item_of_orm r = Inr it) xs its \<Longrightarrow> map db_id xs = map (Some \<circ> item_id) its"
  by (induction rule: list_all2_induct) (auto dest: item_of_orm_fields)

lemma dom_abs_db:
  assumes "db_wf d"
  shows "dom (abs_db d) = set (map (the \<circ> db_id) (rows d)) \<and>
         card (dom (abs_db d)) = length (rows d)"
proof -
  have keys: "\<forall>r \<in> set (rows d). \<exists>k. db_id r = Some k"
    using wf_key_bound [OF assms] by blast
  have dom: "dom (abs_db d) = set (map (the \<circ> db_id) (rows d))"
  proof
    show "dom (abs_db d) \<subseteq> set (map (the \<circ> db_id) (rows d))"
    proof
      fix k
      assume "k \<in> dom (abs_db d)"
      then obtain r where "find (\<lambda>r. db_id r = Some k) (rows d) = Some r"
        by (auto simp: abs_db_def split: option.splits)
      then have "r \<in> set (rows d)" and "db_id r = Some k" by (auto dest: find_key_Some)
      then show "k \<in> set (map (the \<circ> db_id) (rows d))" by force
    qed
  next
    show "set (map (the \<circ> db_id) (rows d)) \<subseteq> dom (abs_db d)"
    proof
      fix k
      assume "k \<in> set (map (the \<circ> db_id) (rows d))"
      then obtain r where r: "r \<in> set (rows d)" and "k = the (db_id r)" by auto
      with keys have rid: "db_id r = Some k" by force
      obtain it where it: "item_of_orm r = Inr it" using wf_item_of_orm [OF assms r] by blast
      with rid have "item_id it = k" using item_of_orm_fields by fastforce
      with abs_db_row [OF assms r it] show "k \<in> dom (abs_db d)" by auto
    qed
  qed
  have "map (the \<circ> db_id) (rows d) = map the (map db_id (rows d))" by simp
  moreover have "distinct (map the (map db_id (rows d)))"
  proof -
    have "distinct (map db_id (rows d))" using assms by (simp add: db_wf_def)
    moreover have "inj_on the (set (map db_id (rows d)))"
    proof (rule inj_onI)
      fix a b
      assume "a \<in> set (map db_id (rows d))" and "b \<in> set (map db_id (rows d))" and ab: "the a = the b"
      then obtain x y where "x \<in> set (rows d)" "a = db_id x" "y \<in> set (rows d)" "b = db_id y" by auto
      moreover from this keys obtain kx ky where "db_id x = Some kx" and "db_id y = Some ky" by blast
      ultimately show "a = b" using ab by simp
    qed
    ultimately show ?thesis by (simp add: distinct_map del: map_map)
  qed
  ultimately have "card (set (map (the \<circ> db_id) (rows d))) = length (rows d)"
    by (metis distinct_card length_map)
  with dom show ?thesis by simp
qed

lemma list_page_refines:
  assumes "db_wf d" and "list_all2 (\<lambda>r it. item_of_orm r = Inr it) (take l (drop s (rows d))) its"
  shows "list_all (\<lambda>it. abs_db d (item_id it) = Some (item_base.truncate it)) its \<and>
         distinct (map item_id its)"
proof -
  have ids: "map db_id (take l (drop s (rows d))) = map (Some \<circ> item_id) its"
    using list_all2_item_ids [OF assms(2)] .
  have "distinct (map db_id (take l (drop s (rows d))))"
    using assms(1) by (simp add: db_wf_def take_map [symmetric] drop_map [symmetric])
  with ids have "distinct (map (Some \<circ> item_id) its)" by simp
  then have "distinct (map item_id its)" by (auto simp: distinct_map intro: inj_on_imageI2)
  moreover have "list_all (\<lambda>it. abs_db d (item_id it) = Some (item_base.truncate it)) its"
    unfolding list_all_iff
  proof
    fix it
    assume "it \<in> set its"
    then obtain r where r: "r \<in> set (take l (drop s (rows d)))" and it: "item_of_orm r = Inr it"
      using list_all2_in_set2 [OF assms(2)] by blast
    from subsetD [OF slice_subset r] have "r \<in> set (rows d)" .
    from abs_db_row [OF assms(1) this it]
    show "abs_db d (item_id it) = Some (item_base.truncate it)" .
  qed
  ultimately show ?thesis by simp
qed

lemma get_from_abs:
  assumes "db_wf d" and "has_table d"
  shows "app sf (GetReq k) d =
    ((case abs_db d k of None \<Rightarrow> not_found_response | Some v \<Rightarrow> json_answer 200 (item_json (with_id k v))), d)"
proof (cases "find (\<lambda>r. db_id r = Some k) (rows d)")
  case None
  with assms(2) show ?thesis by (simp add: app_get abs_db_def not_found_response_def)
next
  case (Some r)
  from abs_db_found [OF assms(1) Some] obtain v where
    "abs_db d k = Some v" and "item_response r = json_answer 200 (item_json (with_id k v))" by blast
  with assms(2) Some show ?thesis by (simp add: app_get)
qed

lemma answer_cases:
  "json_answer c v = Response c v \<or> json_answer c v = internal_error"
  "validation_answer b errs = validation_response errs \<or> validation_answer b errs = internal_error"
  by (simp_all add: json_answer_def validation_answer_def)

lemma invalid_refines:
  "resp = validation_answer b errs \<Longrightarrow> store_step sf req m (validation_response errs) m \<Longrightarrow>
     store_step sf req m resp m"
  using answer_cases(2) [of b errs] by (auto intro: store_step.server_error)

subsection \<open>Refinement\<close>

text \<open>
  Every request whose price, if it has one, is finite, on a well-formed database whose
  table exists, is a step of the contract, read through \<open>abs_db\<close>: the response and the
  new store are ones the abstract specification allows for that request and that store.
  A GET or list that meets a stored non-finite price answers 500 and changes nothing,
  which the contract allows.
\<close>

lemma app_refines_store:
  assumes wf: "db_wf d" and tbl: "has_table d" and run: "app sf req d = (resp, d')"
    and fin: "req_finite sf req"
  shows "store_step sf req (abs_db d) resp (abs_db d')"
proof (cases req)
  case (CreateReq body)
  show ?thesis
  proof (cases "validate_item_create sf body")
    case (Inl errs)
    with run CreateReq show ?thesis
      by (auto simp: app_def intro: invalid_refines store_step.create_invalid)
  next
    case (Inr v)
    show ?thesis
    proof (cases "last_value d < serial_max")
      case True
      let ?k = "last_value d + 1"
      have fresh: "Some ?k \<notin> db_id ` set (rows d)" using wf_fresh_key [OF wf] by simp
      from app_create_ok [OF wf tbl True Inr] run CreateReq fin finite_price_Inr [OF Inr]
      have "resp = Response 200 (item_json (with_id ?k v))"
        and "d' = d\<lparr>last_value := ?k, rows := rows d @ [\<lparr>db_id = Some ?k, db_nome = Some (nome v),
                db_descricao = descricao v, db_preco = Some (preco v)\<rparr>]\<rparr>"
        by (auto simp: with_id_def json_answer_item)
      with abs_db_append_fresh [OF fresh] abs_db_fresh_None [OF fresh] Inr CreateReq
      show ?thesis by (auto intro: store_step.create)
    next
      case False
      with app_create_db_error [OF Inr] run CreateReq have "resp = internal_error" and "d' = d"
        by auto
      then show ?thesis by (auto intro: store_step.server_error)
    qed
  qed
next
  case (ListReq skip limit)
  let ?s = "param_or 0 skip" and ?l = "param_or 100 limit"
  have app: "app sf req d =
      ((case sql_select_page ?s ?l d of Inl e \<Rightarrow> internal_error | Inr xs \<Rightarrow> items_response xs), d)"
    using ListReq by (simp add: app_list param_or_def)
  show ?thesis
  proof (cases "sql_select_page ?s ?l d")
    case (Inl e)
    with app run show ?thesis by (auto intro: store_step.server_error)
  next
    case (Inr xs)
    then have nn: "0 \<le> ?s" "0 \<le> ?l" and xs: "xs = take (nat ?l) (drop (nat ?s) (rows d))"
      using tbl by (auto simp: sql_select_page_def split: if_splits)
    have "set xs \<subseteq> set (rows d)" using xs slice_subset by simp
    then obtain its where its: "all_items xs = Some its"
      using all_items_wf [OF wf] by blast
    then have rel: "list_all2 (\<lambda>r it. item_of_orm r = Inr it) xs its" by (simp add: all_items_iff)
    with list_page_refines [OF wf] xs
    have ok: "list_all (\<lambda>it. abs_db d (item_id it) = Some (item_base.truncate it)) its"
      and dist: "distinct (map item_id its)" by auto
    have card: "card (dom (abs_db d)) = length (rows d)"
      by (rule conjunct2 [OF dom_abs_db [OF wf]])
    have len: "length its = min (nat ?l) (card (dom (abs_db d)) - nat ?s)"
      using list_all2_lengthD [OF rel] xs by (simp add: card min.commute)
    from app run Inr its have "resp = json_answer 200 (PList (map item_json its))" and "d' = d"
      by (auto simp: items_response_def)
    with store_step.list [OF nn ok dist len] ListReq answer_cases(1) [of 200 "PList (map item_json its)"]
    show ?thesis by (auto intro: store_step.server_error)
  qed
next
  case (GetReq k)
  show ?thesis
  proof (cases "find (\<lambda>r. db_id r = Some k) (rows d)")
    case None
    then have "abs_db d k = None" by (simp add: abs_db_def)
    with app_get [OF tbl] None run GetReq store_step.get_missing [of "abs_db d" k sf] show ?thesis
      by (auto simp: not_found_response_def)
  next
    case (Some r)
    from abs_db_found [OF wf Some] obtain v where v: "abs_db d k = Some v"
      and resp_r: "item_response r = json_answer 200 (item_json (with_id k v))" by blast
    from app_get [OF tbl] Some run GetReq resp_r
    have "resp = json_answer 200 (item_json (with_id k v))" and "d' = d" by auto
    with store_step.get_found [of "abs_db d" k v sf, OF v] GetReq answer_cases(1) [of 200 "item_json (with_id k v)"]
    show ?thesis by (auto intro: store_step.server_error)
  qed
next
  case (UpdateReq k body)
  show ?thesis
  proof (cases "validate_item_create sf body")
    case (Inl errs)
    with run UpdateReq show ?thesis
      by (auto simp: app_def intro: invalid_refines store_step.update_invalid)
  next
    case (Inr v)
    show ?thesis
    proof (cases "find (\<lambda>r. db_id r = Some k) (rows d)")
      case None
      then have "abs_db d k = None" by (simp add: abs_db_def)
      with app_update [OF wf tbl Inr] None run UpdateReq Inr
        store_step.update_missing [OF Inr, of "abs_db d" k] show ?thesis
        by (auto simp: not_found_response_def)
    next
      case (Some r)
      from abs_db_found [OF wf Some] have "abs_db d k \<noteq> None" by auto
      moreover from app_update [OF wf tbl Inr] Some run UpdateReq fin finite_price_Inr [OF Inr]
      have "resp = Response 200 (item_json (with_id k v))"
        and "d' = d\<lparr>rows := map (\<lambda>x. if db_id x = Some k then r\<lparr>db_nome := Some (nome v),
                  db_descricao := descricao v, db_preco := Some (preco v)\<rparr> else x) (rows d)\<rparr>"
        by (auto simp: with_id_def json_answer_item)
      ultimately show ?thesis
        using abs_db_update [OF Some, of v] Inr UpdateReq by (auto intro: store_step.update_found)
    qed
  qed
next
  case (DeleteReq k)
  show ?thesis
  proof (cases "find (\<lambda>r. db_id r = Some k) (rows d)")
    case None
    then have "abs_db d k = None" by (simp add: abs_db_def)
    with app_delete [OF tbl] None run DeleteReq store_step.delete_missing [of "abs_db d" k sf] show ?thesis
      by (auto simp: not_found_response_def)
  next
    case (Some r)
    from abs_db_found [OF wf Some] have present: "abs_db d k \<noteq> None" by auto
    from app_delete [OF tbl] Some run DeleteReq
    have "resp = Response 200 (PDict [(''message'', PStr deleted_message)])"
      and "d' = d\<lparr>rows := filter (\<lambda>x. db_id x \<noteq> Some k) (rows d)\<rparr>" by auto
    with store_step.delete_found [of "abs_db d" k sf, OF present] abs_db_delete [where d = d and k = k] DeleteReq
    show ?thesis by simp
  qed
qed

text \<open>
  C20. GET \<^verbatim>\<open>/items/\<close> with a non-negative \<^verbatim>\<open>skip\<close> and \<^verbatim>\<open>limit\<close> in the 64-bit range
  answers 200 with the rows of the scan from position \<^verbatim>\<open>skip\<close> on, at most \<^verbatim>\<open>limit\<close> of
  them, each as an \<^verbatim>\<open>Item\<close> that is stored under its id, no id twice, and changes
  nothing -- on a table whose prices are finite (a stored \<^verbatim>\<open>inf\<close> or \<^verbatim>\<open>nan\<close> in the page
  makes the answer unrenderable).
\<close>

theorem list_returns_slice:
  assumes "db_wf d" and "has_table d" and "0 \<le> s" and "0 \<le> l" and "in_bigint s" and "in_bigint l"
    and "prices_finite d"
  shows "\<exists>its. app sf (ListReq (Some s) (Some l)) d = (Response 200 (PList (map item_json its)), d) \<and>
     list_all2 (\<lambda>r it. item_of_orm r = Inr it) (take (nat l) (drop (nat s) (rows d))) its \<and>
     length its = min (nat l) (length (rows d) - nat s) \<and>
     list_all (\<lambda>it. abs_db d (item_id it) = Some (item_base.truncate it)) its \<and>
     distinct (map item_id its)"
proof -
  from app_list_page [OF assms, of sf] obtain its where
    run: "app sf (ListReq (Some s) (Some l)) d = (Response 200 (PList (map item_json its)), d)"
    and rel: "list_all2 (\<lambda>r it. item_of_orm r = Inr it) (take (nat l) (drop (nat s) (rows d))) its"
    and len: "length its = min (nat l) (length (rows d) - nat s)" by blast
  from list_page_refines [OF assms(1) rel] run rel len show ?thesis by blast
qed

theorem list_returns_slice_witness:
  "db_wf \<lparr>has_table = True, rows = [\<lparr>db_id = Some 1, db_nome = Some ''A'', db_descricao = None, db_preco = Some (Fin 1)\<rparr>],
          last_value = 1\<rparr> \<and>
   prices_finite \<lparr>has_table = True, rows = [\<lparr>db_id = Some 1, db_nome = Some ''A'', db_descricao = None,
     db_preco = Some (Fin 1)\<rparr>], last_value = 1\<rparr> \<and>
   (\<exists>its. app (\<lambda>_. None) (ListReq (Some 0) (Some 100))
        \<lparr>has_table = True, rows = [\<lparr>db_id = Some 1, db_nome = Some ''A'', db_descricao = None, db_preco = Some (Fin 1)\<rparr>],
         last_value = 1\<rparr> =
      (Response 200 (PList (map item_json its)),
       \<lparr>has_table = True, rows = [\<lparr>db_id = Some 1, db_nome = Some ''A'', db_descricao = None, db_preco = Some (Fin 1)\<rparr>],
        last_value = 1\<rparr>) \<and> length its = 1)"
proof -
  let ?d = "\<lparr>has_table = True, rows = [\<lparr>db_id = Some 1, db_nome = Some ''A'', db_descricao = None, db_preco = Some (Fin 1)\<rparr>],
          last_value = 1\<rparr> :: db"
  have h1: "db_wf ?d" by (simp add: witness_defs)
  have h: "has_table ?d" "(0::int) \<le> 0" "(0::int) \<le> 100" "in_bigint 0" "in_bigint 100" "prices_finite ?d"
    by (simp_all add: in_bigint_def prices_finite_def)
  from list_returns_slice [OF h1 h, of "\<lambda>_. None"] h1 h(6) show ?thesis by auto
qed


end
