(* ===== verification/Concurrency.thy ===== *)
theory Concurrency
  imports Store_Spec
begin

text \<open>
  Requests served concurrently (spec section 5). Each request has its own session from
  \<^verbatim>\<open>get_db\<close>; the only shared state is the database. PostgreSQL runs the session's
  statements at READ COMMITTED: each statement sees what was committed before it, and
  the flush and COMMIT of \<^verbatim>\<open>db.commit()\<close> form one atomic step. So a request is a
  thread whose program counter \<open>pc\<close> says which statement of its handler
  (\<^verbatim>\<open>src/main.py\<close>, lines 67--108) runs next; \<open>tstep\<close> runs that statement against the
  current database with the session operations of \<^verbatim>\<open>Session\<close>, and \<open>cstep\<close> interleaves
  the arrival of requests and the statements of the threads in flight. A thread run
  without interleaving is exactly \<open>app\<close> (\<open>run_alone_app\<close>); interleaved, the table stays
  well-formed and every statement is at most one single-item write, but PUT and DELETE
  race, and two PUTs of one row merge column by column because SQLAlchemy's UPDATE writes
  only the columns each PUT changed.
\<close>

subsection \<open>Threads\<close>

text \<open>
  The statements after which another request can commit: \<^verbatim>\<open>db.add\<close> (local), each
  \<^verbatim>\<open>query(...).first()\<close>, each \<^verbatim>\<open>db.commit()\<close>, each \<^verbatim>\<open>db.refresh\<close>. GET and list run a
  single statement.
\<close>

datatype pc =
    CreateAdd item_create
  | CreateCommit nat
  | CreateRefresh py_int
  | ListRun py_int py_int
  | GetRun py_int
  | UpdateQuery py_int item_create
  | UpdateCommit py_int
  | UpdateRefresh py_int
  | DeleteQuery py_int
  | DeleteCommit
  | Done response

type_synonym thread = "pc \<times> session"

text \<open>The session of a thread, seeing the database as it is now.\<close>

definition sess_at :: "db \<Rightarrow> session \<Rightarrow> session" where
  "sess_at g s = s\<lparr>s_db := g\<rparr>"

text \<open>The end of a thread: the result becomes the response and \<^verbatim>\<open>get_db\<close> closes the session.\<close>

definition finished :: "('a \<Rightarrow> response) \<Rightarrow> exc + 'a \<Rightarrow> session \<Rightarrow> db \<Rightarrow> thread \<times> db" where
  "finished f r s g = ((Done (fst (finish f (r, s))), sess_close s), g)"

fun tstep :: "thread \<Rightarrow> db \<Rightarrow> thread \<times> db" where
  "tstep (CreateAdd v, s) g =
     (case sess_add (itemdb_kwargs (item_dict v)) s of (h, s1) \<Rightarrow> ((CreateCommit h, s1), g))"
| "tstep (CreateCommit h, s) g =
     (case sess_commit (sess_at g s) of
        Inl e \<Rightarrow> finished item_response (Inl (DBException e)) (sess_at g s) g
      | Inr (ks, s2) \<Rightarrow> ((CreateRefresh (ks ! h), s2), s_db s2))"
| "tstep (CreateRefresh k, s) g =
     (case sess_refresh k (sess_at g s) of
        Inl e \<Rightarrow> finished item_response (Inl (DBException e)) (sess_at g s) g
      | Inr obj \<Rightarrow> finished item_response (Inr obj) (sess_at g s) g)"
| "tstep (ListRun skip limit, s) g =
     (case read_items skip limit (sess_at g s) of (r, s1) \<Rightarrow> finished items_response r s1 g)"
| "tstep (GetRun iid, s) g =
     (case read_item iid (sess_at g s) of (r, s1) \<Rightarrow> finished item_response r s1 g)"
| "tstep (UpdateQuery iid item, s) g =
     (case sess_query_first iid (sess_at g s) of
        Inl e \<Rightarrow> finished item_response (Inl (DBException e)) (sess_at g s) g
      | Inr None \<Rightarrow> finished item_response (Inl (HTTPException 404 not_found_detail)) (sess_at g s) g
      | Inr (Some db_item) \<Rightarrow>
          ((UpdateCommit iid, sess_set_dirty iid db_item (foldl setattr_itemdb db_item (item_dict item)) (sess_at g s)), g))"
| "tstep (UpdateCommit iid, s) g =
     (case sess_commit (sess_at g s) of
        Inl e \<Rightarrow> finished item_response (Inl (DBException e)) (sess_at g s) g
      | Inr (_, s2) \<Rightarrow> ((UpdateRefresh iid, s2), s_db s2))"
| "tstep (UpdateRefresh iid, s) g =
     (case sess_refresh iid (sess_at g s) of
        Inl e \<Rightarrow> finished item_response (Inl (DBException e)) (sess_at g s) g
      | Inr obj \<Rightarrow> finished item_response (Inr obj) (sess_at g s) g)"
| "tstep (DeleteQuery iid, s) g =
     (case sess_query_first iid (sess_at g s) of
        Inl e \<Rightarrow> finished message_response (Inl (DBException e)) (sess_at g s) g
      | Inr None \<Rightarrow> finished message_response (Inl (HTTPException 404 not_found_detail)) (sess_at g s) g
      | Inr (Some db_item) \<Rightarrow> ((DeleteCommit, sess_delete iid (sess_at g s)), g))"
| "tstep (DeleteCommit, s) g =
     (case sess_commit (sess_at g s) of
        Inl e \<Rightarrow> finished message_response (Inl (DBException e)) (sess_at g s) g
      | Inr (_, s2) \<Rightarrow> finished message_response (Inr deleted_message) s2 (s_db s2))"
| "tstep (Done r, s) g = ((Done r, s), g)"

text \<open>
  A request arrives: FastAPI validates the body before the endpoint runs (a 422 needs
  no database), then \<^verbatim>\<open>get_db\<close> opens the session.
\<close>

definition start :: "(string \<Rightarrow> py_float option) \<Rightarrow> request \<Rightarrow> db \<Rightarrow> thread" where
  "start str_float req g =
     (case req of
        CreateReq body \<Rightarrow>
          (case validate_item_create str_float body of
             Inl errs \<Rightarrow> (Done (validation_answer body errs), session_local g)
           | Inr item \<Rightarrow> (CreateAdd item, session_local g))
      | ListReq skip limit \<Rightarrow>
          (ListRun (case skip of None \<Rightarrow> 0 | Some n \<Rightarrow> n) (case limit of None \<Rightarrow> 100 | Some n \<Rightarrow> n),
           session_local g)
      | GetReq iid \<Rightarrow> (GetRun iid, session_local g)
      | UpdateReq iid body \<Rightarrow>
          (case validate_item_create str_float body of
             Inl errs \<Rightarrow> (Done (validation_answer body errs), session_local g)
           | Inr item \<Rightarrow> (UpdateQuery iid item, session_local g))
      | DeleteReq iid \<Rightarrow> (DeleteQuery iid, session_local g))"

text \<open>A thread alone: its steps, each on the database the previous one left.\<close>

fun run_alone :: "nat \<Rightarrow> thread \<Rightarrow> db \<Rightarrow> thread \<times> db" where
  "run_alone 0 t g = (t, g)"
| "run_alone (Suc n) t g = (case tstep t g of (t', g') \<Rightarrow> run_alone n t' g')"

text \<open>
  The server: a request arrives and becomes a thread, or one thread in flight runs its
  next statement.
\<close>

inductive cstep :: "(string \<Rightarrow> py_float option) \<Rightarrow> db \<times> thread list \<Rightarrow> db \<times> thread list \<Rightarrow> bool"
  for str_float where
  arrive: "cstep str_float (g, ts) (g, ts @ [start str_float req g])"
| run: "i < length ts \<Longrightarrow> tstep (ts ! i) g = (t', g') \<Longrightarrow> cstep str_float (g, ts) (g', ts[i := t'])"

text \<open>What a thread may have pending at each statement.\<close>

fun pending_ok :: "pending \<Rightarrow> bool" where
  "pending_ok (PendingInsert obj) = (db_nome obj \<noteq> None \<and> db_preco obj \<noteq> None)"
| "pending_ok (PendingUpdate k old obj) = (db_nome obj \<noteq> None \<and> db_preco obj \<noteq> None)"
| "pending_ok (PendingDelete k) = True"

fun thread_ok :: "thread \<Rightarrow> bool" where
  "thread_ok (CreateCommit h, s) =
     (h = 0 \<and> (case s_pending s of [PendingInsert obj] \<Rightarrow> pending_ok (PendingInsert obj) | _ \<Rightarrow> False))"
| "thread_ok (UpdateCommit iid, s) =
     (case s_pending s of [PendingUpdate k old obj] \<Rightarrow> k = iid \<and> pending_ok (PendingUpdate k old obj) | _ \<Rightarrow> False)"
| "thread_ok (DeleteCommit, s) = (case s_pending s of [PendingDelete k] \<Rightarrow> True | _ \<Rightarrow> False)"
| "thread_ok (p, s) = (s_pending s = [])"

text \<open>
  A schedule: requests arriving and threads (by position) running their next
  statement; running a thread that is done, or that does not exist, changes nothing.
\<close>

datatype event = Arrive request | Run nat

fun sched_step :: "(string \<Rightarrow> py_float option) \<Rightarrow> event \<Rightarrow> db \<times> thread list \<Rightarrow> db \<times> thread list" where
  "sched_step sf (Arrive req) (g, ts) = (g, ts @ [start sf req g])"
| "sched_step sf (Run i) (g, ts) =
     (if i < length ts then (case tstep (ts ! i) g of (t', g') \<Rightarrow> (g', ts[i := t'])) else (g, ts))"

definition exec_sched :: "(string \<Rightarrow> py_float option) \<Rightarrow> event list \<Rightarrow> db \<times> thread list \<Rightarrow> db \<times> thread list" where
  "exec_sched sf evs c = fold (sched_step sf) evs c"

subsection \<open>Lemmas\<close>

lemma sess_at_same [simp]: "sess_at (s_db s) s = s"
  by (simp add: sess_at_def)

lemma sess_ops_db [simp]:
  "s_db (snd (sess_add obj s)) = s_db s" "s_db (sess_set_dirty k old obj s) = s_db s"
  "s_db (sess_delete k s) = s_db s" "s_db (session_local g) = g"
  by (simp_all add: sess_add_def sess_set_dirty_def sess_delete_def session_local_def)

lemma sess_at_eq: "s_db s = g \<Longrightarrow> sess_at g s = s"
  by (simp add: sess_at_def)

lemma run_alone_done [simp]: "run_alone n (Done r, s) g = ((Done r, s), g)"
  by (induction n) simp_all

lemma run_alone_create:
  "fst (fst (run_alone 3 (CreateAdd v, session_local g) g)) = Done (fst (finish item_response (get_db (create_item v) g))) \<and>
   snd (run_alone 3 (CreateAdd v, session_local g) g) = snd (finish item_response (get_db (create_item v) g))"
proof -
  obtain h s1 where add: "sess_add (itemdb_kwargs (item_dict v)) (session_local g) = (h, s1)" by fastforce
  have db1: "s_db s1 = g" using sess_ops_db(1) [of "itemdb_kwargs (item_dict v)" "session_local g"] add
    by simp
  then have at1: "sess_at g s1 = s1" by (rule sess_at_eq)
  show ?thesis
  proof (cases "sess_commit s1")
    case (Inl e)
    with add at1 db1 show ?thesis
      by (simp add: numeral_eq_Suc get_db_def create_item_def finished_def finish_def sess_close_def)
  next
    case (Inr p)
    then obtain ks s2 where c: "sess_commit s1 = Inr (ks, s2)" by (cases p) auto
    with add at1 show ?thesis
      by (cases "sess_refresh (ks ! h) s2")
         (simp_all add: numeral_eq_Suc get_db_def create_item_def finished_def finish_def sess_close_def)
  qed
qed

lemma sess_at_local [simp]: "sess_at g (session_local g) = session_local g"
  by (simp add: sess_at_def session_local_def)

lemma run_alone_update:
  "fst (fst (run_alone 3 (UpdateQuery iid v, session_local g) g)) =
     Done (fst (finish item_response (get_db (update_item iid v) g))) \<and>
   snd (run_alone 3 (UpdateQuery iid v, session_local g) g) = snd (finish item_response (get_db (update_item iid v) g))"
proof (cases "sess_query_first iid (session_local g)")
  case (Inl e)
  then show ?thesis
    by (simp add: numeral_eq_Suc get_db_def update_item_def finished_def finish_def sess_close_def)
next
  case (Inr q)
  show ?thesis
  proof (cases q)
    case None
    with Inr show ?thesis
      by (simp add: numeral_eq_Suc get_db_def update_item_def finished_def finish_def sess_close_def)
  next
    case (Some db_item)
    define s1 where "s1 = sess_set_dirty iid db_item (foldl setattr_itemdb db_item (item_dict v)) (session_local g)"
    have at1: "sess_at g s1 = s1" by (simp add: s1_def sess_at_eq)
    show ?thesis
    proof (cases "sess_commit s1")
      case (Inl e)
      with Inr Some at1 show ?thesis
        by (simp add: s1_def numeral_eq_Suc get_db_def update_item_def finished_def finish_def sess_close_def)
    next
      case (Inr p)
      then obtain ks s2 where c: "sess_commit s1 = Inr (ks, s2)" by (cases p) auto
      with \<open>sess_query_first iid (session_local g) = Inr q\<close> Some at1 show ?thesis
        by (cases "sess_refresh iid s2")
           (simp_all add: s1_def numeral_eq_Suc get_db_def update_item_def finished_def finish_def sess_close_def)
    qed
  qed
qed

lemma run_alone_delete:
  "fst (fst (run_alone 3 (DeleteQuery iid, session_local g) g)) =
     Done (fst (finish message_response (get_db (delete_item iid) g))) \<and>
   snd (run_alone 3 (DeleteQuery iid, session_local g) g) = snd (finish message_response (get_db (delete_item iid) g))"
proof (cases "sess_query_first iid (session_local g)")
  case (Inl e)
  then show ?thesis
    by (simp add: numeral_eq_Suc get_db_def delete_item_def finished_def finish_def sess_close_def)
next
  case (Inr q)
  show ?thesis
  proof (cases q)
    case None
    with Inr show ?thesis
      by (simp add: numeral_eq_Suc get_db_def delete_item_def finished_def finish_def sess_close_def)
  next
    case (Some db_item)
    have at1: "sess_at g (sess_delete iid (session_local g)) = sess_delete iid (session_local g)"
      by (simp add: sess_at_eq)
    with Inr Some show ?thesis
      by (cases "sess_commit (sess_delete iid (session_local g))")
         (auto simp: numeral_eq_Suc get_db_def delete_item_def finished_def finish_def sess_close_def)
  qed
qed

lemma read_handlers_session:
  "read_items skip limit s = (r, s') \<Longrightarrow> s' = s" "read_item iid s = (r', s'') \<Longrightarrow> s'' = s"
  by (auto simp: read_items_def read_item_def split: sum.splits option.splits)

lemma commit_single:
  "s_pending s = [p] \<Longrightarrow> sess_commit s =
     (case flush_one (s_db s) p of Inl e \<Rightarrow> Inl e | Inr (ks, d') \<Rightarrow> Inr (ks, s\<lparr>s_db := d', s_pending := []\<rparr>))"
  by (simp add: sess_commit_def split: sum.split prod.split)

lemma flush_one_wf:
  assumes "db_wf g" and "pending_ok p" and "flush_one g p = Inr (ks, g')"
  shows "db_wf g' \<and> has_table g' = has_table g"
proof (cases p)
  case (PendingInsert obj)
  with assms obtain k where ins: "sql_insert obj g = Inr (k, g')" and "ks = [k]"
    by (auto split: sum.splits prod.splits)
  with assms(1,2) PendingInsert show ?thesis
    using sql_insert_wf [OF assms(1) ins] by (auto simp: sql_insert_Inr)
next
  case (PendingUpdate k old obj)
  show ?thesis
  proof (cases "changed_cols old obj = []")
    case True
    with assms(1,3) PendingUpdate show ?thesis by simp
  next
    case False
    with assms(3) PendingUpdate have "has_table g" by (auto simp: sql_update_def split: if_splits)
    with assms(3) PendingUpdate False have g': "g' = g\<lparr>rows := map (\<lambda>r. if db_id r = Some k
        then foldl set_col r (changed_cols old obj) else r) (rows g)\<rparr>"
      by (auto simp: sql_update_Inr split: if_splits)
    have "db_wf g'" unfolding g'
    proof (rule update_rows_wf [OF assms(1)])
      fix x assume "x \<in> set (rows g)"
      with assms(1) have "db_nome x \<noteq> None \<and> db_preco x \<noteq> None" by (auto simp: db_wf_def list_all_iff row_ok_def)
      with assms(2) PendingUpdate show "db_nome (foldl set_col x (changed_cols old obj)) \<noteq> None \<and>
          db_preco (foldl set_col x (changed_cols old obj)) \<noteq> None" by (simp add: changed_cols_apply)
    qed simp
    with g' show ?thesis by simp
  qed
next
  case (PendingDelete k)
  with assms(3) have t: "has_table g" by (auto simp: sql_delete_def split: if_splits)
  with assms PendingDelete have "g' = g\<lparr>rows := filter (\<lambda>r. db_id r \<noteq> Some k) (rows g)\<rparr>"
    by (auto simp: sql_delete_Inr)
  with assms(1) show ?thesis by (simp add: delete_rows_wf)
qed

lemma flush_one_abs:
  assumes "db_wf g" and "pending_ok p" and "flush_one g p = Inr (ks, g')"
  shows "store_write (abs_db g) (abs_db g')"
proof (cases p)
  case (PendingInsert obj)
  with assms(2) obtain n pr where np: "db_nome obj = Some n" "db_preco obj = Some pr" by auto
  from assms(3) PendingInsert obtain k where "sql_insert obj g = Inr (k, g')"
    by (auto split: sum.splits prod.splits)
  then have g': "g' = g\<lparr>last_value := k, rows := rows g @ [obj\<lparr>db_id := Some k\<rparr>]\<rparr>" and "k = last_value g + 1"
    by (auto simp: sql_insert_Inr)
  then have fresh: "Some k \<notin> db_id ` set (rows g)" using wf_fresh_key [OF assms(1)] by simp
  have row: "obj\<lparr>db_id := Some k\<rparr> = \<lparr>db_id = Some k, db_nome = Some n, db_descricao = db_descricao obj,
      db_preco = Some pr\<rparr>"
    using np by (cases obj) simp
  have "abs_db g' = (abs_db g)(k \<mapsto> \<lparr>nome = n, descricao = db_descricao obj, preco = pr\<rparr>)"
    using abs_db_append_fresh [OF fresh, where n = k and v = "\<lparr>nome = n, descricao = db_descricao obj, preco = pr\<rparr>"]
      g' row by simp
  then show ?thesis by (simp add: store_write.put)
next
  case (PendingUpdate k old obj)
  show ?thesis
  proof (cases "changed_cols old obj = []")
    case True
    with assms(3) PendingUpdate show ?thesis by (simp add: store_write.keep)
  next
    case False
    define sets where "sets = changed_cols old obj"
    from assms(3) PendingUpdate False have t: "has_table g" by (auto simp: sql_update_def split: if_splits)
    with assms(3) PendingUpdate False have one: "length (filter (\<lambda>r. db_id r = Some k) (rows g)) = 1"
      and g': "g' = g\<lparr>rows := map (\<lambda>r. if db_id r = Some k then foldl set_col r sets else r) (rows g)\<rparr>"
      by (auto simp: sql_update_Inr sets_def split: if_splits)
    from one have "filter (\<lambda>r. db_id r = Some k) (rows g) \<noteq> []" by auto
    then obtain x where "x \<in> set (rows g)" and "db_id x = Some k" by (auto simp: filter_empty_conv)
    then have "Some k \<in> db_id ` set (rows g)" by (metis image_eqI)
    then obtain r where hit: "find (\<lambda>r. db_id r = Some k) (rows g) = Some r"
      by (cases "find (\<lambda>r. db_id r = Some k) (rows g)") (auto simp: find_key_None_iff)
    have rin: "r \<in> set (rows g)" and rid: "db_id r = Some k" using find_key_Some [OF hit] by auto
    have same: "map (\<lambda>x. if db_id x = Some k then foldl set_col x sets else x) (rows g) =
        map (\<lambda>x. if db_id x = Some k then foldl set_col r sets else x) (rows g)"
      using assms(1) hit by (intro map_key_single) (simp_all add: db_wf_def)
    from assms(1) rin have "db_nome r \<noteq> None \<and> db_preco r \<noteq> None" by (auto simp: db_wf_def list_all_iff row_ok_def)
    with assms(2) PendingUpdate have "db_nome (foldl set_col r sets) \<noteq> None \<and> db_preco (foldl set_col r sets) \<noteq> None"
      by (simp add: sets_def changed_cols_apply)
    then obtain n pr where
      np: "db_nome (foldl set_col r sets) = Some n" "db_preco (foldl set_col r sets) = Some pr" by auto
    define v where "v = \<lparr>nome = n, descricao = db_descricao (foldl set_col r sets), preco = pr\<rparr>"
    have row: "foldl set_col r sets = r\<lparr>db_nome := Some (nome v), db_descricao := descricao v, db_preco := Some (preco v)\<rparr>"
      using itemdb_same_id [of "foldl set_col r sets" r] np by (simp add: v_def)
    have "abs_db g' = (abs_db g)(k \<mapsto> v)"
      using abs_db_update [OF hit, of v, folded row] g' same by simp
    then show ?thesis by (simp add: store_write.put)
  qed
next
  case (PendingDelete k)
  with assms(3) have t: "has_table g" by (auto simp: sql_delete_def split: if_splits)
  with assms(3) PendingDelete have "g' = g\<lparr>rows := filter (\<lambda>r. db_id r \<noteq> Some k) (rows g)\<rparr>"
    by (auto simp: sql_delete_Inr)
  then have "abs_db g' = (abs_db g)(k := None)" by (simp add: abs_db_delete)
  then show ?thesis by (simp add: store_write.remove)
qed

lemma commit_ok:
  assumes "db_wf g" and "s_pending s = [p]" and "pending_ok p" and "sess_commit (sess_at g s) = Inr (ks, s2)"
  shows "db_wf (s_db s2) \<and> has_table (s_db s2) = has_table g \<and> s_pending s2 = [] \<and>
    store_write (abs_db g) (abs_db (s_db s2))"
proof -
  from assms(2,4) obtain g' where f: "flush_one g p = Inr (ks, g')" and s2: "s2 = (sess_at g s)\<lparr>s_db := g', s_pending := []\<rparr>"
    by (auto simp: commit_single sess_at_def split: sum.splits prod.splits)
  from flush_one_wf [OF assms(1,3) f] flush_one_abs [OF assms(1,3) f] s2 show ?thesis by simp
qed

lemma finished_ok: "finished f r s g = (t', g') \<Longrightarrow> thread_ok t' \<and> g' = g"
  by (auto simp: finished_def sess_close_def)

lemma thread_ok_pending:
  "thread_ok (CreateCommit h, s) \<Longrightarrow> \<exists>q. s_pending s = [q] \<and> pending_ok q"
  "thread_ok (UpdateCommit k, s) \<Longrightarrow> \<exists>q. s_pending s = [q] \<and> pending_ok q"
  "thread_ok (DeleteCommit, s) \<Longrightarrow> \<exists>q. s_pending s = [q] \<and> pending_ok q"
  by (auto split: list.splits pending.splits; metis neq_Nil_conv)+

lemma commit_branch_ok:
  assumes "db_wf g" and "s_pending s = [q]" and "pending_ok q"
    and "(case sess_commit (sess_at g s) of Inl e \<Rightarrow> F e | Inr (ks, s2) \<Rightarrow> G ks s2) = (t', g')"
    and "\<And>e t' g'. F e = (t', g') \<Longrightarrow> thread_ok t' \<and> g' = g"
    and "\<And>ks s2 t' g'. G ks s2 = (t', g') \<Longrightarrow> s_pending s2 = [] \<Longrightarrow> thread_ok t' \<and> g' = s_db s2"
  shows "db_wf g' \<and> has_table g' = has_table g \<and> thread_ok t' \<and> store_write (abs_db g) (abs_db g')"
proof (cases "sess_commit (sess_at g s)")
  case (Inl e)
  with assms(1,4,5) show ?thesis by (auto intro: store_write.keep)
next
  case (Inr r)
  then obtain ks s2 where c: "sess_commit (sess_at g s) = Inr (ks, s2)" by (cases r) auto
  have ok: "db_wf (s_db s2) \<and> has_table (s_db s2) = has_table g \<and> s_pending s2 = [] \<and>
      store_write (abs_db g) (abs_db (s_db s2))"
    by (rule commit_ok [OF assms(1-3) c])
  from assms(4) c have "G ks s2 = (t', g')" by simp
  with assms(6) ok have "thread_ok t' \<and> g' = s_db s2" by blast
  with ok show ?thesis by simp
qed

lemma tstep_ok:
  assumes "db_wf g" and "thread_ok t" and "tstep t g = (t', g')"
  shows "db_wf g' \<and> has_table g' = has_table g \<and> thread_ok t' \<and> store_write (abs_db g) (abs_db g')"
proof (cases t)
  case (Pair p s)
  show ?thesis
  proof (cases p)
    case (CreateCommit h)
    with assms(2) Pair obtain q where q: "s_pending s = [q]" "pending_ok q" using thread_ok_pending(1) by blast
    show ?thesis using assms(3) Pair CreateCommit
      by (intro commit_branch_ok [OF assms(1) q,
            where F = "\<lambda>e. finished item_response (Inl (DBException e)) (sess_at g s) g"
              and G = "\<lambda>ks s2. ((CreateRefresh (ks ! h), s2), s_db s2)"]) (auto dest: finished_ok)
  next
    case (UpdateCommit k)
    with assms(2) Pair obtain q where q: "s_pending s = [q]" "pending_ok q" using thread_ok_pending(2) by blast
    show ?thesis using assms(3) Pair UpdateCommit
      by (intro commit_branch_ok [OF assms(1) q,
            where F = "\<lambda>e. finished item_response (Inl (DBException e)) (sess_at g s) g"
              and G = "\<lambda>ks s2. ((UpdateRefresh k, s2), s_db s2)"]) (auto dest: finished_ok)
  next
    case DeleteCommit
    with assms(2) Pair obtain q where q: "s_pending s = [q]" "pending_ok q" using thread_ok_pending(3) by blast
    show ?thesis using assms(3) Pair DeleteCommit
      by (intro commit_branch_ok [OF assms(1) q,
            where F = "\<lambda>e. finished message_response (Inl (DBException e)) (sess_at g s) g"
              and G = "\<lambda>ks s2. finished message_response (Inr deleted_message) s2 (s_db s2)"])
         (auto dest: finished_ok)
  qed (use assms Pair in \<open>auto simp: sess_add_def sess_set_dirty_def sess_delete_def sess_at_def
         setattr_item_dict kwargs_item_dict intro: store_write.keep dest: finished_ok
         split: sum.splits option.splits prod.splits\<close>)
qed

lemma start_ok: "thread_ok (start sf req g)"
  by (simp add: start_def session_local_def split: request.split sum.split)

lemma cstep_ok:
  assumes "cstep sf (g, ts) (g', ts')" and "db_wf g" and "list_all thread_ok ts"
  shows "db_wf g' \<and> has_table g' = has_table g \<and> list_all thread_ok ts'"
  using assms
proof (cases rule: cstep.cases)
  case (arrive req)
  with assms(2,3) show ?thesis by (simp add: start_ok)
next
  case (run i t')
  with assms(3) have "thread_ok (ts ! i)" by (simp add: list_all_length)
  from tstep_ok [OF assms(2) this run(3)] run assms(3) show ?thesis
    by (simp add: list_all_length nth_list_update)
qed

lemma sched_step_cstep: "(cstep sf)\<^sup>*\<^sup>* c (sched_step sf ev c)"
proof (cases c)
  case (Pair g ts)
  then show ?thesis
    by (cases ev) (auto intro: cstep.arrive cstep.run split: prod.split)
qed

lemma sched_step_run: "i < length ts \<Longrightarrow> cstep sf (g, ts) (sched_step sf (Run i) (g, ts))"
  by (auto intro: cstep.run split: prod.split)

lemma exec_sched_cstep: "(cstep sf)\<^sup>*\<^sup>* c (exec_sched sf evs c)"
proof (induction evs arbitrary: c)
  case Nil
  then show ?case by (simp add: exec_sched_def)
next
  case (Cons ev evs)
  from sched_step_cstep [of sf c ev] Cons.IH [of "sched_step sf ev c"] show ?case
    by (simp add: exec_sched_def)
qed

lemma concurrent_inv:
  assumes "(cstep sf)\<^sup>*\<^sup>* (d, []) (g, ts)" and "db_wf d"
  shows "db_wf g \<and> has_table g = has_table d \<and> list_all thread_ok ts"
  using assms(1)
proof (induction rule: rtranclp_induct2)
  case refl
  with assms(2) show ?case by simp
next
  case (step g1 ts1 g2 ts2)
  with cstep_ok [OF step.hyps(2)] show ?case by simp
qed

text \<open>
  A request served alone, its statements one after the other with no other request in
  between, gives exactly the response and the database of the sequential model \<open>app\<close>.
\<close>

lemma run_alone_app:
  "fst (fst (run_alone 3 (start sf req g) g)) = Done (fst (app sf req g)) \<and>
   snd (run_alone 3 (start sf req g) g) = snd (app sf req g)"
proof (cases req)
  case (CreateReq body)
  then show ?thesis using run_alone_create
    by (cases "validate_item_create sf body") (simp_all add: start_def app_def)
next
  case (UpdateReq iid body)
  then show ?thesis using run_alone_update
    by (cases "validate_item_create sf body") (simp_all add: start_def app_def)
next
  case (DeleteReq iid)
  then show ?thesis using run_alone_delete by (simp add: start_def app_def)
qed (auto simp: start_def app_def numeral_eq_Suc get_db_def finished_def finish_def sess_close_def
       dest: read_handlers_session split: prod.split)

subsection \<open>Properties of concurrent service\<close>

text \<open>
  C15. Writes are atomic: under any interleaving, each statement of each request changes
  the stored items (\<open>abs_db\<close>) by at most one write, an item put under one id or one
  id removed, so the concurrent service is a sequence of single-item writes.
\<close>

theorem statement_atomic:
  assumes "(cstep sf)\<^sup>*\<^sup>* (d, []) (g, ts)" and "db_wf d" and "cstep sf (g, ts) (g', ts')"
  shows "store_write (abs_db g) (abs_db g')"
proof -
  from concurrent_inv [OF assms(1,2)] have wf: "db_wf g" and ok: "list_all thread_ok ts" by auto
  from assms(3) show ?thesis
  proof (cases rule: cstep.cases)
    case (arrive req)
    then show ?thesis by (simp add: store_write.keep)
  next
    case (run i t')
    with ok have "thread_ok (ts ! i)" by (simp add: list_all_length)
    from tstep_ok [OF wf this run(3)] run show ?thesis by simp
  qed
qed

theorem statement_atomic_witness:
  "store_write
     (abs_db (fst (exec_sched (\<lambda>_. None) [Arrive (DeleteReq 1), Run 0]
        (\<lparr>has_table = True, rows = [\<lparr>db_id = Some 1, db_nome = Some ''Pen'', db_descricao = None,
                                      db_preco = Some (Fin 2)\<rparr>], last_value = 1\<rparr>, []))))
     (abs_db (fst (exec_sched (\<lambda>_. None) [Arrive (DeleteReq 1), Run 0, Run 0]
        (\<lparr>has_table = True, rows = [\<lparr>db_id = Some 1, db_nome = Some ''Pen'', db_descricao = None,
                                      db_preco = Some (Fin 2)\<rparr>], last_value = 1\<rparr>, []))))"
proof -
  let ?g = "\<lparr>has_table = True, rows = [\<lparr>db_id = Some 1, db_nome = Some ''Pen'', db_descricao = None,
                                     db_preco = Some (Fin 2)\<rparr>], last_value = 1\<rparr> :: db"
  obtain g1 ts1 where e1: "exec_sched (\<lambda>_. None) [Arrive (DeleteReq 1), Run 0] (?g, []) = (g1, ts1)"
    by (cases "exec_sched (\<lambda>_. None) [Arrive (DeleteReq 1), Run 0] (?g, [])")
  have h2: "db_wf ?g" by (simp add: witness_defs)
  have h1: "(cstep (\<lambda>_. None))\<^sup>*\<^sup>* (?g, []) (g1, ts1)" using exec_sched_cstep [of "\<lambda>_. None" "(?g, [])"] e1 by metis
  have e1': "ts1 = [(DeleteCommit, sess_delete 1 (session_local ?g))] \<and> g1 = ?g"
    using e1 by (auto simp: exec_sched_def start_def sess_at_def session_local_def sess_query_first_def sql_select_id_def)
  obtain g2 ts2 where e2: "sched_step (\<lambda>_. None) (Run 0) (g1, ts1) = (g2, ts2)"
    by (cases "sched_step (\<lambda>_. None) (Run 0) (g1, ts1)")
  have "cstep (\<lambda>_. None) (g1, ts1) (sched_step (\<lambda>_. None) (Run 0) (g1, ts1))"
    using e1' by (intro sched_step_run) simp
  then have h3: "cstep (\<lambda>_. None) (g1, ts1) (g2, ts2)" unfolding e2 .
  have "exec_sched (\<lambda>_. None) [Arrive (DeleteReq 1), Run 0, Run 0] (?g, []) = (g2, ts2)"
    using e1 e2 by (simp add: exec_sched_def)
  with statement_atomic [OF h1 h2 h3] e1 show ?thesis by simp
qed

text \<open>
  C14. Whatever the interleaving of requests and statements, the database stays
  well-formed (keys unique and handed out by the sequence, the 32-bit bound kept, no NULL
  name or price), the table is never dropped, and every thread in flight has pending only
  the work its handler queued.
\<close>

theorem concurrent_wf:
  assumes "(cstep sf)\<^sup>*\<^sup>* (d, []) (g, ts)" and "db_wf d"
  shows "db_wf g \<and> has_table g = has_table d \<and> list_all thread_ok ts \<and>
         (\<forall>r \<in> set (rows g). \<exists>it. item_of_orm r = Inr it)"
  using concurrent_inv [OF assms] wf_item_of_orm by blast

theorem concurrent_wf_witness:
  "db_wf (fst (exec_sched (\<lambda>_. None) [Arrive (DeleteReq 1), Arrive (GetReq 1), Run 1, Run 0, Run 0]
     (\<lparr>has_table = True, rows = [\<lparr>db_id = Some 1, db_nome = Some ''Pen'', db_descricao = None,
                                   db_preco = Some (Fin 2)\<rparr>], last_value = 1\<rparr>, [])))"
proof -
  let ?g = "\<lparr>has_table = True, rows = [\<lparr>db_id = Some 1, db_nome = Some ''Pen'', db_descricao = None,
                                     db_preco = Some (Fin 2)\<rparr>], last_value = 1\<rparr> :: db"
  let ?evs = "[Arrive (DeleteReq 1), Arrive (GetReq 1), Run 1, Run 0, Run 0]"
  obtain g ts where e: "exec_sched (\<lambda>_. None) ?evs (?g, []) = (g, ts)"
    by (cases "exec_sched (\<lambda>_. None) ?evs (?g, [])")
  have h1: "(cstep (\<lambda>_. None))\<^sup>*\<^sup>* (?g, []) (g, ts)" using exec_sched_cstep [of "\<lambda>_. None" "(?g, [])" ?evs] e by simp
  have h2: "db_wf ?g" by (simp add: witness_defs)
  from concurrent_wf [OF h1 h2] e show ?thesis by simp
qed

text \<open>
  C16. A PUT racing a DELETE of the same item: when the DELETE commits between the PUT's
  query and its commit, the PUT answers 500 (not 404) while the DELETE answers 200. If
  the PUT changes a column, its UPDATE matches no row and SQLAlchemy raises
  StaleDataError at the commit; if it changes none, no UPDATE is sent and the
  \<^verbatim>\<open>db.refresh\<close> after the commit finds the row gone. Either way the PUT is answered
  after its third statement.
\<close>

theorem put_delete_race:
  assumes "has_table g" and "find (\<lambda>r. db_id r = Some k) (rows g) = Some r"
    and "validate_item_create sf body = Inr v"
  shows "\<exists>ts. exec_sched sf [Arrive (UpdateReq k body), Arrive (DeleteReq k), Run 0, Run 1, Run 1, Run 0, Run 0]
               (g, []) =
             (g\<lparr>rows := filter (\<lambda>r. db_id r \<noteq> Some k) (rows g)\<rparr>, ts) \<and>
           map fst ts = [Done internal_error, Done (message_response deleted_message)]"
  using assms
  by (cases "changed_cols r (foldl setattr_itemdb r (item_dict v)) = []")
     (simp_all add: exec_sched_def start_def sess_at_def session_local_def sess_query_first_def sql_select_id_Inr
      sess_set_dirty_def sess_delete_def commit_single sql_delete_Inr sql_update_Inr finished_def finish_def
      exc_response_def sess_close_def filter_key_unchanged sess_refresh_def find_key_filter)

theorem put_delete_race_witness:
  "\<exists>ts. exec_sched (\<lambda>_. None)
        [Arrive (UpdateReq 1 (Some (PDict [(''nome'', PStr ''Ink''), (''preco'', PInt 3)]))), Arrive (DeleteReq 1),
         Run 0, Run 1, Run 1, Run 0, Run 0]
        (\<lparr>has_table = True, rows = [\<lparr>db_id = Some 1, db_nome = Some ''Pen'', db_descricao = None,
                                      db_preco = Some (Fin 2)\<rparr>], last_value = 1\<rparr>, []) =
      (\<lparr>has_table = True, rows = [], last_value = 1\<rparr>, ts) \<and>
      map fst ts = [Done internal_error, Done (message_response deleted_message)]"
proof -
  let ?row = "\<lparr>db_id = Some 1, db_nome = Some ''Pen'', db_descricao = None, db_preco = Some (Fin 2)\<rparr> :: itemdb"
  let ?g = "\<lparr>has_table = True, rows = [?row], last_value = 1\<rparr> :: db"
  have h1: "has_table ?g" and h2: "find (\<lambda>r. db_id r = Some 1) (rows ?g) = Some ?row" by simp_all
  have h3: "validate_item_create (\<lambda>_. None) (Some (PDict [(''nome'', PStr ''Ink''), (''preco'', PInt 3)])) =
      Inr \<lparr>nome = ''Ink'', descricao = None, preco = Fin 3\<rparr>" by (simp add: witness_defs)
  from put_delete_race [OF h1 h2 h3] show ?thesis by simp
qed

text \<open>
  C23. Two DELETEs of the same item that both query before either commits both answer
  200 with the confirmation message: the second DELETE matches no row, which SQLAlchemy
  only warns about, so no client sees the 404.
\<close>

theorem double_delete_both_200:
  assumes "has_table g" and "find (\<lambda>r. db_id r = Some k) (rows g) = Some r"
  shows "\<exists>ts. exec_sched sf [Arrive (DeleteReq k), Arrive (DeleteReq k), Run 0, Run 1, Run 0, Run 1] (g, []) =
             (g\<lparr>rows := filter (\<lambda>r. db_id r \<noteq> Some k) (rows g)\<rparr>, ts) \<and>
           map fst ts = [Done (message_response deleted_message), Done (message_response deleted_message)]"
  using assms
  by (simp add: exec_sched_def start_def sess_at_def session_local_def sess_query_first_def sql_select_id_Inr
      sess_delete_def commit_single sql_delete_Inr finished_def finish_def sess_close_def filter_key_unchanged)

theorem double_delete_both_200_witness:
  "\<exists>ts. exec_sched (\<lambda>_. None) [Arrive (DeleteReq 1), Arrive (DeleteReq 1), Run 0, Run 1, Run 0, Run 1]
        (\<lparr>has_table = True, rows = [\<lparr>db_id = Some 1, db_nome = Some ''Pen'', db_descricao = None,
                                      db_preco = Some (Fin 2)\<rparr>], last_value = 1\<rparr>, []) =
      (\<lparr>has_table = True, rows = [], last_value = 1\<rparr>, ts) \<and>
      map fst ts = [Done (message_response deleted_message), Done (message_response deleted_message)]"
proof -
  let ?row = "\<lparr>db_id = Some 1, db_nome = Some ''Pen'', db_descricao = None, db_preco = Some (Fin 2)\<rparr> :: itemdb"
  let ?g = "\<lparr>has_table = True, rows = [?row], last_value = 1\<rparr> :: db"
  have h1: "has_table ?g" and h2: "find (\<lambda>r. db_id r = Some 1) (rows ?g) = Some ?row" by simp_all
  from double_delete_both_200 [OF h1 h2, of "\<lambda>_. None"] show ?thesis by simp
qed





end
