(* ===== verification/Routing.thy ===== *)
theory Routing
  imports Handlers
begin

text \<open>
  The router in front of the endpoints. \<^verbatim>\<open>app = FastAPI()\<close> (\<^verbatim>\<open>src/main.py\<close>, line 40)
  registers its documentation routes, then the decorators of lines 67, 75, 80, 87 and 100
  add one route each, in that order. A request is a method, a decoded path, the query
  string as a list of pairs and the body as decoded JSON. Starlette takes the first route
  whose path and method match; a route whose path matches with another method gives 405;
  otherwise, if the path with its trailing slash removed or added matches a route, the
  answer is a 307 redirect there; otherwise 404. Then FastAPI converts the path parameter
  \<^verbatim>\<open>item_id\<close> and the query parameters \<^verbatim>\<open>skip\<close> and \<^verbatim>\<open>limit\<close> to \<^verbatim>\<open>int\<close> and validates the
  body, reporting the errors of all of them together (path, then query, then body) as
  one 422, before the endpoint runs. The parser of integer strings belongs to Pydantic
  and is a parameter \<open>str_int\<close> of the model, as \<open>str_float\<close> is for floats.
\<close>

subsection \<open>The route table\<close>

text \<open>A path template: a fixed path, or \<^verbatim>\<open>/items/{item_id}\<close> (a non-empty segment, no slash).\<close>

datatype tmpl = Exact string | ItemsMember

datatype endpoint = EpDocs | EpCreate | EpList | EpGet | EpUpdate | EpDelete

definition member_param :: "string \<Rightarrow> string option" where
  "member_param p =
     (if take 7 p = ''/items/'' \<and> drop 7 p \<noteq> [] \<and> CHR ''/'' \<notin> set (drop 7 p) then Some (drop 7 p) else None)"

fun tmpl_match :: "tmpl \<Rightarrow> string \<Rightarrow> bool" where
  "tmpl_match (Exact q) p = (p = q)"
| "tmpl_match ItemsMember p = (member_param p \<noteq> None)"

text \<open>
  The routes \<^verbatim>\<open>FastAPI()\<close> registers when the application is created (line 40): the
  OpenAPI schema and the documentation pages, each for GET and HEAD.
\<close>

definition docs_routes :: "(string list \<times> tmpl \<times> endpoint) list" where
  "docs_routes =
     [([''GET'', ''HEAD''], Exact ''/openapi.json'', EpDocs),
      ([''GET'', ''HEAD''], Exact ''/docs'', EpDocs),
      ([''GET'', ''HEAD''], Exact ''/docs/oauth2-redirect'', EpDocs),
      ([''GET'', ''HEAD''], Exact ''/redoc'', EpDocs)]"

text \<open>The decorators of lines 67, 75, 80, 87 and 100, in that order, each with its one method.\<close>

definition api_routes :: "(string list \<times> tmpl \<times> endpoint) list" where
  "api_routes =
     [([''POST''], Exact ''/items/'', EpCreate),
      ([''GET''], Exact ''/items/'', EpList),
      ([''GET''], ItemsMember, EpGet),
      ([''PUT''], ItemsMember, EpUpdate),
      ([''DELETE''], ItemsMember, EpDelete)]"

definition routes :: "(string list \<times> tmpl \<times> endpoint) list" where
  "routes = docs_routes @ api_routes"

subsection \<open>Dispatch\<close>

datatype dispatch = Matched endpoint | NotAllowed | RedirectPath string | NoRoute

text \<open>Starlette's \<^verbatim>\<open>redirect_slashes\<close>: strip every trailing slash, or add one.\<close>

definition slash_variant :: "string \<Rightarrow> string" where
  "slash_variant p =
     (if p \<noteq> [] \<and> last p = CHR ''/'' then rev (dropWhile (\<lambda>c. c = CHR ''/'') (rev p)) else p @ ''/'')"

definition path_routed :: "string \<Rightarrow> bool" where
  "path_routed p = list_ex (\<lambda>(_, t, _). tmpl_match t p) routes"

definition route_dispatch :: "string \<Rightarrow> string \<Rightarrow> dispatch" where
  "route_dispatch m p =
     (case find (\<lambda>(ms, t, _). tmpl_match t p \<and> m \<in> set ms) routes of
        Some (_, _, ep) \<Rightarrow> Matched ep
      | None \<Rightarrow>
          if path_routed p then NotAllowed
          else if p \<noteq> ''/'' \<and> path_routed (slash_variant p) then RedirectPath (slash_variant p)
          else NoRoute)"

subsection \<open>Parameters\<close>

record raw_request =
  r_method :: string
  r_path :: string
  r_query :: "(string \<times> string) list"
  r_body :: "pyval option"

text \<open>\<^verbatim>\<open>request.query_params.get(name)\<close>: the last value given for the name.\<close>

definition query_get :: "(string \<times> string) list \<Rightarrow> string \<Rightarrow> string option" where
  "query_get q name = map_of (rev q) name"

definition param_int ::
    "(string \<Rightarrow> py_int option) \<Rightarrow> string list \<Rightarrow> string option \<Rightarrow> verr list + py_int option" where
  "param_int str_int loc v =
     (case v of
        None \<Rightarrow> Inr None
      | Some s \<Rightarrow> (case str_int s of Some n \<Rightarrow> Inr (Some n) | None \<Rightarrow> Inl [(loc, IntParsing)]))"

definition body_errs :: "(string \<Rightarrow> py_float option) \<Rightarrow> pyval option \<Rightarrow> verr list" where
  "body_errs str_float b = (case validate_item_create str_float b of Inl es \<Rightarrow> es | Inr _ \<Rightarrow> [])"

fun errs_of :: "verr list + 'a \<Rightarrow> verr list" where
  "errs_of (Inl es) = es"
| "errs_of (Inr _) = []"

text \<open>
  FastAPI's \<^verbatim>\<open>solve_dependencies\<close> for a matched endpoint: the typed request, or all the
  errors of path, query and body. The body of POST is validated by \<open>app\<close>, which
  gives the same 422; that of PUT is validated here, so that its errors follow an error
  of \<^verbatim>\<open>item_id\<close>.
\<close>

definition to_request ::
    "(string \<Rightarrow> py_float option) \<Rightarrow> (string \<Rightarrow> py_int option) \<Rightarrow> endpoint \<Rightarrow> raw_request \<Rightarrow>
     verr list + request" where
  "to_request str_float str_int ep r =
     (let pid = param_int str_int [''path'', ''item_id''] (member_param (r_path r))
      in case ep of
        EpCreate \<Rightarrow> Inr (CreateReq (r_body r))
      | EpList \<Rightarrow>
          (case (param_int str_int [''query'', ''skip''] (query_get (r_query r) ''skip''),
                 param_int str_int [''query'', ''limit''] (query_get (r_query r) ''limit'')) of
             (Inr s, Inr l) \<Rightarrow> Inr (ListReq s l)
           | (rs, rl) \<Rightarrow> Inl (errs_of rs @ errs_of rl))
      | EpGet \<Rightarrow> (case pid of Inr (Some k) \<Rightarrow> Inr (GetReq k) | _ \<Rightarrow> Inl (errs_of pid))
      | EpUpdate \<Rightarrow>
          (case (pid, body_errs str_float (r_body r)) of
             (Inr (Some k), []) \<Rightarrow> Inr (UpdateReq k (r_body r))
           | (_, es) \<Rightarrow> Inl (errs_of pid @ es))
      | EpDelete \<Rightarrow> (case pid of Inr (Some k) \<Rightarrow> Inr (DeleteReq k) | _ \<Rightarrow> Inl (errs_of pid))
      | EpDocs \<Rightarrow> Inl [])"

subsection \<open>The served request\<close>

text \<open>
  What the client gets: a response, a 307 redirect to a path (empty body, the path in
  \<^verbatim>\<open>Location\<close>), or one of FastAPI's documentation pages (not modelled further).
\<close>

datatype http_answer = Answer response | RedirectTo string | DocsPage

definition serve ::
    "(string \<Rightarrow> py_float option) \<Rightarrow> (string \<Rightarrow> py_int option) \<Rightarrow> raw_request \<Rightarrow> db \<Rightarrow> http_answer \<times> db" where
  "serve str_float str_int r d =
     (case route_dispatch (r_method r) (r_path r) of
        Matched EpDocs \<Rightarrow> (DocsPage, d)
      | Matched ep \<Rightarrow>
          (case to_request str_float str_int ep r of
             Inl errs \<Rightarrow> (Answer (validation_answer (r_body r) errs), d)
           | Inr req \<Rightarrow> (case app str_float req d of (resp, d') \<Rightarrow> (Answer resp, d')))
      | NotAllowed \<Rightarrow> (Answer (Response 405 (PDict [(''detail'', PStr ''Method Not Allowed'')])), d)
      | RedirectPath p \<Rightarrow> (RedirectTo p, d)
      | NoRoute \<Rightarrow> (Answer (Response 404 (PDict [(''detail'', PStr ''Not Found'')])), d))"

subsection \<open>Canonical requests\<close>

text \<open>
  How a client writes a typed request on the wire: integers in Python's decimal
  notation (\<^verbatim>\<open>str(int)\<close>), absent query parameters left out. \<open>decimal_int\<close> is one
  parser of integer strings (an optional minus sign, then decimal digits).
\<close>

definition digit_char :: "nat \<Rightarrow> char" where
  "digit_char n = ''0123456789'' ! n"

fun nat_digits :: "nat \<Rightarrow> string" where
  "nat_digits n = (if n < 10 then [digit_char n] else nat_digits (n div 10) @ [digit_char (n mod 10)])"

declare nat_digits.simps [simp del]

definition int_str :: "int \<Rightarrow> string" where
  "int_str k = (if k < 0 then CHR ''-'' # nat_digits (nat (- k)) else nat_digits (nat k))"

definition digit_val :: "char \<Rightarrow> nat option" where
  "digit_val c = (let n = (of_char c :: nat) in if 48 \<le> n \<and> n \<le> 57 then Some (n - 48) else None)"

fun digits_val :: "nat \<Rightarrow> string \<Rightarrow> nat option" where
  "digits_val acc [] = Some acc"
| "digits_val acc (c # cs) = (case digit_val c of None \<Rightarrow> None | Some v \<Rightarrow> digits_val (10 * acc + v) cs)"

definition decimal_int :: "string \<Rightarrow> int option" where
  "decimal_int s =
     (if s = [] then None
      else if hd s = CHR ''-'' then
        (if tl s = [] then None else map_option (\<lambda>n. - int n) (digits_val 0 (tl s)))
      else map_option int (digits_val 0 s))"

fun raw_of :: "request \<Rightarrow> raw_request" where
  "raw_of (CreateReq b) = \<lparr>r_method = ''POST'', r_path = ''/items/'', r_query = [], r_body = b\<rparr>"
| "raw_of (ListReq s l) =
     \<lparr>r_method = ''GET'', r_path = ''/items/'',
      r_query = (case s of None \<Rightarrow> [] | Some n \<Rightarrow> [(''skip'', int_str n)]) @
                (case l of None \<Rightarrow> [] | Some n \<Rightarrow> [(''limit'', int_str n)]),
      r_body = None\<rparr>"
| "raw_of (GetReq k) = \<lparr>r_method = ''GET'', r_path = ''/items/'' @ int_str k, r_query = [], r_body = None\<rparr>"
| "raw_of (UpdateReq k b) = \<lparr>r_method = ''PUT'', r_path = ''/items/'' @ int_str k, r_query = [], r_body = b\<rparr>"
| "raw_of (DeleteReq k) = \<lparr>r_method = ''DELETE'', r_path = ''/items/'' @ int_str k, r_query = [], r_body = None\<rparr>"

subsection \<open>Lemmas\<close>

lemma digit_val_char: "n < 10 \<Longrightarrow> digit_val (digit_char n) = Some n"
  by (auto simp: digit_char_def digit_val_def less_Suc_eq eval_nat_numeral)

lemma digits_val_append:
  "digits_val acc (xs @ ys) = (case digits_val acc xs of None \<Rightarrow> None | Some a \<Rightarrow> digits_val a ys)"
  by (induction acc xs rule: digits_val.induct) (auto split: option.split)

lemma nat_digits_val: "digits_val 0 (nat_digits n) = Some n"
proof (induction n rule: nat_digits.induct)
  case (1 n)
  show ?case
  proof (cases "n < 10")
    case True
    then show ?thesis by (simp add: digit_val_char nat_digits.simps [of n])
  next
    case False
    then have "digits_val 0 (nat_digits n) = digits_val (n div 10) [digit_char (n mod 10)]"
      using "1.IH" by (simp add: digits_val_append nat_digits.simps [of n])
    then show ?thesis by (simp add: digit_val_char)
  qed
qed

lemma nat_digits_chars: "c \<in> set (nat_digits n) \<Longrightarrow> digit_val c \<noteq> None"
proof (induction n rule: nat_digits.induct)
  case (1 n)
  then show ?case by (cases "n < 10") (auto simp: digit_val_char nat_digits.simps [of n])
qed

lemma nat_digits_ne: "nat_digits n \<noteq> []"
  by (simp add: nat_digits.simps [of n])

lemma int_str_chars: "int_str k \<noteq> [] \<and> CHR ''/'' \<notin> set (int_str k)"
proof -
  have "digit_val CHR ''/'' = None" by (simp add: digit_val_def)
  then have "CHR ''/'' \<notin> set (nat_digits n)" for n using nat_digits_chars by fastforce
  then show ?thesis by (simp add: int_str_def nat_digits_ne)
qed

lemma decimal_int_str: "decimal_int (int_str k) = Some k"
proof (cases "k < 0")
  case True
  then show ?thesis by (simp add: int_str_def decimal_int_def nat_digits_ne nat_digits_val)
next
  case False
  have "digit_val CHR ''-'' = None" by (simp add: digit_val_def)
  then have "hd (nat_digits (nat k)) \<noteq> CHR ''-''"
    using nat_digits_chars [of "hd (nat_digits (nat k))" "nat k"] nat_digits_ne [of "nat k"] by auto
  with False show ?thesis by (simp add: int_str_def decimal_int_def nat_digits_ne nat_digits_val)
qed

lemma member_param_Some:
  "member_param p = Some x \<longleftrightarrow> p = ''/items/'' @ x \<and> x \<noteq> [] \<and> CHR ''/'' \<notin> set x"
proof
  assume "member_param p = Some x"
  then show "p = ''/items/'' @ x \<and> x \<noteq> [] \<and> CHR ''/'' \<notin> set x"
    by (metis append_take_drop_id member_param_def option.distinct(1) option.inject)
qed (simp add: member_param_def)

lemmas route_simps = route_dispatch_def routes_def docs_routes_def api_routes_def path_routed_def slash_variant_def

lemma dispatch_member:
  assumes "x \<noteq> []" and "CHR ''/'' \<notin> set x"
  shows "route_dispatch m (''/items/'' @ x) =
    (if m = ''GET'' then Matched EpGet else if m = ''PUT'' then Matched EpUpdate
     else if m = ''DELETE'' then Matched EpDelete else NotAllowed)"
proof -
  have "member_param (''/items/'' @ x) = Some x" using assms by (simp add: member_param_Some)
  with assms show ?thesis by (simp add: route_simps)
qed

lemma dispatch_collection:
  "route_dispatch m ''/items/'' =
    (if m = ''POST'' then Matched EpCreate else if m = ''GET'' then Matched EpList else NotAllowed)"
  by (simp add: route_simps member_param_def)

lemma validate_errs_ne: "validate_item_create sf b = Inl es \<Longrightarrow> es \<noteq> []"
  by (auto simp: validate_item_create_def Let_def field_errs_def split: option.splits pyval.splits sum.splits)

lemma serve_matched:
  assumes "route_dispatch (r_method r) (r_path r) = Matched ep" and "ep \<noteq> EpDocs"
  shows "serve sf si r d =
    (case to_request sf si ep r of
       Inl errs \<Rightarrow> (Answer (validation_answer (r_body r) errs), d)
     | Inr req \<Rightarrow> (Answer (fst (app sf req d)), snd (app sf req d)))"
  using assms by (cases ep) (simp_all add: serve_def split: sum.split prod.split)

lemma member_int_str: "route_dispatch m (''/items/'' @ int_str k) =
    (if m = ''GET'' then Matched EpGet else if m = ''PUT'' then Matched EpUpdate
     else if m = ''DELETE'' then Matched EpDelete else NotAllowed) \<and>
  member_param (''/items/'' @ int_str k) = Some (int_str k)"
  using dispatch_member [of "int_str k" m] int_str_chars [of k] by (simp add: member_param_Some)

lemma routed_prefix: "path_routed q \<Longrightarrow> take 5 q \<in> {''/item'', ''/docs'', ''/redo'', ''/open''}"
proof -
  assume "path_routed q"
  moreover have "member_param q \<noteq> None \<Longrightarrow> take 5 q = ''/item''"
  proof -
    assume "member_param q \<noteq> None"
    then have "take 7 q = ''/items/''" by (simp add: member_param_def split: if_splits)
    then have "take 5 (take 7 q) = ''/item''" by simp
    then show ?thesis by (simp add: min_def)
  qed
  ultimately show ?thesis by (auto simp: path_routed_def routes_def docs_routes_def api_routes_def)
qed

lemma variant_prefix:
  assumes "path_routed (slash_variant p)"
  shows "take 5 p \<in> {''/item'', ''/docs'', ''/redo'', ''/open''}"
proof (cases "p \<noteq> [] \<and> last p = CHR ''/''")
  case True
  let ?s = "rev (dropWhile (\<lambda>c. c = CHR ''/'') (rev p))"
  have p: "p = ?s @ rev (takeWhile (\<lambda>c. c = CHR ''/'') (rev p))"
    by (metis rev_append rev_rev_ident takeWhile_dropWhile_id)
  have pre: "take 5 ?s \<in> {''/item'', ''/docs'', ''/redo'', ''/open''}"
    using routed_prefix assms True by (simp add: slash_variant_def)
  then have "5 \<le> length ?s" by (auto dest: arg_cong [of _ _ length])
  then have "take 5 p = take 5 ?s" by (subst p) simp
  with pre show ?thesis by simp
next
  case False
  then have "slash_variant p = p @ ''/''" by (auto simp: slash_variant_def)
  then have pre: "take 5 (p @ ''/'') \<in> {''/item'', ''/docs'', ''/redo'', ''/open''}"
    using routed_prefix [of "p @ ''/''"] assms by simp
  show ?thesis
  proof (cases "5 \<le> length p")
    case long: True
    from pre long show ?thesis by simp
  next
    case False
    then have "take 5 (p @ ''/'') = p @ ''/''" by simp
    with pre have "last (take 5 (p @ ''/'')) = CHR ''/''" by simp
    with pre show ?thesis by auto
  qed
qed

lemma dispatch_unrouted:
  "\<not> path_routed p \<Longrightarrow> route_dispatch m p =
     (if p \<noteq> ''/'' \<and> path_routed (slash_variant p) then RedirectPath (slash_variant p) else NoRoute)"
proof -
  assume "\<not> path_routed p"
  then have "find (\<lambda>(ms, t, _). tmpl_match t p \<and> m \<in> set ms) routes = None"
    by (auto simp: find_None_iff path_routed_def list_ex_iff)
  then show ?thesis using \<open>\<not> path_routed p\<close> by (simp add: route_dispatch_def)
qed

lemma member_slash:
  assumes "x \<noteq> []" and "CHR ''/'' \<notin> set x"
  shows "route_dispatch m (''/items/'' @ x @ ''/'') = RedirectPath (''/items/'' @ x)"
proof -
  obtain y ys where rx: "rev x = y # ys" using assms(1) by (cases "rev x") auto
  then have x: "x = rev ys @ [y]" by (metis rev_rev_ident rev.simps(2))
  have y: "y \<noteq> CHR ''/''" using assms(2) x by auto
  have "slash_variant (''/items/'' @ x @ ''/'') = ''/items/'' @ x"
    using rx y x by (simp add: slash_variant_def)
  moreover have "member_param (''/items/'' @ x @ ''/'') = None" by (simp add: member_param_def)
  moreover have "member_param (''/items/'' @ x) = Some x" using assms by (simp add: member_param_Some)
  ultimately show ?thesis using assms(1) by (simp add: route_simps)
qed

subsection \<open>Properties of the router\<close>

text \<open>
  C17. The router is a faithful front of the application: for any parser of integer
  strings that reads back Python's decimal notation, every typed request written on the
  wire the way a client writes it (method and path of its route, integers in decimal,
  absent query parameters left out) gets exactly the response and the database of
  \<open>app\<close>.
\<close>

theorem canonical_requests_reach_app:
  assumes "\<forall>k. str_int (int_str k) = Some k"
  shows "serve sf str_int (raw_of req) d = (Answer (fst (app sf req d)), snd (app sf req d))"
proof (cases req)
  case (CreateReq b)
  then show ?thesis by (simp add: serve_matched dispatch_collection to_request_def)
next
  case (ListReq s l)
  then show ?thesis
    using assms by (cases s; cases l) (simp_all add: serve_matched dispatch_collection to_request_def
      query_get_def param_int_def)
next
  case (GetReq k)
  then show ?thesis using assms member_int_str [of _ k] by (simp add: serve_matched to_request_def param_int_def)
next
  case (UpdateReq k b)
  then show ?thesis
    using assms validate_errs_ne [of sf b] member_int_str [of _ k]
    by (cases "validate_item_create sf b")
       (simp_all add: serve_matched to_request_def param_int_def body_errs_def app_def split: list.split)
next
  case (DeleteReq k)
  then show ?thesis using assms member_int_str [of _ k] by (simp add: serve_matched to_request_def param_int_def)
qed

theorem canonical_requests_reach_app_witness:
  "(\<forall>k. decimal_int (int_str k) = Some k) \<and>
   serve (\<lambda>_. None) decimal_int (raw_of (GetReq 7)) (create_all empty_db) =
     (Answer (Response 404 (PDict [(''detail'', PStr not_found_detail)])), create_all empty_db)"
proof -
  have h: "\<forall>k. decimal_int (int_str k) = Some k" by (simp add: decimal_int_str)
  have "app (\<lambda>_. None) (GetReq 7) (create_all empty_db) =
      (Response 404 (PDict [(''detail'', PStr not_found_detail)]), create_all empty_db)"
    by (simp add: app_get witness_defs)
  with canonical_requests_reach_app [OF h, of "\<lambda>_. None" "GetReq 7" "create_all empty_db"] h
  show ?thesis by simp
qed

text \<open>
  C25. An \<^verbatim>\<open>item_id\<close> that is not an integer is refused before any handler runs: GET and
  DELETE answer 422 with one error of type \<^verbatim>\<open>int_parsing\<close> at \<^verbatim>\<open>path.item_id\<close>, PUT
  the same error followed by the errors of its body, and the database is unchanged. The
  PUT's 422 carries the body's values as the errors' inputs, so it is rendered when the
  body holds no non-finite number (otherwise the answer is the 500 of
  \<open>Handlers.validation_answer\<close>).
\<close>

theorem non_integer_item_id_422:
  assumes "str_int s = None" and "s \<noteq> []" and "CHR ''/'' \<notin> set s"
  shows "serve sf str_int \<lparr>r_method = ''GET'', r_path = ''/items/'' @ s, r_query = q, r_body = b\<rparr> d =
           (Answer (validation_response [([''path'', ''item_id''], IntParsing)]), d) \<and>
         serve sf str_int \<lparr>r_method = ''DELETE'', r_path = ''/items/'' @ s, r_query = q, r_body = b\<rparr> d =
           (Answer (validation_response [([''path'', ''item_id''], IntParsing)]), d) \<and>
         (body_json_ok b \<longrightarrow>
          serve sf str_int \<lparr>r_method = ''PUT'', r_path = ''/items/'' @ s, r_query = q, r_body = b\<rparr> d =
           (Answer (validation_response (([''path'', ''item_id''], IntParsing) # body_errs sf b)), d))"
proof -
  have "member_param (''/items/'' @ s) = Some s" using assms(2,3) by (simp add: member_param_Some)
  then show ?thesis
    using assms dispatch_member [OF assms(2,3)]
    by (simp add: serve_matched to_request_def param_int_def validation_answer_params validation_answer_ok
        split: list.split)
qed

theorem non_integer_item_id_422_witness:
  "decimal_int ''abc'' = None \<and> ''abc'' \<noteq> [] \<and> CHR ''/'' \<notin> set ''abc'' \<and> body_json_ok None \<and>
   serve (\<lambda>_. None) decimal_int \<lparr>r_method = ''PUT'', r_path = ''/items/abc'', r_query = [], r_body = None\<rparr>
       (create_all empty_db) =
     (Answer (validation_response [([''path'', ''item_id''], IntParsing), ([''body''], Missing)]),
      create_all empty_db)"
proof -
  have h: "decimal_int ''abc'' = None" "''abc'' \<noteq> []" "CHR ''/'' \<notin> set ''abc''"
    by (simp_all add: decimal_int_def digit_val_def)
  from non_integer_item_id_422 [where str_int = decimal_int and s = "''abc''" and sf = "\<lambda>_. None"
      and q = "[]" and b = None and d = "create_all empty_db", OF h] h
  show ?thesis by (simp add: body_errs_def validate_item_create_def body_json_ok_def)
qed

text \<open>
  C26. A \<^verbatim>\<open>skip\<close> that is not an integer (the last value given in the query string is the
  one read) is refused before the handler runs: the list answers 422 with an error of type
  \<^verbatim>\<open>int_parsing\<close> at \<^verbatim>\<open>query.skip\<close>, followed by that of \<^verbatim>\<open>limit\<close> if it fails too, and the
  database is unchanged.
\<close>

theorem non_integer_skip_422:
  assumes "query_get q ''skip'' = Some s" and "str_int s = None"
  shows "serve sf str_int \<lparr>r_method = ''GET'', r_path = ''/items/'', r_query = q, r_body = b\<rparr> d =
    (Answer (validation_response (([''query'', ''skip''], IntParsing) #
       errs_of (param_int str_int [''query'', ''limit''] (query_get q ''limit'')))), d)"
  using assms
  by (simp add: serve_matched dispatch_collection to_request_def param_int_def validation_answer_params
    split: prod.split option.split)

theorem non_integer_skip_422_witness:
  "query_get [(''skip'', ''10''), (''skip'', ''ten''), (''limit'', ''x'')] ''skip'' = Some ''ten'' \<and>
   decimal_int ''ten'' = None \<and>
   serve (\<lambda>_. None) decimal_int
       \<lparr>r_method = ''GET'', r_path = ''/items/'', r_query = [(''skip'', ''10''), (''skip'', ''ten''), (''limit'', ''x'')],
        r_body = None\<rparr> (create_all empty_db) =
     (Answer (validation_response [([''query'', ''skip''], IntParsing), ([''query'', ''limit''], IntParsing)]),
      create_all empty_db)"
proof -
  have h: "query_get [(''skip'', ''10''), (''skip'', ''ten''), (''limit'', ''x'')] ''skip'' = Some ''ten''"
    "decimal_int ''ten'' = None" by (simp_all add: query_get_def decimal_int_def digit_val_def)
  from non_integer_skip_422 [where str_int = decimal_int and s = "''ten''" and sf = "\<lambda>_. None"
      and q = "[(''skip'', ''10''), (''skip'', ''ten''), (''limit'', ''x'')]" and b = None
      and d = "create_all empty_db", OF h] h
  show ?thesis by (simp add: param_int_def query_get_def decimal_int_def digit_val_def)
qed

text \<open>
  C27. Requests that reach no endpoint change nothing: a method the route does not have
  answers 405 (\<^verbatim>\<open>/items/\<close> takes POST and GET, \<^verbatim>\<open>/items/{item_id}\<close> GET, PUT and
  DELETE); \<^verbatim>\<open>/items\<close> and \<^verbatim>\<open>/items/{item_id}/\<close> are redirected (307) to the path with the
  slash added or removed, whatever the method; a path outside the prefixes of the routes
  answers 404.
\<close>

theorem unrouted_requests:
  assumes "m \<notin> {''POST'', ''GET''}" and "m' \<notin> {''GET'', ''PUT'', ''DELETE''}"
    and "x \<noteq> []" and "CHR ''/'' \<notin> set x"
    and "take 5 p \<notin> {''/item'', ''/docs'', ''/redo'', ''/open''}"
  shows "serve sf si \<lparr>r_method = m, r_path = ''/items/'', r_query = q, r_body = b\<rparr> d =
           (Answer (Response 405 (PDict [(''detail'', PStr ''Method Not Allowed'')])), d) \<and>
         serve sf si \<lparr>r_method = m', r_path = ''/items/'' @ x, r_query = q, r_body = b\<rparr> d =
           (Answer (Response 405 (PDict [(''detail'', PStr ''Method Not Allowed'')])), d) \<and>
         serve sf si \<lparr>r_method = m'', r_path = ''/items'', r_query = q, r_body = b\<rparr> d =
           (RedirectTo ''/items/'', d) \<and>
         serve sf si \<lparr>r_method = m'', r_path = ''/items/'' @ x @ ''/'', r_query = q, r_body = b\<rparr> d =
           (RedirectTo (''/items/'' @ x), d) \<and>
         serve sf si \<lparr>r_method = m'', r_path = p, r_query = q, r_body = b\<rparr> d =
           (Answer (Response 404 (PDict [(''detail'', PStr ''Not Found'')])), d)"
proof -
  have np: "\<not> path_routed p" "\<not> path_routed (slash_variant p)"
    using assms(5) routed_prefix [of p] variant_prefix [of p] by blast+
  then have "route_dispatch m'' p = NoRoute" by (simp add: dispatch_unrouted)
  moreover have "route_dispatch m'' ''/items'' = RedirectPath ''/items/''"
    by (simp add: route_simps member_param_def)
  moreover note member_slash [OF assms(3,4), of m'']
  ultimately show ?thesis
    using assms dispatch_collection [of m] dispatch_member [OF assms(3,4), of m'] by (simp add: serve_def)
qed

theorem unrouted_requests_witness:
  "''DELETE'' \<notin> {''POST'', ''GET''} \<and> ''POST'' \<notin> {''GET'', ''PUT'', ''DELETE''} \<and> ''5'' \<noteq> [] \<and>
   CHR ''/'' \<notin> set ''5'' \<and> take 5 ''/users'' \<notin> {''/item'', ''/docs'', ''/redo'', ''/open''} \<and>
   serve (\<lambda>_. None) decimal_int \<lparr>r_method = ''POST'', r_path = ''/items/5'', r_query = [], r_body = None\<rparr>
       empty_db = (Answer (Response 405 (PDict [(''detail'', PStr ''Method Not Allowed'')])), empty_db) \<and>
   serve (\<lambda>_. None) decimal_int \<lparr>r_method = ''GET'', r_path = ''/items/5/'', r_query = [], r_body = None\<rparr>
       empty_db = (RedirectTo ''/items/5'', empty_db) \<and>
   serve (\<lambda>_. None) decimal_int \<lparr>r_method = ''GET'', r_path = ''/users'', r_query = [], r_body = None\<rparr>
       empty_db = (Answer (Response 404 (PDict [(''detail'', PStr ''Not Found'')])), empty_db)"
proof -
  have h: "''DELETE'' \<notin> {''POST'', ''GET''}" "''POST'' \<notin> {''GET'', ''PUT'', ''DELETE''}" "''5'' \<noteq> []"
    "CHR ''/'' \<notin> set ''5''" "take 5 ''/users'' \<notin> {''/item'', ''/docs'', ''/redo'', ''/open''}"
    by simp_all
  from unrouted_requests [OF h, of "\<lambda>_. None" decimal_int "[]" None empty_db "''GET''"] h
  show ?thesis by simp
qed

end
