(* ===== verification/Spec2Isabelle.thy ===== *)
theory Spec2Isabelle
  imports Store_Spec Startup Concurrency Routing
begin

text \<open>
  \<^bold>\<open>A verification development of \<^verbatim>\<open>src/main.py\<close>\<close>, the item CRUD service: a FastAPI
  application whose five endpoints read and write the PostgreSQL table \<^verbatim>\<open>items\<close> through
  SQLAlchemy sessions, with a start-up hook that creates the table.

  \<^medskip>\<^bold>\<open>Parts of the program and how they interact.\<close> A request is routed by
  Starlette to the first route of \<^verbatim>\<open>app\<close> (line 40 and the decorators) whose path and
  method match, its path and query parameters are converted and its body validated by
  FastAPI/Pydantic; the endpoint gets a session from \<^verbatim>\<open>get_db\<close>, works on it
  (query, add, setattr, delete, commit, refresh) and returns an ORM object that FastAPI
  validates against \<^verbatim>\<open>response_model\<close> and renders as JSON; \<^verbatim>\<open>get_db\<close> closes the
  session in any case. The session turns its pending work into SQL statements at commit.
  Start-up runs once per process before the first request. The theories, bottom up:

  \<^item> \<^verbatim>\<open>Prelude\<close>: the named collections, \<open>py_int\<close> (Python's unbounded \<^verbatim>\<open>int\<close>),
    \<open>py_float\<close> (a Python float: a finite value, \<^verbatim>\<open>inf\<close>, \<^verbatim>\<open>-inf\<close> or \<^verbatim>\<open>nan\<close>, with
    \<open>is_finite\<close> and Python's \<^verbatim>\<open>==\<close> as \<open>py_float_eq\<close>), and the list lemmas the
    components share (look-up by key with \<open>find\<close>, update and delete by key with \<open>map\<close>
    and \<open>filter\<close>, pages of a list).
  \<^item> \<^verbatim>\<open>Schema\<close> (lines 18--37): \<open>itemdb\<close> is \<^verbatim>\<open>ItemDB\<close>, its columns nullable; the
    records \<open>item_base\<close>/\<open>item\<close> are \<^verbatim>\<open>ItemBase\<close>/\<^verbatim>\<open>ItemCreate\<close>/\<^verbatim>\<open>Item\<close> (the
    extensible record mirrors the subclassing); \<open>validate_item_create\<close> is Pydantic's
    lax-mode validation of a JSON body (\<open>pyval\<close>) collecting every field's error (a JSON
    \<^verbatim>\<open>null\<close> body is missing; \<^verbatim>\<open>inf\<close> and \<^verbatim>\<open>nan\<close> are accepted for \<^verbatim>\<open>preco\<close>);
    \<open>item_of_orm\<close> is \<^verbatim>\<open>from_attributes\<close> validation of the returned object; \<open>item_dict\<close>,
    \<open>setattr_itemdb\<close> and \<open>itemdb_kwargs\<close> are \<^verbatim>\<open>item.dict()\<close>, the \<^verbatim>\<open>setattr\<close> loop of
    line 94 and \<^verbatim>\<open>ItemDB(**item.dict())\<close> of line 69; \<open>json_ok\<close> says which values
    \<^verbatim>\<open>json.dumps(allow_nan=False)\<close> renders.
  \<^item> \<^verbatim>\<open>Storage\<close>: the table as the record \<open>db\<close> (rows in scan order, the SERIAL
    sequence's last value, whether the table exists) and one function per SQL statement
    the session emits: \<open>sql_insert\<close> with \<open>nextval\<close>, \<open>sql_select_id\<close>, \<open>sql_select_page\<close>
    (\<^verbatim>\<open>OFFSET\<close>/\<^verbatim>\<open>LIMIT\<close>), \<open>sql_update\<close> (writing the columns \<open>col_set\<close> it is given),
    \<open>sql_delete\<close>, each with PostgreSQL's errors as values of \<open>db_error\<close>. The invariant
    \<open>db_wf\<close>: sequence in range, keys unique, each handed out by the sequence,
    \<^verbatim>\<open>nome\<close> and \<^verbatim>\<open>preco\<close> not NULL.
  \<^item> \<^verbatim>\<open>Session\<close> (lines 14, 43--48): the unit of work of a session with
    \<^verbatim>\<open>autoflush=False\<close>: \<open>sess_add\<close>, \<open>sess_set_dirty\<close> (the loaded row and the new one),
    \<open>sess_delete\<close> queue work, \<open>sess_commit\<close> flushes it in SQLAlchemy's order (inserts and
    updates, then deletes) all or nothing; an update writes only \<open>changed_cols\<close>, the
    columns that differ under Python's \<^verbatim>\<open>==\<close> (\<open>column_eq\<close>), sends nothing when none
    differs, and raises StaleDataError when its UPDATE matches no row. \<open>sess_refresh\<close>
    re-reads a row, \<open>sess_close\<close> drops what was not committed, \<open>get_db\<close> runs a
    handler between \<^verbatim>\<open>SessionLocal()\<close> and \<^verbatim>\<open>close\<close>.
  \<^item> \<^verbatim>\<open>Handlers\<close> (lines 66--108): \<open>create_item\<close>, \<open>read_items\<close>, \<open>read_item\<close>,
    \<open>update_item\<close>, \<open>delete_item\<close> as functions of a session, every early return and
    \<^verbatim>\<open>raise\<close> a branch, and \<open>app\<close>: one request (\<open>request\<close>) to its response and the
    new database, through validation (422, rendered by \<open>validation_answer\<close>), \<open>get_db\<close>,
    the mapping of exceptions to 404 and 500 (\<open>finish\<close>), and the rendering of the
    answer (\<open>json_answer\<close>): a body holding a non-finite float is a 500, after the
    commit.
  \<^item> \<^verbatim>\<open>Routing\<close> (line 40 and the decorators of lines 67--100): the route table
    \<open>routes\<close> (FastAPI's documentation routes, then the five endpoints), Starlette's
    dispatch \<open>route_dispatch\<close> (full match, 405 for a matching path with another method,
    307 to the path with a trailing slash added or removed, 404), the conversion of
    \<^verbatim>\<open>item_id\<close>, \<^verbatim>\<open>skip\<close> and \<^verbatim>\<open>limit\<close> to \<^verbatim>\<open>int\<close> (\<open>to_request\<close>, errors at
    \<^verbatim>\<open>path.item_id\<close> and \<^verbatim>\<open>query.*\<close> before those of the body), and \<open>serve\<close>: a raw
    request (method, path, query pairs, body) to its answer and the new database, through
    \<open>app\<close>.
  \<^item> \<^verbatim>\<open>Startup\<close> (lines 10, 51--63): \<open>startup_loop\<close> is the \<^verbatim>\<open>for\<close>/\<^verbatim>\<open>else\<close> loop as
    recursion on the iterations left, with the prints and sleeps as a log.
  \<^item> \<^verbatim>\<open>Store_Spec\<close>: the abstract contract of the service, a store from ids to items and
    the inductive \<open>store_step\<close> of the responses each request may give; \<open>abs_db\<close> reads
    the store off a table.
  \<^item> \<^verbatim>\<open>Concurrency\<close> (spec section 5): requests served at the same time. A request is
    a thread (\<open>pc\<close> and its session) whose statements -- each query, each
    \<^verbatim>\<open>db.commit()\<close>, each \<^verbatim>\<open>db.refresh\<close> -- run one at a time against the shared
    database (\<open>tstep\<close>, READ COMMITTED, commits atomic); \<open>cstep\<close> interleaves arrivals and
    statements, \<open>exec_sched\<close> runs a given schedule.
  \<^item> This theory: \<open>reachable\<close>, the states reached from an empty database by a
    deployment, requests served one at a time and restarts, and \<open>run_requests\<close>.

  \<^medskip>\<^bold>\<open>What is shown.\<close> The refinement: every request with a finite price (or none)
  on a well-formed table is a step of the contract (\<open>Store_Spec.app_refines_store\<close>), so
  every such sequence of requests from a reachable state is a trace of it
  (\<open>service_refines_store\<close>). The 500s of a running service are an exhausted id
  sequence, an unchecked list bound, or a non-finite float that has to be rendered; a
  POST or PUT of a non-finite price is the one place where the service breaks its
  contract, committing and then answering 500 (\<open>nonfinite_price_commits_500\<close>,
  \<open>nonfinite_put_commits_500\<close>). The invariant: every request keeps \<open>db_wf\<close>
  (\<^verbatim>\<open>Handlers\<close>), every reachable state is well-formed and all its rows validate as
  \<^verbatim>\<open>Item\<close> (here, by rule induction on \<open>reachable\<close>). Routing: every typed request
  written on the wire as a client writes it is served exactly as \<open>app\<close> serves it, for
  any integer parser that reads back decimal notation (a composition of router and
  application, with the round trip of \<open>int_str\<close> and \<open>decimal_int\<close>); a non-integer
  \<^verbatim>\<open>item_id\<close> or \<^verbatim>\<open>skip\<close> is a 422 at its location that changes nothing; wrong methods,
  missing or extra slashes and foreign paths answer 405, 307 and 404 and change nothing.
  Safety: a request with a finite price that does not answer 200 changes nothing, ids are
  never reused, and PUT is idempotent. The behaviour of each endpoint on each branch,
  errors included, and the scenarios create/read, create/update/read, delete/read, three
  creates and a list. Start-up: the first success after \<open>i\<close> failures, the give-up
  after ten attempts with 50 s of sleep. Concurrency: a thread run alone is \<open>app\<close>
  (\<open>Concurrency.run_alone_app\<close>); under every interleaving the table stays well-formed
  and each statement is at most one write of the abstract store (\<open>store_write\<close>);
  concurrent creates get distinct ids; and the races the code leaves open, each on an
  explicit schedule: a PUT racing a DELETE answers 500, two DELETEs both answer 200, and
  two PUTs merge column by column, both answering the merged row.

  \<^medskip>\<^bold>\<open>Bounds.\<close> Ids are PostgreSQL \<^verbatim>\<open>INTEGER\<close> from a SERIAL sequence: \<open>serial_max\<close>
  is \<open>2\<^sup>3\<^sup>1 - 1\<close>, and once it is reached every create is a 500. \<^verbatim>\<open>skip\<close> and \<^verbatim>\<open>limit\<close>
  are Python ints (unbounded, \<open>int\<close>) that PostgreSQL takes as \<^verbatim>\<open>BIGINT\<close>: outside 64 bits
  or negative they are errors (500). The start-up loop has exactly ten iterations, so it is
  structural recursion with no fuel; the five-second sleep is a number in the log. The
  sequential model needs no fuel either; in the concurrency model \<open>run_alone 3\<close> suffices
  because no handler runs more than three statements.

  \<^medskip>\<^bold>\<open>Not modelled.\<close> The engine and the network (\<^verbatim>\<open>create_engine\<close>): whether a
  statement reaches the server is the predicate \<open>up\<close> at start-up, and every request is
  served by a server that is up. Pydantic's parser of integer strings is the parameter
  \<open>str_int\<close> of \<open>serve\<close> (whitespace, underscores and \<^verbatim>\<open>"5.0"\<close> are its business), and
  its parser of float strings (\<^verbatim>\<open>"inf"\<close>, \<^verbatim>\<open>"1e3"\<close>) the parameter \<open>sf\<close> of validation;
  the documentation pages are only recognised as such (\<open>DocsPage\<close>); a redirect is its
  target path, not the full \<^verbatim>\<open>Location\<close> URL; percent-decoding of the path is taken as
  done. JSON decoding (the body is given decoded, \<^verbatim>\<open>Infinity\<close> and \<^verbatim>\<open>NaN\<close> included),
  and the \<^verbatim>\<open>msg\<close> field of 422 details and the text of their \<^verbatim>\<open>input\<close> (the location
  and the error type are modelled, and whether the input can be rendered). Finite floats
  are reals: IEEE rounding of \<^verbatim>\<open>preco\<close> and integers beyond the double range are not
  modelled, nor Pydantic versions whose JSON dump turns \<^verbatim>\<open>inf\<close> into \<^verbatim>\<open>null\<close>. In
  the concurrency model a blocked statement waiting for a row lock is not a state of its
  own: commits being atomic, waiting only orders them.
\<close>

section \<open>The service as a system\<close>

text \<open>
  The states the database can be in while the service runs: a first deployment on an
  empty database whose start-up succeeds, any request served one at a time, and a
  restart of the process, whose start-up runs again on the database as it is.
\<close>

inductive reachable :: "(string \<Rightarrow> py_float option) \<Rightarrow> db \<Rightarrow> bool" for sf where
  deploy: "fst (startup_event up empty_db) = Inr d \<Longrightarrow> reachable sf d"
| serve: "reachable sf d \<Longrightarrow> app sf req d = (resp, d') \<Longrightarrow> reachable sf d'"
| restart: "reachable sf d \<Longrightarrow> fst (startup_event up d) = Inr d' \<Longrightarrow> reachable sf d'"

text \<open>A sequence of requests served one after the other.\<close>

fun run_requests :: "(string \<Rightarrow> py_float option) \<Rightarrow> request list \<Rightarrow> db \<Rightarrow> response list \<times> db" where
  "run_requests sf [] d = ([], d)"
| "run_requests sf (q # qs) d =
     (case app sf q d of (r, d') \<Rightarrow> (case run_requests sf qs d' of (rs, d'') \<Rightarrow> (r # rs, d'')))"

subsection \<open>Lemmas\<close>

lemma empty_db_wf: "db_wf empty_db"
  by (simp add: db_wf_def empty_db_def serial_max_def)

lemma reachable_invariant: "reachable sf d \<Longrightarrow> db_wf d \<and> has_table d"
proof (induction rule: reachable.induct)
  case (deploy up d)
  then have "d = create_all empty_db" by (rule startup_event_Inr)
  then show ?case using create_all_wf [OF empty_db_wf] by (simp add: create_all_def)
next
  case (serve d req resp d')
  then show ?case using app_effect [of d sf req resp d'] by auto
next
  case (restart d up d')
  then have "d' = create_all d" by (simp add: startup_event_Inr)
  with restart.IH create_all_wf [of d] show ?case by (simp add: create_all_keeps)
qed

lemma deploy_reachable: "reachable sf (create_all empty_db)"
proof (rule reachable.deploy)
  show "fst (startup_event (\<lambda>_. True) empty_db) = Inr (create_all empty_db)"
    by (simp add: startup_event_def numeral_eq_Suc)
qed


lemma create_on_reachable:
  assumes "reachable sf d" and "last_value d < serial_max" and "validate_item_create sf body = Inr v"
  shows "app sf (CreateReq body) d =
     (json_answer 200 (item_json (with_id (last_value d + 1) v)),
      d\<lparr>last_value := last_value d + 1,
        rows := rows d @ [\<lparr>db_id = Some (last_value d + 1), db_nome = Some (nome v),
                          db_descricao = descricao v, db_preco = Some (preco v)\<rparr>]\<rparr>)"
  using app_create_ok [OF _ _ assms(2,3)] reachable_invariant [OF assms(1)]
  by (simp add: with_id_def)

lemma run_requests_reachable:
  "reachable sf d \<Longrightarrow> run_requests sf qs d = (rs, d') \<Longrightarrow> reachable sf d'"
proof (induction qs arbitrary: d rs)
  case Nil
  then show ?case by simp
next
  case (Cons q qs)
  obtain r d1 where s1: "app sf q d = (r, d1)" by (cases "app sf q d")
  obtain rs' d2 where s2: "run_requests sf qs d1 = (rs', d2)" by (cases "run_requests sf qs d1")
  from Cons.prems s1 s2 have "d' = d2" by simp
  moreover have "reachable sf d1" using reachable.serve [OF Cons.prems(1) s1] .
  ultimately show ?case using Cons.IH s2 by blast
qed

lemma key_not_reused:
  assumes "reachable sf d" and "k \<le> last_value d" and "Some k \<notin> db_id ` set (rows d)"
    and "app sf req d = (resp, d')"
  shows "k \<le> last_value d' \<and> Some k \<notin> db_id ` set (rows d')"
  using app_effect [OF conjunct1 [OF reachable_invariant [OF assms(1)]] assms(4)] assms(2,3) by auto




section \<open>Properties of the whole service\<close>

text \<open>
  C1. The service refines its contract: every sequence of requests served one after the
  other from a state the service can reach, in which no POST or PUT sends a price that
  validates to a non-finite float, is, read through \<open>abs_db\<close>, a trace of the abstract
  store specification \<open>store_step\<close> -- each response and each change of the stored items
  is one the contract allows for that request. (\<open>nonfinite_price_commits_500\<close> below
  shows the contract broken by a non-finite price.)
\<close>

theorem service_refines_store:
  assumes "reachable sf d" and "list_all (req_finite sf) qs" and "run_requests sf qs d = (rs, d')"
  shows "store_trace sf qs (abs_db d) rs (abs_db d')"
  using assms
proof (induction qs arbitrary: d rs)
  case Nil
  then show ?case by (auto intro: store_trace.nil)
next
  case (Cons q qs)
  obtain r d1 where s1: "app sf q d = (r, d1)" by (cases "app sf q d")
  obtain rs' d2 where s2: "run_requests sf qs d1 = (rs', d2)" by (cases "run_requests sf qs d1")
  from Cons.prems s1 s2 have rs: "rs = r # rs'" and d': "d' = d2" by auto
  have inv: "db_wf d" "has_table d" using reachable_invariant [OF Cons.prems(1)] by auto
  have fin: "req_finite sf q" and fins: "list_all (req_finite sf) qs" using Cons.prems(2) by simp_all
  have "reachable sf d1" using reachable.serve [OF Cons.prems(1) s1] .
  with Cons.IH fins s2 d' have "store_trace sf qs (abs_db d1) rs' (abs_db d')" by blast
  with app_refines_store [OF inv s1 fin] rs show ?case by (auto intro: store_trace.cons)
qed

theorem service_refines_store_witness:
  "reachable (\<lambda>_. None) (create_all empty_db) \<and> list_all (req_finite (\<lambda>_. None)) [GetReq 3] \<and>
   run_requests (\<lambda>_. None) [GetReq 3] (create_all empty_db) = ([not_found_response], create_all empty_db) \<and>
   store_trace (\<lambda>_. None) [GetReq 3] (abs_db (create_all empty_db)) [not_found_response]
     (abs_db (create_all empty_db))"
proof -
  have h1: "reachable (\<lambda>_. None) (create_all empty_db)" by (rule deploy_reachable)
  have h2: "list_all (req_finite (\<lambda>_. None)) [GetReq 3]" by simp
  have h3: "run_requests (\<lambda>_. None) [GetReq 3] (create_all empty_db) = ([not_found_response], create_all empty_db)"
    by (simp add: app_get not_found_response_def witness_defs)
  from service_refines_store [OF h1 h2 h3] h1 h2 h3 show ?thesis by simp
qed



text \<open>
  C5. Every reachable state is well-formed, its table exists, and every row validates as
  an \<^verbatim>\<open>Item\<close>: on a running service GET and list never fail response validation.
\<close>

theorem reachable_wf:
  "reachable sf d \<Longrightarrow> db_wf d \<and> has_table d \<and> (\<forall>r \<in> set (rows d). \<exists>it. item_of_orm r = Inr it)"
  using reachable_invariant wf_item_of_orm by blast

theorem reachable_wf_witness:
  "reachable (\<lambda>_. None) (create_all empty_db) \<and> db_wf (create_all empty_db)"
  using reachable_wf [OF deploy_reachable [of "\<lambda>_. None"]] deploy_reachable by blast

text \<open>
  C8. Deleting an existing item answers 200 with the confirmation message; afterwards a
  GET of its id answers 404, and so does a second DELETE, which changes nothing.
\<close>

theorem delete_then_get_404:
  assumes "reachable sf d" and "Some k \<in> db_id ` set (rows d)" and "app sf (DeleteReq k) d = (r1, d1)"
  shows "r1 = Response 200 (PDict [(''message'', PStr deleted_message)]) \<and>
         app sf (GetReq k) d1 = (not_found_response, d1) \<and>
         app sf (DeleteReq k) d1 = (not_found_response, d1)"
proof -
  have inv: "db_wf d" "has_table d" using reachable_invariant [OF assms(1)] by auto
  from assms(2) obtain r where hit: "find (\<lambda>r. db_id r = Some k) (rows d) = Some r"
    by (cases "find (\<lambda>r. db_id r = Some k) (rows d)") (auto simp: find_key_None_iff)
  with app_delete [OF inv(2)] assms(3)
  have r1: "r1 = Response 200 (PDict [(''message'', PStr deleted_message)])"
    and d1: "d1 = d\<lparr>rows := filter (\<lambda>x. db_id x \<noteq> Some k) (rows d)\<rparr>" by auto
  have "find (\<lambda>x. db_id x = Some k) (rows d1) = None" using d1 by (simp add: find_key_filter)
  with d1 inv(2) r1 show ?thesis by (simp add: app_get app_delete not_found_response_def)
qed

theorem delete_then_get_404_witness:
  "reachable (\<lambda>_. None) \<lparr>has_table = True, rows = [\<lparr>db_id = Some 1, db_nome = Some ''Pen'', db_descricao = None,
                                                   db_preco = Some (Fin (3/2))\<rparr>], last_value = 1\<rparr> \<and>
   app (\<lambda>_. None) (GetReq 1) \<lparr>has_table = True, rows = [], last_value = 1\<rparr> =
     (not_found_response, \<lparr>has_table = True, rows = [], last_value = 1\<rparr>)"
proof -
  let ?d1 = "\<lparr>has_table = True, rows = [\<lparr>db_id = Some 1, db_nome = Some ''Pen'', db_descricao = None,
                                          db_preco = Some (Fin (3/2))\<rparr>], last_value = 1\<rparr> :: db"
  let ?body = "Some (PDict [(''nome'', PStr ''Pen''), (''preco'', PFloat (Fin (3/2)))])"
  have c: "app (\<lambda>_. None) (CreateReq ?body) (create_all empty_db) =
    (Response 200 (item_json (with_id 1 \<lparr>nome = ''Pen'', descricao = None, preco = Fin (3/2)\<rparr>)), ?d1)"
    using create_on_reachable [OF deploy_reachable, of "\<lambda>_. None" ?body]
    by (simp add: witness_defs json_answer_item with_id_def)
  have h1: "reachable (\<lambda>_. None) ?d1" using reachable.serve [OF deploy_reachable c] .
  have h2: "Some 1 \<in> db_id ` set (rows ?d1)" by simp
  have h3: "app (\<lambda>_. None) (DeleteReq 1) ?d1 =
      (Response 200 (PDict [(''message'', PStr deleted_message)]), \<lparr>has_table = True, rows = [], last_value = 1\<rparr>)"
    by (simp add: app_delete)
  from delete_then_get_404 [OF h1 h2 h3] h1 show ?thesis by simp
qed







text \<open>
  C9. PUT is idempotent: on a running service, sending the same PUT twice gives the same
  response twice and the second changes nothing.
\<close>

theorem put_idempotent:
  assumes "reachable sf d" and "app sf (UpdateReq k body) d = (r1, d1)"
    and "app sf (UpdateReq k body) d1 = (r2, d2)"
  shows "r2 = r1 \<and> d2 = d1"
proof -
  have inv: "db_wf d" "has_table d" using reachable_invariant [OF assms(1)] by auto
  have R1: "reachable sf d1" using reachable.serve [OF assms(1,2)] .
  have inv1: "db_wf d1" "has_table d1" using reachable_invariant [OF R1] by auto
  show ?thesis
  proof (cases "validate_item_create sf body")
    case (Inl errs)
    with assms(2,3) show ?thesis by (simp add: app_invalid_body)
  next
    case (Inr v)
    show ?thesis
    proof (cases "find (\<lambda>r. db_id r = Some k) (rows d)")
      case None
      with app_update [OF inv Inr, of k] assms(2,3) show ?thesis by auto
    next
      case (Some r)
      define upd where "upd = (\<lambda>x::itemdb. x\<lparr>db_nome := Some (nome v), db_descricao := descricao v,
                                              db_preco := Some (preco v)\<rparr>)"
      have rid: "db_id r = Some k" using find_key_Some [OF Some] by simp
      from app_update [OF inv Inr, of k] Some assms(2)
      have r1: "r1 = json_answer 200 (item_json \<lparr>nome = nome v, descricao = descricao v, preco = preco v, item_id = k\<rparr>)"
        and d1: "d1 = d\<lparr>rows := map (\<lambda>x. if db_id x = Some k then upd r else x) (rows d)\<rparr>"
        by (auto simp: upd_def)
      have hit1: "find (\<lambda>x. db_id x = Some k) (rows d1) = Some (upd r)"
        using find_key_map_hit [of db_id "Some k" "\<lambda>_. upd r" "rows d"] Some d1 rid by (simp add: upd_def del: map_map)
      have uu: "upd (upd r) = upd r" by (simp add: upd_def)
      have idem: "map (\<lambda>x. if db_id x = Some k then upd r else x) (map (\<lambda>x. if db_id x = Some k then upd r else x) (rows d))
          = map (\<lambda>x. if db_id x = Some k then upd r else x) (rows d)"
        using map_key_idem [of db_id "Some k" "\<lambda>_. upd r" "rows d"] rid by (simp add: upd_def del: map_map)
      from app_update [OF inv1 Inr, of k] hit1 assms(3) d1 r1
      have "r2 = r1" and "d2 = d\<lparr>rows := map (\<lambda>x. if db_id x = Some k then upd (upd r) else x)
                                     (map (\<lambda>x. if db_id x = Some k then upd r else x) (rows d))\<rparr>"
        by (auto simp: upd_def)
      then show ?thesis unfolding uu idem d1 by simp
    qed
  qed
qed

theorem put_idempotent_witness:
  "\<exists>r1 d1 r2 d2.
     app (\<lambda>_. None) (UpdateReq 1 (Some (PDict [(''nome'', PStr ''Ink''), (''preco'', PInt 3)])))
       \<lparr>has_table = True, rows = [\<lparr>db_id = Some 1, db_nome = Some ''Pen'', db_descricao = None,
                                  db_preco = Some (Fin (3/2))\<rparr>], last_value = 1\<rparr> = (r1, d1) \<and>
     app (\<lambda>_. None) (UpdateReq 1 (Some (PDict [(''nome'', PStr ''Ink''), (''preco'', PInt 3)]))) d1 = (r2, d2) \<and>
     r2 = r1 \<and> d2 = d1"
proof -
  let ?d1 = "\<lparr>has_table = True, rows = [\<lparr>db_id = Some 1, db_nome = Some ''Pen'', db_descricao = None,
                                          db_preco = Some (Fin (3/2))\<rparr>], last_value = 1\<rparr> :: db"
  let ?body = "Some (PDict [(''nome'', PStr ''Pen''), (''preco'', PFloat (Fin (3/2)))])"
  let ?b = "Some (PDict [(''nome'', PStr ''Ink''), (''preco'', PInt 3)])"
  have c: "app (\<lambda>_. None) (CreateReq ?body) (create_all empty_db) =
    (Response 200 (item_json (with_id 1 \<lparr>nome = ''Pen'', descricao = None, preco = Fin (3/2)\<rparr>)), ?d1)"
    using create_on_reachable [OF deploy_reachable, of "\<lambda>_. None" ?body]
    by (simp add: witness_defs json_answer_item with_id_def)
  have h1: "reachable (\<lambda>_. None) ?d1" using reachable.serve [OF deploy_reachable c] .
  obtain r1 d1 where h2: "app (\<lambda>_. None) (UpdateReq 1 ?b) ?d1 = (r1, d1)"
    by (cases "app (\<lambda>_. None) (UpdateReq 1 ?b) ?d1")
  obtain r2 d2 where h3: "app (\<lambda>_. None) (UpdateReq 1 ?b) d1 = (r2, d2)"
    by (cases "app (\<lambda>_. None) (UpdateReq 1 ?b) d1")
  from put_idempotent [OF h1 h2 h3] h2 h3 show ?thesis by blast
qed

text \<open>
  C10. Ids are never reused: an id at most the sequence's last value that no row has is
  never given to a row again, whatever requests follow.
\<close>

theorem ids_never_reused:
  assumes "reachable sf d" and "k \<le> last_value d" and "Some k \<notin> db_id ` set (rows d)"
    and "run_requests sf qs d = (rs, d')"
  shows "Some k \<notin> db_id ` set (rows d')"
  using assms
proof (induction qs arbitrary: d rs)
  case Nil
  then show ?case by simp
next
  case (Cons q qs)
  obtain r d1 where s1: "app sf q d = (r, d1)" by (cases "app sf q d")
  obtain rs' d2 where s2: "run_requests sf qs d1 = (rs', d2)" by (cases "run_requests sf qs d1")
  from Cons.prems s1 s2 have "d' = d2" by simp
  moreover from key_not_reused [OF Cons.prems(1-3) s1]
  have "k \<le> last_value d1" and "Some k \<notin> db_id ` set (rows d1)" by auto
  moreover have "reachable sf d1" using reachable.serve [OF Cons.prems(1) s1] .
  ultimately show ?case using Cons.IH s2 by blast
qed

theorem ids_never_reused_witness:
  "reachable (\<lambda>_. None) (create_all empty_db) \<and> (0::int) \<le> last_value (create_all empty_db) \<and>
   Some 0 \<notin> db_id ` set (rows (create_all empty_db)) \<and>
   run_requests (\<lambda>_. None) [GetReq 0] (create_all empty_db) = ([not_found_response], create_all empty_db) \<and>
   Some 0 \<notin> db_id ` set (rows (create_all empty_db))"
proof -
  have h1: "reachable (\<lambda>_. None) (create_all empty_db)" by (rule deploy_reachable)
  have h2: "(0::int) \<le> last_value (create_all empty_db)" and h3: "Some 0 \<notin> db_id ` set (rows (create_all empty_db))"
    by (simp_all add: witness_defs)
  have h4: "run_requests (\<lambda>_. None) [GetReq 0] (create_all empty_db) = ([not_found_response], create_all empty_db)"
    by (simp add: app_get not_found_response_def witness_defs)
  from ids_never_reused [OF h1 h2 h3 h4] h1 h2 h3 h4 show ?thesis by simp
qed





end
